(* ===== verification/Prelude.thy ===== *)
theory Prelude
  imports
    Main
    "HOL-Library.Char_ord"
    "HOL-Library.List_Lexorder"
    "HOL-Library.Multiset"
begin

text \<open>
  Shared vocabulary of the development: results of code that may raise, state passing for
  code whose effects survive an exception, and the parts of Python's built-in types the
  program uses (string methods, \<open>int()\<close>, \<open>repr()\<close>, \<open>collections.Counter\<close>, sorting by a
  key). Nothing here is specific to the repository.

  A Python string is a \<open>string\<close> holding its UTF-8 bytes. For ASCII text, which is all the
  program's own keys, names and addresses, bytes and code points coincide; the few literals
  with other characters are written as their bytes. The character predicates
  (\<open>lower\<close>, \<open>strip\<close>, \<open>isdigit\<close>) are those of ASCII. Byte order is code point order, so
  comparisons of strings are exact.
\<close>

named_theorems result_simps \<open>evaluation of results and of state-passing code\<close>
named_theorems str_simps \<open>evaluation of string operations\<close>


section \<open>Results: a value or the exception that was raised\<close>

definition rbind :: "'e + 'a \<Rightarrow> ('a \<Rightarrow> 'e + 'b) \<Rightarrow> 'e + 'b" where
  "rbind m f = (case m of Inl e \<Rightarrow> Inl e | Inr x \<Rightarrow> f x)"

lemma rbind_Inl [simp, result_simps]: "rbind (Inl e) f = Inl e"
  and rbind_Inr [simp, result_simps]: "rbind (Inr x) f = f x"
  by (simp_all add: rbind_def)

lemma rbind_eq_Inr: "rbind m f = Inr y \<longleftrightarrow> (\<exists>x. m = Inr x \<and> f x = Inr y)"
  by (cases m) auto

lemma rbind_eq_Inl: "rbind m f = Inl e \<longleftrightarrow> m = Inl e \<or> (\<exists>x. m = Inr x \<and> f x = Inl e)"
  by (cases m) auto

lemma rbind_InrE:
  assumes "rbind m f = Inr y"
  obtains x where "m = Inr x" and "f x = Inr y"
  using assms by (auto simp: rbind_eq_Inr)

primrec rmap :: "('a \<Rightarrow> 'e + 'b) \<Rightarrow> 'a list \<Rightarrow> 'e + 'b list" where
  "rmap f [] = Inr []"
| "rmap f (x # xs) = rbind (f x) (\<lambda>y. rbind (rmap f xs) (\<lambda>ys. Inr (y # ys)))"

lemma rmap_eq_Inr: "rmap f xs = Inr ys \<longleftrightarrow> list_all2 (\<lambda>x y. f x = Inr y) xs ys"
  by (induction xs arbitrary: ys) (auto simp: rbind_eq_Inr list_all2_Cons1)

lemma rmap_total: "(\<And>x. x \<in> set xs \<Longrightarrow> f x = Inr (g x)) \<Longrightarrow> rmap f xs = Inr (map g xs)"
  by (induction xs) auto

lemma rmap_length: "rmap f xs = Inr ys \<Longrightarrow> length ys = length xs"
  by (auto simp: rmap_eq_Inr dest: list_all2_lengthD)

lemma rmap_Inl: "rmap f xs = Inl e \<Longrightarrow> \<exists>x \<in> set xs. f x = Inl e"
  by (induction xs) (auto simp: rbind_eq_Inl)

lemma rmap_Inr_all: "rmap f xs = Inr ys \<Longrightarrow> x \<in> set xs \<Longrightarrow> \<exists>y \<in> set ys. f x = Inr y"
  by (induction xs arbitrary: ys) (auto simp: rbind_eq_Inr)

lemma rmap_list_all2:
  assumes "rmap f xs = Inr ys" and "\<And>x y. x \<in> set xs \<Longrightarrow> f x = Inr y \<Longrightarrow> P x y"
  shows "list_all2 P xs ys"
  using assms by (induction xs arbitrary: ys) (auto simp: rbind_eq_Inr)

lemma rmap_map_eq:
  assumes "rmap f xs = Inr ys" and "\<And>x y. x \<in> set xs \<Longrightarrow> f x = Inr y \<Longrightarrow> g y = h x"
  shows "map g ys = map h xs"
  using assms by (induction xs arbitrary: ys) (auto simp: rbind_eq_Inr)

lemma rmap_set:
  assumes "rmap f xs = Inr ys" and "y \<in> set ys"
  shows "\<exists>x \<in> set xs. f x = Inr y"
  using assms by (induction xs arbitrary: ys) (auto simp: rbind_eq_Inr)

text \<open>A sequence of checks: the first one that raises decides.\<close>

primrec rseq :: "('e + unit) list \<Rightarrow> 'e + unit" where
  "rseq [] = Inr ()"
| "rseq (c # cs) = rbind c (\<lambda>_. rseq cs)"

lemma rseq_eq_Inr: "rseq cs = Inr () \<longleftrightarrow> (\<forall>c \<in> set cs. c = Inr ())"
  by (induction cs) (auto simp: rbind_eq_Inr)

lemma rseq_Inl_mem: "rseq cs = Inl e \<Longrightarrow> Inl e \<in> set cs"
  by (induction cs) (auto simp: rbind_eq_Inl)

lemma rseq_append: "rseq (cs @ ds) = rbind (rseq cs) (\<lambda>_. rseq ds)"
proof (induction cs)
  case Nil
  show ?case by simp
next
  case (Cons c cs)
  then show ?case by (cases c) simp_all
qed


section \<open>State passing: effects made before an exception stay\<close>

type_synonym ('s, 'e, 'a) act = "'s \<Rightarrow> ('e + 'a) \<times> 's"

definition aret :: "'a \<Rightarrow> ('s, 'e, 'a) act" where
  "aret x s = (Inr x, s)"

definition athrow :: "'e \<Rightarrow> ('s, 'e, 'a) act" where
  "athrow e s = (Inl e, s)"

definition abind :: "('s, 'e, 'a) act \<Rightarrow> ('a \<Rightarrow> ('s, 'e, 'b) act) \<Rightarrow> ('s, 'e, 'b) act" where
  "abind m f s = (case m s of (Inl e, t) \<Rightarrow> (Inl e, t) | (Inr x, t) \<Rightarrow> f x t)"

definition alift :: "'e + 'a \<Rightarrow> ('s, 'e, 'a) act" where
  "alift r s = (r, s)"

definition amodify :: "('s \<Rightarrow> 's) \<Rightarrow> ('s, 'e, unit) act" where
  "amodify f s = (Inr (), f s)"

lemma aret_run [simp, result_simps]: "aret x s = (Inr x, s)"
  and athrow_run [simp, result_simps]: "athrow e s = (Inl e, s)"
  and alift_run [simp, result_simps]: "alift r s = (r, s)"
  and amodify_run [simp, result_simps]: "amodify f s = (Inr (), f s)"
  by (simp_all add: aret_def athrow_def alift_def amodify_def)

lemma abind_Inr [result_simps]: "m s = (Inr x, t) \<Longrightarrow> abind m f s = f x t"
  and abind_Inl [result_simps]: "m s = (Inl e, t) \<Longrightarrow> abind m f s = (Inl e, t)"
  by (simp_all add: abind_def)

lemma abind_aret [simp]: "abind (aret x) f = f x"
  and abind_athrow [simp]: "abind (athrow e) f = athrow e"
  by (auto simp: abind_def fun_eq_iff)

lemma abind_eq_Inr:
  "abind m f s = (Inr y, u) \<longleftrightarrow> (\<exists>x t. m s = (Inr x, t) \<and> f x t = (Inr y, u))"
  by (auto simp: abind_def split: prod.splits sum.splits)

lemma abind_eq_Inl:
  "abind m f s = (Inl e, u) \<longleftrightarrow>
     m s = (Inl e, u) \<or> (\<exists>x t. m s = (Inr x, t) \<and> f x t = (Inl e, u))"
  by (auto simp: abind_def split: prod.splits sum.splits)

text \<open>\<open>for x in xs: body(x)\<close>\<close>

primrec aiter :: "('a \<Rightarrow> ('s, 'e, unit) act) \<Rightarrow> 'a list \<Rightarrow> ('s, 'e, unit) act" where
  "aiter f [] = aret ()"
| "aiter f (x # xs) = abind (f x) (\<lambda>_. aiter f xs)"

primrec amap :: "('a \<Rightarrow> ('s, 'e, 'b) act) \<Rightarrow> 'a list \<Rightarrow> ('s, 'e, 'b list) act" where
  "amap f [] = aret []"
| "amap f (x # xs) = abind (f x) (\<lambda>y. abind (amap f xs) (\<lambda>ys. aret (y # ys)))"

lemma aiter_invariant:
  assumes "\<And>x s. x \<in> set xs \<Longrightarrow> I s \<Longrightarrow> I (snd (f x s))" and "I s"
  shows "I (snd (aiter f xs s))"
  using assms
proof (induction xs arbitrary: s)
  case Nil
  then show ?case by simp
next
  case (Cons x xs)
  have "I (snd (f x s))" using Cons.prems by simp
  then show ?case
    using Cons.IH Cons.prems(1) by (auto simp: abind_def split: prod.splits sum.splits)
qed



section \<open>Strings\<close>

definition is_digit :: "char \<Rightarrow> bool" where
  "is_digit c \<longleftrightarrow> 48 \<le> (of_char c :: nat) \<and> (of_char c :: nat) \<le> 57"

definition is_hex_lower :: "char \<Rightarrow> bool" where
  "is_hex_lower c \<longleftrightarrow> is_digit c \<or> 97 \<le> (of_char c :: nat) \<and> (of_char c :: nat) \<le> 102"

text \<open>\<open>str.isspace\<close> on ASCII: tab to carriage return, the four separators, and space.\<close>

definition is_space :: "char \<Rightarrow> bool" where
  "is_space c \<longleftrightarrow>
     9 \<le> (of_char c :: nat) \<and> (of_char c :: nat) \<le> 13
     \<or> 28 \<le> (of_char c :: nat) \<and> (of_char c :: nat) \<le> 32"

definition lower_char :: "char \<Rightarrow> char" where
  "lower_char c =
     (if 65 \<le> (of_char c :: nat) \<and> (of_char c :: nat) \<le> 90
      then char_of ((of_char c :: nat) + 32) else c)"

definition py_lower :: "string \<Rightarrow> string" where
  "py_lower s = map lower_char s"

definition upper_char :: "char \<Rightarrow> char" where
  "upper_char c =
     (if 97 \<le> (of_char c :: nat) \<and> (of_char c :: nat) \<le> 122
      then char_of ((of_char c :: nat) - 32) else c)"

definition rstrip_by :: "(char \<Rightarrow> bool) \<Rightarrow> string \<Rightarrow> string" where
  "rstrip_by p s = rev (dropWhile p (rev s))"

definition py_strip :: "string \<Rightarrow> string" where
  "py_strip s = rstrip_by is_space (dropWhile is_space s)"

definition py_isdigit :: "string \<Rightarrow> bool" where
  "py_isdigit s \<longleftrightarrow> s \<noteq> [] \<and> list_all is_digit s"

text \<open>\<open>str.isdigit\<close> by itself also accepts the superscript digits; with \<open>isascii\<close> it is \<open>py_isdigit\<close>.\<close>

definition str_isdigit :: "string \<Rightarrow> bool" where
  "str_isdigit s \<longleftrightarrow> s \<noteq> []
     \<and> list_all (\<lambda>c. is_digit c \<or> c \<in> {CHR 0xB2, CHR 0xB3, CHR 0xB9}) s"

definition starts_with :: "string \<Rightarrow> string \<Rightarrow> bool" where
  "starts_with p s \<longleftrightarrow> take (length p) s = p"

text \<open>\<open>sub in s\<close>\<close>

fun contains_str :: "string \<Rightarrow> string \<Rightarrow> bool" where
  "contains_str sub [] = (sub = [])"
| "contains_str sub (c # s) = (starts_with sub (c # s) \<or> contains_str sub s)"

text \<open>\<open>s.split(c)\<close> for a single character\<close>

fun split_char :: "char \<Rightarrow> string \<Rightarrow> string list" where
  "split_char d [] = [[]]"
| "split_char d (c # s) =
     (if c = d then [] # split_char d s
      else (case split_char d s of [] \<Rightarrow> [[c]] | w # ws \<Rightarrow> (c # w) # ws))"

text \<open>\<open>sep.join(ws)\<close>\<close>

fun join_str :: "string \<Rightarrow> string list \<Rightarrow> string" where
  "join_str sep [] = []"
| "join_str sep [w] = w"
| "join_str sep (w # v # ws) = w @ sep @ join_str sep (v # ws)"

lemma dropWhile_none: "list_all (\<lambda>c. \<not> p c) s \<Longrightarrow> dropWhile p s = s"
  by (cases s) auto

lemma py_strip_none: "list_all (\<lambda>c. \<not> is_space c) s \<Longrightarrow> py_strip s = s"
  by (simp add: py_strip_def rstrip_by_def dropWhile_none list_all_iff)

lemma starts_with_append [simp, str_simps]: "starts_with p (p @ s)"
  by (simp add: starts_with_def)

lemma starts_with_iff: "starts_with p s \<longleftrightarrow> (\<exists>t. s = p @ t)"
  by (metis append_eq_conv_conj append_take_drop_id starts_with_def)

lemma contains_str_iff: "contains_str sub s \<longleftrightarrow> (\<exists>u v. s = u @ sub @ v)"
proof (induction s)
  case Nil
  show ?case by simp
next
  case (Cons c s)
  have "(\<exists>u v. c # s = u @ sub @ v) \<longleftrightarrow>
        (\<exists>v. c # s = sub @ v) \<or> (\<exists>u v. s = u @ sub @ v)"
    by (metis append_Cons append_eq_Cons_conv append_Nil)
  then show ?case by (simp add: Cons.IH starts_with_iff)
qed

lemma split_char_nonempty [simp]: "split_char d s \<noteq> []"
  by (induction s) (auto split: list.splits)

lemma split_char_no_sep: "d \<notin> set s \<Longrightarrow> split_char d s = [s]"
  by (induction s) auto

lemma split_char_append:
  "d \<notin> set w \<Longrightarrow> split_char d (w @ d # s) = w # split_char d s"
  by (induction w) auto

lemma split_join:
  assumes "ws \<noteq> []" and "\<And>w. w \<in> set ws \<Longrightarrow> d \<notin> set w"
  shows "split_char d (join_str [d] ws) = ws"
  using assms
  by (induction "[d]" ws rule: join_str.induct) (auto simp: split_char_no_sep split_char_append)

lemma join_split: "join_str [d] (split_char d s) = s"
proof (induction s)
  case Nil
  show ?case by simp
next
  case (Cons c s)
  obtain w ws where w: "split_char d s = w # ws" by (cases "split_char d s") auto
  show ?case
  proof (cases "c = d")
    case True
    then show ?thesis using Cons w by simp
  next
    case False
    then show ?thesis using Cons w by (cases ws) auto
  qed
qed

lemma lower_char_not_upper:
  "\<not> (65 \<le> (of_char (lower_char c) :: nat) \<and> (of_char (lower_char c) :: nat) \<le> 90)"
proof (cases "65 \<le> (of_char c :: nat) \<and> (of_char c :: nat) \<le> 90")
  case True
  then have "(of_char c + 32 :: nat) < 256" by simp
  then have "of_char (char_of ((of_char c :: nat) + 32)) = (of_char c + 32 :: nat)"
    by (simp add: of_char_mod_256 take_bit_eq_mod)
  then show ?thesis using True by (simp add: lower_char_def)
next
  case False
  then show ?thesis by (simp add: lower_char_def)
qed

lemma lower_char_idem [simp]: "lower_char (lower_char c) = lower_char c"
  using lower_char_not_upper [of c] by (auto simp: lower_char_def [of "lower_char c"])

lemma py_lower_idem [simp]: "py_lower (py_lower s) = py_lower s"
  by (simp add: py_lower_def)

lemma length_py_lower [simp]: "length (py_lower s) = length s"
  by (simp add: py_lower_def)


section \<open>Numbers and their decimal text\<close>

definition digit_char :: "nat \<Rightarrow> char" where
  "digit_char d = char_of (48 + d)"

definition digit_val :: "char \<Rightarrow> nat" where
  "digit_val c = of_char c - 48"

fun str_nat :: "nat \<Rightarrow> string" where
  "str_nat n =
     (if n < 10 then [digit_char n] else str_nat (n div 10) @ [digit_char (n mod 10)])"

declare str_nat.simps [simp del]

definition str_int :: "int \<Rightarrow> string" where
  "str_int i = (if i < 0 then CHR ''-'' # str_nat (nat (- i)) else str_nat (nat i))"

definition nat_of_digits :: "string \<Rightarrow> nat" where
  "nat_of_digits s = foldl (\<lambda>n c. 10 * n + digit_val c) 0 s"

lemma of_digit_char [simp]: "d < 10 \<Longrightarrow> of_char (digit_char d) = (48 + d :: nat)"
  by (simp add: digit_char_def of_char_of take_bit_eq_mod)

lemma digit_val_char [simp]: "d < 10 \<Longrightarrow> digit_val (digit_char d) = d"
  by (simp add: digit_val_def)

lemma is_digit_char [simp]: "d < 10 \<Longrightarrow> is_digit (digit_char d)"
  by (simp add: is_digit_def)

lemma str_nat_nonempty [simp]: "str_nat n \<noteq> []"
  by (subst str_nat.simps) simp

lemma str_nat_digits [simp]: "list_all is_digit (str_nat n)"
proof (induction n rule: str_nat.induct)
  case (1 n)
  then show ?case by (cases "n < 10") (subst str_nat.simps; simp)+
qed

lemma py_isdigit_str_nat [simp, str_simps]: "py_isdigit (str_nat n)"
  by (simp add: py_isdigit_def)

lemma nat_of_digits_snoc [simp]: "nat_of_digits (s @ [c]) = 10 * nat_of_digits s + digit_val c"
  by (simp add: nat_of_digits_def)

lemma nat_of_digits_str_nat [simp, str_simps]: "nat_of_digits (str_nat n) = n"
proof (induction n rule: str_nat.induct)
  case (1 n)
  show ?case
  proof (cases "n < 10")
    case True
    then show ?thesis by (subst str_nat.simps) (simp add: nat_of_digits_def)
  next
    case False
    with "1.IH" have "nat_of_digits (str_nat (n div 10)) = n div 10" by simp
    with False show ?thesis by (subst str_nat.simps) simp
  qed
qed

lemma str_nat_inj [simp]: "str_nat m = str_nat n \<longleftrightarrow> m = n"
  by (metis nat_of_digits_str_nat)

lemma str_nat_no_char: "\<not> is_digit c \<Longrightarrow> c \<notin> set (str_nat n)"
  using str_nat_digits [of n] by (auto simp: list_all_iff)

lemma str_nat_hd: "n \<noteq> 0 \<Longrightarrow> hd (str_nat n) \<noteq> CHR ''0''"
proof (induction n rule: str_nat.induct)
  case (1 n)
  show ?case
  proof (cases "n < 10")
    case True
    have "digit_char n \<noteq> CHR ''0''"
    proof
      assume "digit_char n = CHR ''0''"
      then have "(of_char (digit_char n) :: nat) = of_char (CHR ''0'')" by (rule arg_cong)
      with True "1.prems" show False by simp
    qed
    with True show ?thesis by (subst str_nat.simps) simp
  next
    case False
    with "1.IH" have "hd (str_nat (n div 10)) \<noteq> CHR ''0''" by simp
    with False show ?thesis by (subst str_nat.simps) (simp add: hd_append)
  qed
qed

lemma str_nat_zero_iff: "str_nat n = ''0'' \<longleftrightarrow> n = 0"
proof
  assume "str_nat n = ''0''"
  then have "hd (str_nat n) = CHR ''0''" by simp
  then show "n = 0" using str_nat_hd by blast
qed (subst str_nat.simps, simp add: digit_char_def char_of_eq_iff)

lemma str_nat_length: "n < 1000 \<Longrightarrow> length (str_nat n) \<le> 3"
  by (subst str_nat.simps, cases "n < 10", simp, simp,
      subst str_nat.simps, cases "n div 10 < 10", simp, simp,
      subst str_nat.simps, simp)

text \<open>\<open>int(text)\<close>: surrounding space, a sign, digits, single underscores between digits.\<close>

definition int_of_str :: "string \<Rightarrow> int option" where
  "int_of_str s =
     (let t = py_strip s;
          (sg, u) = (case t of [] \<Rightarrow> (1, [])
                     | c # r \<Rightarrow> if c = CHR ''-'' then (-1, r)
                                else if c = CHR ''+'' then (1, r) else (1, t));
          ws = split_char CHR ''_'' u
      in if list_all py_isdigit ws then Some (sg * int (nat_of_digits (concat ws))) else None)"

text \<open>A text of more digits than this, leading zeros included, is refused with a \<open>ValueError\<close>.\<close>

definition MAX_STR_DIGITS :: nat where "MAX_STR_DIGITS = 4300"

definition digit_count :: "string \<Rightarrow> nat" where
  "digit_count s = length (filter is_digit s)"

text \<open>The decimal text of an integer reads back.\<close>

lemma str_nat_parts:
  obtains c r where "str_nat n = c # r" "is_digit c" "list_all is_digit r"
  using str_nat_digits [of n] str_nat_nonempty [of n] by (cases "str_nat n") auto

lemma digit_plain: "is_digit c \<Longrightarrow> \<not> is_space c \<and> c \<noteq> CHR ''-'' \<and> c \<noteq> CHR ''+'' \<and> c \<noteq> CHR ''_'' \<and> c \<noteq> CHR ''=''
    \<and> c \<noteq> CHR ''h'' \<and> c \<noteq> CHR 0x0A"
  by (auto simp: is_digit_def is_space_def)

lemma int_of_str_int: "int_of_str (str_int n) = Some n"
proof -
  define t where "t = str_nat (nat \<bar>n\<bar>)"
  have t: "py_isdigit t" "nat_of_digits t = nat \<bar>n\<bar>" by (simp_all add: t_def)
  obtain c r where cr: "t = c # r" "is_digit c" "list_all is_digit r" unfolding t_def by (rule str_nat_parts)
  have int: "str_int n = (if n < 0 then CHR ''-'' # t else t)" by (simp add: str_int_def t_def abs_if)
  have "\<forall>c \<in> set t. \<not> is_space c \<and> c \<noteq> CHR ''_''" using cr digit_plain by (auto simp: list_all_iff)
  then have "list_all (\<lambda>c. \<not> is_space c) (str_int n)" and split: "split_char CHR ''_'' t = [t]"
    by (auto simp: int list_all_iff is_space_def intro!: split_char_no_sep)
  then have strip: "py_strip (str_int n) = str_int n" by (intro py_strip_none)
  show ?thesis
  proof (cases "n < 0")
    case True
    then show ?thesis using split t by (simp add: int_of_str_def strip) (simp add: int)
  next
    case False
    then have "int_of_str (str_int n) = (if list_all py_isdigit (split_char CHR ''_'' t)
        then Some (1 * int (nat_of_digits (concat (split_char CHR ''_'' t)))) else None)"
      using digit_plain [OF cr(2)] cr(1) by (simp add: int_of_str_def strip) (simp add: int)
    then show ?thesis using split t False by simp
  qed
qed


section \<open>\<open>repr\<close>\<close>

definition hex_digit :: "nat \<Rightarrow> char" where
  "hex_digit d = (if d < 10 then char_of (48 + d) else char_of (87 + d))"

definition repr_char :: "char \<Rightarrow> char \<Rightarrow> string" where
  "repr_char q c =
     (if c = CHR 0x5C then [CHR 0x5C, CHR 0x5C]
      else if c = q then [CHR 0x5C, q]
      else if of_char c = (10::nat) then [CHR 0x5C, CHR ''n'']
      else if of_char c = (13::nat) then [CHR 0x5C, CHR ''r'']
      else if of_char c = (9::nat) then [CHR 0x5C, CHR ''t'']
      else if (of_char c :: nat) < 32 \<or> of_char c = (127::nat)
      then [CHR 0x5C, CHR ''x'', hex_digit (of_char c div 16), hex_digit (of_char c mod 16)]
      else [c])"

definition repr_str :: "string \<Rightarrow> string" where
  "repr_str s =
     (let q = (if CHR 0x27 \<in> set s \<and> CHR 0x22 \<notin> set s then CHR 0x22 else CHR 0x27)
      in q # concat (map (repr_char q) s) @ [q])"

definition repr_list :: "string list \<Rightarrow> string" where
  "repr_list reprs = ''['' @ join_str '', '' reprs @ '']''"

definition repr_strs :: "string list \<Rightarrow> string" where
  "repr_strs ss = repr_list (map repr_str ss)"


section \<open>Counters and sorting\<close>

text \<open>\<open>Counter(xs)\<close>: the counts in order of first occurrence.\<close>

fun counter_add :: "'a \<Rightarrow> ('a \<times> nat) list \<Rightarrow> ('a \<times> nat) list" where
  "counter_add x [] = [(x, 1)]"
| "counter_add x ((y, n) # cs) = (if x = y then (y, Suc n) # cs else (y, n) # counter_add x cs)"

definition counter :: "'a list \<Rightarrow> ('a \<times> nat) list" where
  "counter xs = fold counter_add xs []"

definition counter_get :: "('a \<times> nat) list \<Rightarrow> 'a \<Rightarrow> nat" where
  "counter_get c x = (case map_of c x of None \<Rightarrow> 0 | Some n \<Rightarrow> n)"

text \<open>\<open>==\<close> on counters: a missing element counts as zero.\<close>

definition counter_eq :: "('a \<times> nat) list \<Rightarrow> ('a \<times> nat) list \<Rightarrow> bool" where
  "counter_eq c d \<longleftrightarrow>
     list_all (\<lambda>e. counter_get c e = counter_get d e) (map fst c @ map fst d)"

lemma counter_get_add:
  "counter_get (counter_add x c) y = (if x = y then Suc (counter_get c y) else counter_get c y)"
  by (induction x c rule: counter_add.induct) (auto simp: counter_get_def)

lemma counter_get_fold:
  "counter_get (fold counter_add xs c) y = counter_get c y + count_list xs y"
  by (induction xs arbitrary: c) (auto simp: counter_get_add)

lemma counter_get_counter [simp]: "counter_get (counter xs) y = count_list xs y"
  by (simp add: counter_def counter_get_fold) (simp add: counter_get_def)

lemma keys_counter_add: "set (map fst (counter_add x c)) = insert x (set (map fst c))"
  by (induction x c rule: counter_add.induct) auto

lemma distinct_counter_add: "distinct (map fst c) \<Longrightarrow> distinct (map fst (counter_add x c))"
proof (induction x c rule: counter_add.induct)
  case (2 x y n cs)
  have keys: "set (map fst (counter_add x cs)) = insert x (set (map fst cs))"
    by (rule keys_counter_add)
  show ?case
  proof (cases "x = y")
    case False
    with "2" have "distinct (map fst (counter_add x cs))" by simp
    with False keys "2.prems" show ?thesis by auto
  qed (use "2.prems" in simp)
qed simp

lemma keys_fold_counter:
  "set (map fst (fold counter_add xs c)) = set xs \<union> set (map fst c)"
  by (induction xs arbitrary: c) (auto simp del: set_map simp: keys_counter_add)

lemma set_counter [simp]: "fst ` set (counter xs) = set xs"
  using keys_fold_counter [of xs "[]"] by (simp add: counter_def)

lemma distinct_fold_counter:
  "distinct (map fst c) \<Longrightarrow> distinct (map fst (fold counter_add xs c))"
  by (induction xs arbitrary: c) (auto simp: distinct_counter_add)

lemma distinct_counter [simp]: "distinct (map fst (counter xs))"
  by (simp add: counter_def distinct_fold_counter)

lemma counter_eq_iff: "counter_eq (counter xs) (counter ys) \<longleftrightarrow> mset xs = mset ys"
proof
  assume eq: "counter_eq (counter xs) (counter ys)"
  have "count_list xs e = count_list ys e" for e
  proof (cases "e \<in> set xs \<union> set ys")
    case True
    with eq show ?thesis by (auto simp: counter_eq_def list_all_iff)
  next
    case False
    then show ?thesis by simp
  qed
  then show "mset xs = mset ys" by (simp add: multiset_eq_iff count_mset)
next
  assume "mset xs = mset ys"
  then have "count_list xs e = count_list ys e" for e
    by (metis count_mset)
  then show "counter_eq (counter xs) (counter ys)" by (simp add: counter_eq_def list_all_iff)
qed

lemma counter_mem: "(x, n) \<in> set (counter xs) \<Longrightarrow> n = count_list xs x"
  by (metis counter_get_counter counter_get_def distinct_counter map_of_is_SomeI option.simps(5))

lemma counter_memI: "x \<in> set xs \<Longrightarrow> (x, count_list xs x) \<in> set (counter xs)"
proof -
  assume "x \<in> set xs"
  then have "x \<in> fst ` set (counter xs)" by simp
  then obtain n where "(x, n) \<in> set (counter xs)" by force
  with counter_mem [OF this] show ?thesis by simp
qed

lemma distinct_iff_count_list: "distinct xs \<longleftrightarrow> (\<forall>x \<in> set xs. count_list xs x \<le> 1)"
proof (induction xs)
  case Nil
  show ?case by simp
next
  case (Cons a xs)
  have "(\<forall>x \<in> set (a # xs). count_list (a # xs) x \<le> 1) \<longleftrightarrow>
        count_list xs a = 0 \<and> (\<forall>x \<in> set xs. count_list xs x \<le> 1)"
    by (auto simp: count_list_0_iff)
  then show ?case using Cons.IH by (simp add: count_list_0_iff)
qed

lemma counter_no_dups: "(\<forall>(x, n) \<in> set (counter xs). n \<le> 1) \<longleftrightarrow> distinct xs"
proof
  assume le: "\<forall>(x, n) \<in> set (counter xs). n \<le> 1"
  have "count_list xs x \<le> 1" if "x \<in> set xs" for x
    using counter_memI [OF that] le by auto
  then show "distinct xs" by (simp add: distinct_iff_count_list)
next
  assume "distinct xs"
  then have one: "count_list xs x \<le> 1" for x
    by (cases "x \<in> set xs") (auto simp: distinct_iff_count_list)
  show "\<forall>(x, n) \<in> set (counter xs). n \<le> 1"
    using one by (auto dest!: counter_mem)
qed

text \<open>Sorting by a key that distinguishes the elements forgets the order of the input.\<close>

lemma sort_key_mset_cong:
  assumes "mset xs = mset ys" and "inj_on f (set xs)"
  shows "sort_key f xs = sort_key f ys"
  using assms by (metis sort_key_inj_key_eq mset_sort sorted_sort_key)


lemma map_insort_key: "map f (insort_key f x xs) = insort (f x) (map f xs)"
  by (induction xs) auto

lemma map_sort_key: "map f (sort_key f xs) = sort (map f xs)"
  by (induction xs) (auto simp: map_insort_key)

section \<open>JSON-shaped values\<close>

text \<open>
  The values that travel between the program and its services (custom fields, payloads).
  A dict is an association list in insertion order.
\<close>

datatype pyval =
    PyNone
  | PyBool bool
  | PyInt int
  | PyStr string
  | PyList "pyval list"
  | PyDict "(string \<times> pyval) list"

type_synonym pydict = "(string \<times> pyval) list"

text \<open>\<open>d.get(k)\<close>, which is \<open>None\<close> for an absent key\<close>

definition dict_get :: "pydict \<Rightarrow> string \<Rightarrow> pyval" where
  "dict_get d k = (case map_of d k of None \<Rightarrow> PyNone | Some v \<Rightarrow> v)"

text \<open>\<open>==\<close> on such values: \<open>True == 1\<close>, and dicts compare without their order.\<close>

definition py_num :: "pyval \<Rightarrow> int option" where
  "py_num v = (case v of PyBool b \<Rightarrow> Some (if b then 1 else 0) | PyInt i \<Rightarrow> Some i | _ \<Rightarrow> None)"

fun py_eq :: "pyval \<Rightarrow> pyval \<Rightarrow> bool"
  and py_eq_list :: "pyval list \<Rightarrow> pyval list \<Rightarrow> bool"
  and py_sub_dict :: "pydict \<Rightarrow> pydict \<Rightarrow> bool"
where
  "py_eq (PyStr s) w = (w = PyStr s)"
| "py_eq PyNone w = (w = PyNone)"
| "py_eq (PyBool b) w = (py_num w = Some (if b then 1 else 0))"
| "py_eq (PyInt i) w = (py_num w = Some i)"
| "py_eq (PyList xs) w = (case w of PyList ys \<Rightarrow> py_eq_list xs ys | _ \<Rightarrow> False)"
| "py_eq (PyDict d) w = (case w of PyDict e \<Rightarrow> length d = length e \<and> py_sub_dict d e | _ \<Rightarrow> False)"
| "py_eq_list [] ys = (ys = [])"
| "py_eq_list (x # xs) ys = (case ys of [] \<Rightarrow> False | y # ys' \<Rightarrow> py_eq x y \<and> py_eq_list xs ys')"
| "py_sub_dict [] e = True"
| "py_sub_dict ((k, v) # d) e =
     ((case map_of e k of None \<Rightarrow> False | Some w \<Rightarrow> py_eq v w) \<and> py_sub_dict d e)"

text \<open>The keys of a dict are distinct, at every depth.\<close>

fun dict_ok :: "pyval \<Rightarrow> bool"
  and dict_ok_list :: "pyval list \<Rightarrow> bool"
  and dict_ok_items :: "pydict \<Rightarrow> bool"
where
  "dict_ok (PyList xs) = dict_ok_list xs"
| "dict_ok (PyDict d) = (distinct (map fst d) \<and> dict_ok_items d)"
| "dict_ok _ = True"
| "dict_ok_list [] = True"
| "dict_ok_list (x # xs) = (dict_ok x \<and> dict_ok_list xs)"
| "dict_ok_items [] = True"
| "dict_ok_items ((k, v) # d) = (dict_ok v \<and> dict_ok_items d)"

lemma py_eq_refl_all:
  "dict_ok v \<Longrightarrow> py_eq v v"
  "dict_ok_list xs \<Longrightarrow> py_eq_list xs xs"
  "dict_ok_items d \<Longrightarrow> (\<And>k w. (k, w) \<in> set d \<Longrightarrow> map_of e k = Some w) \<Longrightarrow> py_sub_dict d e"
proof (induction v and xs and d arbitrary: and and e
    rule: dict_ok_dict_ok_list_dict_ok_items.induct)
  case (2 d)
  then show ?case by (simp add: map_of_is_SomeI)
next
  case (7 k v d)
  have m: "map_of e k = Some v" using 7(4) by simp
  have "py_sub_dict d e" using 7(2) [of e] 7(3,4) by simp
  then show ?case using 7(1,3) m by simp
qed (simp_all add: py_num_def)

lemma py_eq_refl: "dict_ok v \<Longrightarrow> py_eq v v"
  by (rule py_eq_refl_all)

lemma dict_ok_strs [simp]: "dict_ok_list (map PyStr ss)"
  by (induction ss) auto

end
