(* ===== verification/Errors.thy ===== *)
theory Errors
  imports Prelude
begin

text \<open>
  The exceptions of the program (src/host_config/errors.py, models/errors.py,
  netbox/errors.py and fixtures/netbox/errors.py) together with the built-in and
  third-party exceptions that reach its own code. \<open>exn_mro\<close> is the class hierarchy: the
  class of an exception followed by its base classes, which is what \<open>except\<close> clauses and
  the service's exception handlers consult.
\<close>

text \<open>What a \<open>NetboxQueryError\<close> wraps: an error built by the loader, or one a client raised.\<close>

datatype cause =
    CauseValueError string
  | CauseExternal string

definition cause_str :: "cause \<Rightarrow> string" where
  "cause_str c = (case c of CauseValueError m \<Rightarrow> m | CauseExternal m \<Rightarrow> m)"

datatype exn =
    InvariantError string string
  | HostNotFoundError string
  | NetboxQueryError string cause "string option"
  | SchemaError string string pydict
  | FixtureLoadError string string
  | FixtureConflictError string string string
  | ValidationError "string list"
  | ValueError string
  | AddressValueError string
  | NetmaskValueError string
  | TypeError string
  | KeyError string
  | StopIteration
  | ExternalError string

definition exn_class :: "exn \<Rightarrow> string" where
  "exn_class e = (case e of
      InvariantError _ _ \<Rightarrow> ''InvariantError''
    | HostNotFoundError _ \<Rightarrow> ''HostNotFoundError''
    | NetboxQueryError _ _ _ \<Rightarrow> ''NetboxQueryError''
    | SchemaError _ _ _ \<Rightarrow> ''SchemaError''
    | FixtureLoadError _ _ \<Rightarrow> ''FixtureLoadError''
    | FixtureConflictError _ _ _ \<Rightarrow> ''FixtureConflictError''
    | ValidationError _ \<Rightarrow> ''ValidationError''
    | ValueError _ \<Rightarrow> ''ValueError''
    | AddressValueError _ \<Rightarrow> ''AddressValueError''
    | NetmaskValueError _ \<Rightarrow> ''NetmaskValueError''
    | TypeError _ \<Rightarrow> ''TypeError''
    | KeyError _ \<Rightarrow> ''KeyError''
    | StopIteration \<Rightarrow> ''StopIteration''
    | ExternalError _ \<Rightarrow> ''Exception'')"

definition exn_bases :: "exn \<Rightarrow> string list" where
  "exn_bases e = (case e of
      InvariantError _ _ \<Rightarrow> [''ModelError'', ''HostConfigError'', ''Exception'']
    | HostNotFoundError _ \<Rightarrow> [''NetboxError'', ''HostConfigError'', ''Exception'']
    | NetboxQueryError _ _ _ \<Rightarrow> [''NetboxError'', ''HostConfigError'', ''Exception'']
    | SchemaError _ _ _ \<Rightarrow> [''NetboxError'', ''HostConfigError'', ''Exception'']
    | FixtureLoadError _ _ \<Rightarrow> [''FixtureError'', ''HostConfigError'', ''Exception'']
    | FixtureConflictError _ _ _ \<Rightarrow> [''FixtureError'', ''HostConfigError'', ''Exception'']
    | ValidationError _ \<Rightarrow> [''ValueError'', ''Exception'']
    | ValueError _ \<Rightarrow> [''Exception'']
    | AddressValueError _ \<Rightarrow> [''ValueError'', ''Exception'']
    | NetmaskValueError _ \<Rightarrow> [''ValueError'', ''Exception'']
    | TypeError _ \<Rightarrow> [''Exception'']
    | KeyError _ \<Rightarrow> [''LookupError'', ''Exception'']
    | StopIteration \<Rightarrow> [''Exception'']
    | ExternalError _ \<Rightarrow> [])"

definition exn_mro :: "exn \<Rightarrow> string list" where
  "exn_mro e = exn_class e # exn_bases e"

definition is_a :: "exn \<Rightarrow> string \<Rightarrow> bool" where
  "is_a e cls \<longleftrightarrow> cls \<in> set (exn_mro e)"

text \<open>\<open>HostConfigError\<close>: the root of everything the program raises on purpose.\<close>

definition is_host_config_error :: "exn \<Rightarrow> bool" where
  "is_host_config_error e \<longleftrightarrow> is_a e ''HostConfigError''"

text \<open>\<open>str(e)\<close> of the program's own errors, as their constructors pass it to \<open>super\<close>.\<close>

definition netbox_query_message :: "string \<Rightarrow> cause \<Rightarrow> string option \<Rightarrow> string" where
  "netbox_query_message operation c asset_tag =
     (let asset_part = (case asset_tag of
             None \<Rightarrow> ''''
           | Some t \<Rightarrow> if t = '''' then '''' else '' asset_tag='' @ repr_str t)
      in ''Netbox query failed during operation='' @ repr_str operation @ asset_part
         @ '': '' @ cause_str c)"

definition fixture_load_message :: "string \<Rightarrow> string \<Rightarrow> string" where
  "fixture_load_message path detail = ''failed to load fixture '' @ repr_str path @ '': '' @ detail"

definition fixture_conflict_message :: "string \<Rightarrow> string \<Rightarrow> string \<Rightarrow> string" where
  "fixture_conflict_message kind identifier detail =
     kind @ '' '' @ repr_str identifier @ '' already exists in Netbox with a conflicting shape: '' @ detail"

definition host_config_message :: "exn \<Rightarrow> string option" where
  "host_config_message e = (case e of
      InvariantError invariant detail \<Rightarrow> Some (''['' @ invariant @ ''] '' @ detail)
    | HostNotFoundError asset_tag \<Rightarrow>
        Some (''no Netbox device found with asset_tag='' @ repr_str asset_tag)
    | NetboxQueryError operation c asset_tag \<Rightarrow>
        Some (netbox_query_message operation c asset_tag)
    | SchemaError field_name detail _ \<Rightarrow>
        Some (''custom field '' @ repr_str field_name @ '' drift cannot be auto-fixed: '' @ detail)
    | FixtureLoadError path detail \<Rightarrow> Some (fixture_load_message path detail)
    | FixtureConflictError kind identifier detail \<Rightarrow> Some (fixture_conflict_message kind identifier detail)
    | _ \<Rightarrow> None)"

lemmas exn_class_defs = is_a_def exn_mro_def exn_class_def exn_bases_def

lemma host_config_message_iff:
  "is_host_config_error e \<longleftrightarrow> (\<exists>m. host_config_message e = Some m)"
  by (cases e)
     (simp_all add: is_host_config_error_def exn_class_defs host_config_message_def)

end
