(* ===== verification/Ipv4.thy ===== *)
theory Ipv4
  imports Errors "HOL-Library.Word"
begin

unbundle bit_operations_syntax

text \<open>
  The part of Python's \<open>ipaddress\<close> the program uses: parsing an \<open>IPv4Interface\<close> (the
  address, then an optional prefix length, netmask or hostmask), its text, its network, and
  the range of host addresses \<open>network.hosts()\<close> enumerates. Addresses are 32-bit words;
  an interface keeps its own address and its prefix length.
\<close>

record ipv4_interface =
  if_ip :: "32 word"
  if_plen :: nat


section \<open>Parsing and printing\<close>

text \<open>One octet: one to three ASCII digits, no leading zero, at most 255.\<close>

definition parse_octet :: "string \<Rightarrow> nat option" where
  "parse_octet s =
     (if \<not> py_isdigit s \<or> 3 < length s then None
      else if s \<noteq> ''0'' \<and> hd s = CHR ''0'' then None
      else if 255 < nat_of_digits s then None
      else Some (nat_of_digits s))"

fun octets_value :: "string list \<Rightarrow> nat option" where
  "octets_value [] = Some 0"
| "octets_value (w # ws) =
     (case parse_octet w of None \<Rightarrow> None
      | Some b \<Rightarrow> map_option (\<lambda>n. b * 256 ^ length ws + n) (octets_value ws))"

definition ip_int_of_string :: "string \<Rightarrow> nat option" where
  "ip_int_of_string s =
     (let octets = split_char CHR ''.'' s
      in if length octets \<noteq> 4 then None else octets_value octets)"

text \<open>\<open>_prefix_from_ip_int\<close>: a dotted mask must be ones followed by zeros.\<close>

fun trailing_zeros :: "nat \<Rightarrow> nat" where
  "trailing_zeros n = (if n = 0 \<or> odd n then 0 else Suc (trailing_zeros (n div 2)))"

declare trailing_zeros.simps [simp del]

definition prefix_of_mask_int :: "nat \<Rightarrow> nat option" where
  "prefix_of_mask_int n =
     (let tz = (if n = 0 then 32 else min 32 (trailing_zeros n)); plen = 32 - tz
      in if n div 2 ^ tz = 2 ^ plen - 1 then Some plen else None)"

definition parse_prefix :: "string \<Rightarrow> exn + nat" where
  "parse_prefix s =
     (if py_isdigit s \<and> nat_of_digits s \<le> 32 then Inr (nat_of_digits s)
      else (case ip_int_of_string s of
          None \<Rightarrow> Inl (NetmaskValueError s)
        | Some n \<Rightarrow>
            (case prefix_of_mask_int n of
               Some p \<Rightarrow> Inr p
             | None \<Rightarrow>
                 (case prefix_of_mask_int (2 ^ 32 - 1 - n) of
                    Some p \<Rightarrow> Inr p
                  | None \<Rightarrow> Inl (NetmaskValueError s)))))"

definition parse_ipv4 :: "string \<Rightarrow> exn + 32 word" where
  "parse_ipv4 s = (case ip_int_of_string s of
      None \<Rightarrow> Inl (AddressValueError s)
    | Some n \<Rightarrow> Inr (word_of_nat n))"

text \<open>\<open>IPv4Interface(text)\<close>: without a slash the prefix length is 32.\<close>

definition parse_interface :: "string \<Rightarrow> exn + ipv4_interface" where
  "parse_interface s = (case split_char CHR ''/'' s of
      [a] \<Rightarrow> rbind (parse_ipv4 a) (\<lambda>w. Inr \<lparr>if_ip = w, if_plen = 32\<rparr>)
    | [a, m] \<Rightarrow> rbind (parse_ipv4 a) (\<lambda>w.
                rbind (parse_prefix m) (\<lambda>p. Inr \<lparr>if_ip = w, if_plen = p\<rparr>))
    | _ \<Rightarrow> Inl (AddressValueError s))"

definition octet :: "nat \<Rightarrow> nat \<Rightarrow> nat" where
  "octet n i = n div 256 ^ i mod 256"

definition ipv4_str :: "32 word \<Rightarrow> string" where
  "ipv4_str w =
     join_str ''.'' (map (\<lambda>i. str_nat (octet (unat w) i)) [3, 2, 1, 0])"

definition interface_str :: "ipv4_interface \<Rightarrow> string" where
  "interface_str a = ipv4_str (if_ip a) @ ''/'' @ str_nat (if_plen a)"

lemma parse_octet_str_nat [simp]: "b < 256 \<Longrightarrow> parse_octet (str_nat b) = Some b"
  using str_nat_hd [of b] str_nat_length [of b]
  by (auto simp: parse_octet_def str_nat_zero_iff)

lemma octet_less [simp]: "octet n i < 256"
  by (simp add: octet_def)

lemma octets_sum:
  assumes "n < 2 ^ 32"
  shows "octet n 3 * 16777216 + (octet n 2 * 65536 + (octet n 1 * 256 + octet n 0)) = n"
proof -
  have a: "n = 256 * (n div 256) + n mod 256" for n :: nat by simp
  have "n div 16777216 < 256" using assms by simp
  then have "octet n 3 = n div 256 div 256 div 256" by (simp add: octet_def div_mult2_eq [symmetric])
  moreover have "octet n 2 = n div 256 div 256 mod 256" by (simp add: octet_def div_mult2_eq [symmetric])
  moreover have "octet n 1 = n div 256 mod 256" and "octet n 0 = n mod 256" by (simp_all add: octet_def)
  ultimately show ?thesis
    using a [of n] a [of "n div 256"] a [of "n div 256 div 256"] by linarith
qed

lemma not_digit_dot [simp]: "\<not> is_digit CHR ''.''" and not_digit_slash [simp]: "\<not> is_digit CHR ''/''"
  by (simp_all add: is_digit_def)

lemma ip_int_of_ipv4_str [simp]: "ip_int_of_string (ipv4_str w) = Some (unat w)"
proof -
  let ?ws = "map (\<lambda>i. str_nat (octet (unat w) i)) [3, 2, 1, 0]"
  have "split_char CHR ''.'' (join_str [CHR ''.''] ?ws) = ?ws"
    by (rule split_join) (auto simp: str_nat_no_char)
  then have "ip_int_of_string (ipv4_str w) = octets_value ?ws"
    by (simp add: ip_int_of_string_def ipv4_str_def)
  also have "\<dots> = Some (octet (unat w) 3 * 16777216
       + (octet (unat w) 2 * 65536 + (octet (unat w) 1 * 256 + octet (unat w) 0)))"
    by (simp add: numeral_3_eq_3 numeral_2_eq_2)
  also have "\<dots> = Some (unat w)"
    using octets_sum [of "unat w"] unsigned_less [of w] by simp
  finally show ?thesis .
qed

lemma parse_ipv4_str [simp]: "parse_ipv4 (ipv4_str w) = Inr w"
  by (simp add: parse_ipv4_def)

lemma ipv4_str_inj [simp]: "ipv4_str v = ipv4_str w \<longleftrightarrow> v = w"
  by (metis parse_ipv4_str sum.inject(2))

lemma ipv4_str_no_slash: "CHR ''/'' \<notin> set (ipv4_str w)"
  by (simp add: ipv4_str_def str_nat_no_char)

lemma parse_prefix_str_nat [simp]: "p \<le> 32 \<Longrightarrow> parse_prefix (str_nat p) = Inr p"
  by (simp add: parse_prefix_def)

lemma parse_interface_str:
  assumes "if_plen a \<le> 32"
  shows "parse_interface (interface_str a) = Inr a"
proof -
  have "split_char CHR ''/'' (interface_str a) = [ipv4_str (if_ip a), str_nat (if_plen a)]"
    using ipv4_str_no_slash [of "if_ip a"]
    by (simp add: interface_str_def split_char_append split_char_no_sep str_nat_no_char)
  then show ?thesis using assms by (simp add: parse_interface_def)
qed

lemma parse_interface_no_prefix: "parse_interface (ipv4_str w) = Inr \<lparr>if_ip = w, if_plen = 32\<rparr>"
  by (simp add: parse_interface_def split_char_no_sep ipv4_str_no_slash)

lemma prefix_of_mask_int_le: "prefix_of_mask_int n = Some p \<Longrightarrow> p \<le> 32"
  by (auto simp: prefix_of_mask_int_def Let_def split: if_splits)

lemma parse_prefix_le: "parse_prefix s = Inr p \<Longrightarrow> p \<le> 32"
  by (auto simp: parse_prefix_def prefix_of_mask_int_le split: if_splits option.splits)

lemma parse_interface_plen: "parse_interface s = Inr a \<Longrightarrow> if_plen a \<le> 32"
  by (auto simp: parse_interface_def rbind_eq_Inr parse_prefix_le split: list.splits)


section \<open>Networks and hosts\<close>

text \<open>\<open>_ip_int_from_prefix\<close>: all ones, with the ones of the host part cleared.\<close>

definition netmask :: "nat \<Rightarrow> 32 word" where
  "netmask p = (-1) XOR drop_bit p (-1)"

definition network_address :: "ipv4_interface \<Rightarrow> 32 word" where
  "network_address a = if_ip a AND netmask (if_plen a)"

definition broadcast_address :: "ipv4_interface \<Rightarrow> 32 word" where
  "broadcast_address a = network_address a OR (netmask (if_plen a) XOR (-1))"

text \<open>
  \<open>network.hosts()\<close> as the half-open range of integers it yields: the one address of a
  /32, both addresses of a /31, and otherwise all but the network and broadcast addresses.
\<close>

definition hosts_range :: "ipv4_interface \<Rightarrow> nat \<times> nat" where
  "hosts_range a =
     (let net = unat (network_address a); bc = unat (broadcast_address a)
      in if if_plen a = 32 then (net, net + 1)
         else if if_plen a = 31 then (net, bc + 1)
         else (net + 1, bc))"

definition in_network :: "ipv4_interface \<Rightarrow> 32 word \<Rightarrow> bool" where
  "in_network a w \<longleftrightarrow> network_address a \<le> w \<and> w \<le> broadcast_address a"

definition block_size :: "ipv4_interface \<Rightarrow> nat" where
  "block_size a = 2 ^ (32 - if_plen a)"

lemma unat_less32: "unat (w :: 32 word) < 4294967296"
  using unsigned_less [of w, where ?'a = nat] by simp

lemma unat_mask:
  assumes "k \<le> 32"
  shows "unat (mask k :: 32 word) = 2 ^ k - 1"
proof -
  have "unat (mask k :: 32 word) = unat (of_nat (mask k) :: 32 word)"
    by (simp only: of_nat_mask_eq)
  also have "\<dots> = take_bit 32 (mask k)" by (simp only: unsigned_of_nat) simp
  also have "\<dots> = mask k" using assms by (simp add: take_bit_of_mask min_def)
  finally show ?thesis by (simp add: mask_eq_exp_minus_1)
qed

lemma netmask_eq: "p \<le> 32 \<Longrightarrow> netmask p = NOT (mask (32 - p))"
  unfolding netmask_def
  by (rule bit_word_eqI) (auto simp: bit_simps)

lemma unat_and_not_mask: "unat (w AND NOT (mask k) :: 32 word) = unat w div 2 ^ k * 2 ^ k"
proof -
  have "w AND NOT (mask k) = push_bit k (drop_bit k w)"
    by (rule bit_word_eqI) (auto simp: bit_simps)
  then have "unat (w AND NOT (mask k)) = take_bit 32 (push_bit k (drop_bit k (unat w)))"
    using unat_less32 [of w]
    by (simp add: unsigned_push_bit_eq unsigned_drop_bit_eq take_bit_nat_eq_self)
  also have "\<dots> = take_bit 32 (unat w div 2 ^ k * 2 ^ k)"
    by (simp add: push_bit_eq_mult drop_bit_eq_div)
  also have "\<dots> = unat w div 2 ^ k * 2 ^ k"
  proof (rule take_bit_nat_eq_self)
    have "unat w div 2 ^ k * 2 ^ k \<le> unat w" by (rule div_times_less_eq_dividend)
    also have "unat w < 2 ^ 32" using unat_less32 [of w] by simp
    finally show "unat w div 2 ^ k * 2 ^ k < 2 ^ 32" .
  qed
  finally show ?thesis .
qed

lemma unat_network: "if_plen a \<le> 32 \<Longrightarrow>
   unat (network_address a) = unat (if_ip a) div block_size a * block_size a"
  by (simp add: network_address_def netmask_eq unat_and_not_mask block_size_def)

lemma unat_broadcast:
  assumes "if_plen a \<le> 32"
  shows "unat (broadcast_address a) = unat (network_address a) + (block_size a - 1)"
proof -
  let ?k = "32 - if_plen a" and ?w = "if_ip a"
  have hm: "netmask (if_plen a) XOR (-1) = mask ?k"
    using assms by (simp add: netmask_eq)
  have "(?w AND NOT (mask ?k)) AND mask ?k = 0"
    by (rule bit_word_eqI) (auto simp: bit_simps)
  then have "(?w AND NOT (mask ?k)) OR mask ?k = (?w AND NOT (mask ?k)) + mask ?k"
    by (simp add: disjunctive_add_eq_or)
  then have "broadcast_address a = (?w AND NOT (mask ?k)) + mask ?k"
    unfolding broadcast_address_def hm by (simp add: network_address_def netmask_eq [OF assms])
  moreover have "unat (?w AND NOT (mask ?k)) + unat (mask ?k :: 32 word) < 2 ^ 32"
  proof -
    have "unat (?w AND NOT (mask ?k)) + unat (mask ?k :: 32 word)
          = unat ?w div 2 ^ ?k * 2 ^ ?k + (2 ^ ?k - 1)"
      by (simp only: unat_and_not_mask unat_mask [OF diff_le_self])
    also have "\<dots> < (unat ?w div 2 ^ ?k + 1) * 2 ^ ?k"
    proof -
      have "(0::nat) < 2 ^ ?k" by simp
      then show ?thesis by (simp only: add_mult_distrib)
    qed
    also have "\<dots> \<le> 2 ^ if_plen a * 2 ^ ?k"
    proof (rule mult_le_mono1)
      have "unat ?w < 2 ^ if_plen a * 2 ^ ?k"
        using unat_less32 [of ?w] assms by (simp add: power_add [symmetric])
      then show "unat ?w div 2 ^ ?k + 1 \<le> 2 ^ if_plen a"
        by (simp add: less_mult_imp_div_less Suc_leI)
    qed
    also have "\<dots> = 2 ^ 32" using assms by (simp add: power_add [symmetric])
    finally show ?thesis .
  qed
  ultimately show ?thesis
    using assms
    by (simp add: unat_word_ariths network_address_def netmask_eq unat_mask block_size_def)
qed

lemma block_size_pos [simp]: "0 < block_size a"
  by (simp add: block_size_def)

lemma block_size_ge4: "if_plen a < 31 \<Longrightarrow> 4 \<le> block_size a"
proof -
  assume "if_plen a < 31"
  then have "(2::nat) ^ 2 \<le> 2 ^ (32 - if_plen a)" by (intro power_increasing) auto
  then show ?thesis by (simp add: block_size_def)
qed

lemma in_network_self: "if_plen a \<le> 32 \<Longrightarrow> in_network a (if_ip a)"
proof -
  assume p: "if_plen a \<le> 32"
  have "unat (if_ip a) = unat (if_ip a) div block_size a * block_size a
          + unat (if_ip a) mod block_size a" by simp
  moreover have "unat (if_ip a) mod block_size a \<le> block_size a - 1"
    by (metis block_size_pos Suc_pred less_Suc_eq_le mod_less_divisor diff_Suc_1)
  ultimately have "unat (if_ip a)
      \<le> unat (if_ip a) div block_size a * block_size a + (block_size a - 1)" by linarith
  then show ?thesis
    using p by (simp add: in_network_def word_le_nat_alt unat_broadcast unat_network)
qed

lemma in_network_iff:
  assumes "if_plen a \<le> 32"
  shows "in_network a w \<longleftrightarrow> unat w div block_size a = unat (if_ip a) div block_size a"
proof -
  let ?b = "block_size a" and ?q = "unat (if_ip a) div block_size a"
  have pos: "0 < ?b" by simp
  have "in_network a w \<longleftrightarrow> ?q * ?b \<le> unat w \<and> unat w \<le> ?q * ?b + (?b - 1)"
    using assms by (simp add: in_network_def word_le_nat_alt unat_broadcast unat_network)
  also have "\<dots> \<longleftrightarrow> ?q * ?b \<le> unat w \<and> unat w < Suc ?q * ?b"
  proof -
    have "?q * ?b + (?b - 1) < Suc ?q * ?b" using pos by simp
    moreover have "Suc ?q * ?b \<le> Suc (?q * ?b + (?b - 1))" using pos by simp
    ultimately show ?thesis by linarith
  qed
  also have "\<dots> \<longleftrightarrow> unat w div ?b = ?q"
    using pos by (metis div_nat_eqI div_less_iff_less_mult div_times_less_eq_dividend
        lessI mult.commute)
  finally show ?thesis .
qed

text \<open>All addresses of a network agree on what the network is.\<close>

lemma network_address_cong:
  assumes "if_plen a \<le> 32" and "if_plen b = if_plen a" and "in_network a (if_ip b)"
  shows "network_address b = network_address a" and "broadcast_address b = broadcast_address a"
proof -
  have bs: "block_size b = block_size a" using assms(2) by (simp add: block_size_def)
  have "unat (network_address b) = unat (network_address a)"
    using assms by (simp add: unat_network in_network_iff bs)
  then show net: "network_address b = network_address a" by (simp only: word_unat_eq_iff)
  show "broadcast_address b = broadcast_address a"
    by (simp add: broadcast_address_def net assms(2))
qed

lemma hosts_range_nonempty: "if_plen a \<le> 32 \<Longrightarrow> fst (hosts_range a) < snd (hosts_range a)"
  using block_size_ge4 [of a] by (auto simp: hosts_range_def Let_def unat_broadcast)

lemma hosts_range_bounds:
  assumes "if_plen a \<le> 32" and "fst (hosts_range a) \<le> n" and "n < snd (hosts_range a)"
  shows "unat (network_address a) \<le> n \<and> n \<le> unat (broadcast_address a)"
  using assms by (auto simp: hosts_range_def Let_def unat_broadcast split: if_splits)

lemma hosts_in_network:
  assumes "if_plen a \<le> 32" and "fst (hosts_range a) \<le> n" and "n < snd (hosts_range a)"
  shows "in_network a (word_of_nat n)"
proof -
  have b: "unat (network_address a) \<le> n" "n \<le> unat (broadcast_address a)"
    using hosts_range_bounds [OF assms] by auto
  with unat_less32 [of "broadcast_address a"] have "n < 2 ^ 32" by simp
  then have "unat (word_of_nat n :: 32 word) = n"
    by (simp add: unsigned_of_nat take_bit_nat_eq_self)
  with b show ?thesis by (simp add: in_network_def word_le_nat_alt)
qed

end
