(* ===== verification/Models.thy ===== *)
theory Models
  imports Ipv4
begin

text \<open>
  The interface and VLAN models (src/host_config/models/types.py, interface.py, vlan.py and
  the \<open>Role\<close> enum of intent.py). A Pydantic class is a record, class inheritance is record
  extension, and constructing an instance is a function that checks every declared field
  constraint and reports the fields that fail, in declaration order, as a
  \<open>ValidationError\<close>. Arguments already have the field's type, which is how the loader
  calls the constructors; only the MAC keeps its \<open>BeforeValidator\<close>, which sees any value.
\<close>


section \<open>MAC addresses and bounds (types.py)\<close>

definition MIN_MTU :: int where "MIN_MTU = 1500"
definition MAX_MTU :: int where "MAX_MTU = 9216"
definition MIN_VLAN_ID :: int where "MIN_VLAN_ID = 1"
definition MAX_VLAN_ID :: int where "MAX_VLAN_ID = 4094"

text \<open>\<open>^([0-9a-f]{2}:){5}[0-9a-f]{2}$\<close>; \<open>$\<close> also matches before a final newline.\<close>

fun mac_match :: "nat \<Rightarrow> string \<Rightarrow> bool" where
  "mac_match 0 s = (case s of
      [a, b] \<Rightarrow> is_hex_lower a \<and> is_hex_lower b
    | [a, b, c] \<Rightarrow> is_hex_lower a \<and> is_hex_lower b \<and> c = CHR 0x0A
    | _ \<Rightarrow> False)"
| "mac_match (Suc n) s = (case s of
      a # b # c # r \<Rightarrow> is_hex_lower a \<and> is_hex_lower b \<and> c = CHR '':'' \<and> mac_match n r
    | _ \<Rightarrow> False)"

definition mac_re :: "string \<Rightarrow> bool" where
  "mac_re s = mac_match 5 s"

definition type_name :: "pyval \<Rightarrow> string" where
  "type_name v = (case v of
      PyNone \<Rightarrow> ''NoneType'' | PyBool _ \<Rightarrow> ''bool'' | PyInt _ \<Rightarrow> ''int'' | PyStr _ \<Rightarrow> ''str''
    | PyList _ \<Rightarrow> ''list'' | PyDict _ \<Rightarrow> ''dict'')"

definition validate_mac :: "pyval \<Rightarrow> exn + string" where
  "validate_mac v = (case v of
      PyStr s \<Rightarrow>
        (let t = py_strip (py_lower s)
         in if mac_re t then Inr t
            else Inl (ValueError (''invalid MAC address '' @ repr_str t
                   @ ''; expected canonical form like '' @ repr_str ''aa:bb:cc:00:00:01'')))
    | _ \<Rightarrow> Inl (ValueError (''MAC address must be a string, got '' @ type_name v)))"

definition canonical_mac :: "string \<Rightarrow> bool" where
  "canonical_mac s \<longleftrightarrow> length s = 17 \<and> mac_match 5 s"

definition mac_char :: "char \<Rightarrow> bool" where
  "mac_char c \<longleftrightarrow> is_hex_lower c \<or> c = CHR '':''"

lemma mac_match_Nil [simp]: "\<not> mac_match n []"
  by (cases n) auto

lemma mac_match_length: "mac_match n s \<Longrightarrow> length s = 3 * n + 2 \<or> last s = CHR 0x0A \<and> length s = 3 * n + 3"
  by (induction n s rule: mac_match.induct) (auto split: list.splits)

lemma mac_match_chars: "mac_match n s \<Longrightarrow> length s = 3 * n + 2 \<Longrightarrow> list_all mac_char s"
  by (induction n s rule: mac_match.induct) (auto simp: mac_char_def split: list.splits)

lemma mac_char_lower: "mac_char c \<Longrightarrow> lower_char c = c"
  by (auto simp: mac_char_def is_hex_lower_def is_digit_def lower_char_def)

lemma mac_char_not_space: "mac_char c \<Longrightarrow> \<not> is_space c"
  by (auto simp: mac_char_def is_hex_lower_def is_digit_def is_space_def)

lemma canonical_mac_chars: "canonical_mac s \<Longrightarrow> list_all mac_char s"
  by (auto simp: canonical_mac_def intro: mac_match_chars)

lemma py_strip_last: "py_strip s \<noteq> [] \<Longrightarrow> \<not> is_space (last (py_strip s))"
  unfolding py_strip_def rstrip_by_def last_rev by (rule hd_dropWhile) auto

lemma validate_mac_canonical:
  assumes "validate_mac v = Inr m"
  shows "canonical_mac m"
proof -
  obtain s where m: "m = py_strip (py_lower s)" and re: "mac_match 5 m"
    using assms by (auto simp: validate_mac_def mac_re_def Let_def split: pyval.splits if_splits)
  have "m \<noteq> []" using re by (auto simp: numeral_eq_Suc)
  then have "last m \<noteq> CHR 0x0A"
    using py_strip_last [of "py_lower s"] m by (auto simp: is_space_def)
  then show ?thesis using mac_match_length [OF re] re by (simp add: canonical_mac_def)
qed

lemma validate_mac_id:
  assumes "canonical_mac m"
  shows "validate_mac (PyStr m) = Inr m"
proof -
  have chars: "list_all mac_char m" using assms by (rule canonical_mac_chars)
  then have "py_lower m = m" by (simp add: py_lower_def list_all_iff mac_char_lower map_idI)
  moreover have "py_strip m = m"
    using chars by (intro py_strip_none) (auto simp: list_all_iff mac_char_not_space)
  ultimately show ?thesis
    using assms by (simp add: validate_mac_def mac_re_def canonical_mac_def)
qed


section \<open>Field validation\<close>

definition validate_fields :: "(string \<times> bool) list \<Rightarrow> exn + unit" where
  "validate_fields fs =
     (let bad = map fst (filter (\<lambda>(f, ok). \<not> ok) fs) in if bad = [] then Inr () else Inl (ValidationError bad))"

definition len_in :: "nat \<Rightarrow> nat \<Rightarrow> 'a list \<Rightarrow> bool" where
  "len_in lo hi xs \<longleftrightarrow> lo \<le> length xs \<and> length xs \<le> hi"

definition int_in :: "int \<Rightarrow> int \<Rightarrow> int \<Rightarrow> bool" where
  "int_in lo hi n \<longleftrightarrow> lo \<le> n \<and> n \<le> hi"

definition is_ok :: "'e + 'a \<Rightarrow> bool" where
  "is_ok r = (case r of Inl _ \<Rightarrow> False | Inr _ \<Rightarrow> True)"

lemma is_ok_simps [simp]: "is_ok (Inr x)" "\<not> is_ok (Inl e)"
  by (simp_all add: is_ok_def)

lemma is_ok_iff: "is_ok r \<longleftrightarrow> (\<exists>x. r = Inr x)"
  by (cases r) auto

lemma validate_fields_Inr [simp]: "validate_fields fs = Inr () \<longleftrightarrow> (\<forall>(f, ok) \<in> set fs. ok)"
  by (auto simp: validate_fields_def Let_def filter_empty_conv)

lemma validate_fields_Inl:
  "validate_fields fs = Inl e \<Longrightarrow> \<exists>bad. e = ValidationError bad \<and> bad \<noteq> []"
  unfolding validate_fields_def Let_def by (metis Inl_Inr_False sum.inject(1))


section \<open>Interfaces (interface.py)\<close>

record phys_iface =
  nic_name :: string
  nic_mac :: string
  nic_mtu :: int

text \<open>\<open>BondMember\<close> adds no field to \<open>PhysIface\<close>.\<close>

type_synonym bond_member = phys_iface

record sriov_parent = phys_iface +
  nic_sriov_vfs :: int

record roce_underlay = sriov_parent +
  roce_address :: ipv4_interface

record infiniband_underlay = phys_iface +
  ib_address :: ipv4_interface

datatype bond_mode = Mode_802_3ad

datatype lacp_rate = LacpFast | LacpSlow

datatype transmit_hash_policy = Layer2 | Layer2_3 | Layer3_4

record bond =
  bond_name :: string
  bond_members :: "string list"
  bond_mode :: bond_mode
  bond_lacp_rate :: lacp_rate
  bond_hash_policy :: transmit_hash_policy
  bond_mtu :: int

definition phys_fields :: "string \<Rightarrow> pyval \<Rightarrow> int \<Rightarrow> (string \<times> bool) list" where
  "phys_fields name mac mtu =
     [(''name'', len_in 1 15 name), (''mac'', is_ok (validate_mac mac)),
      (''mtu'', int_in MIN_MTU MAX_MTU mtu)]"

definition mk_bond_member :: "string \<Rightarrow> pyval \<Rightarrow> int \<Rightarrow> exn + bond_member" where
  "mk_bond_member name mac mtu =
     rbind (validate_fields (phys_fields name mac mtu)) (\<lambda>_.
     rbind (validate_mac mac) (\<lambda>m.
     Inr \<lparr>nic_name = name, nic_mac = m, nic_mtu = mtu\<rparr>))"

definition mk_sriov_parent :: "string \<Rightarrow> pyval \<Rightarrow> int \<Rightarrow> int \<Rightarrow> exn + sriov_parent" where
  "mk_sriov_parent name mac mtu vfs =
     rbind (validate_fields (phys_fields name mac mtu @ [(''sriov_vfs'', int_in 0 128 vfs)])) (\<lambda>_.
     rbind (validate_mac mac) (\<lambda>m.
     Inr \<lparr>nic_name = name, nic_mac = m, nic_mtu = mtu, nic_sriov_vfs = vfs\<rparr>))"

definition mk_roce_underlay ::
  "string \<Rightarrow> pyval \<Rightarrow> int \<Rightarrow> int \<Rightarrow> ipv4_interface \<Rightarrow> exn + roce_underlay" where
  "mk_roce_underlay name mac mtu vfs address =
     rbind (validate_fields (phys_fields name mac mtu @ [(''sriov_vfs'', int_in 0 128 vfs)])) (\<lambda>_.
     rbind (validate_mac mac) (\<lambda>m.
     Inr \<lparr>nic_name = name, nic_mac = m, nic_mtu = mtu, nic_sriov_vfs = vfs,
          roce_address = address\<rparr>))"

definition mk_infiniband_underlay ::
  "string \<Rightarrow> pyval \<Rightarrow> int \<Rightarrow> ipv4_interface \<Rightarrow> exn + infiniband_underlay" where
  "mk_infiniband_underlay name mac mtu address =
     rbind (validate_fields (phys_fields name mac mtu)) (\<lambda>_.
     rbind (validate_mac mac) (\<lambda>m.
     Inr \<lparr>nic_name = name, nic_mac = m, nic_mtu = mtu, ib_address = address\<rparr>))"

text \<open>
  \<open>Bond.__init__\<close> rejects repeated members with a plain \<open>ValueError\<close> before the fields are
  validated.
\<close>

definition mk_bond ::
  "string \<Rightarrow> string list \<Rightarrow> bond_mode \<Rightarrow> lacp_rate \<Rightarrow> transmit_hash_policy \<Rightarrow> int \<Rightarrow> exn + bond" where
  "mk_bond name members mode rate policy mtu =
     (if length members \<noteq> card (set members)
      then Inl (ValueError ''Bond.members must be unique'')
      else rbind (validate_fields
             [(''name'', len_in 1 15 name), (''members'', len_in 2 8 members),
              (''mtu'', int_in MIN_MTU MAX_MTU mtu)]) (\<lambda>_.
           Inr \<lparr>bond_name = name, bond_members = members, bond_mode = mode,
                bond_lacp_rate = rate, bond_hash_policy = policy, bond_mtu = mtu\<rparr>))"

text \<open>What a validated instance is.\<close>

definition wf_phys :: "'a phys_iface_scheme \<Rightarrow> bool" where
  "wf_phys p \<longleftrightarrow> len_in 1 15 (nic_name p) \<and> canonical_mac (nic_mac p)
     \<and> int_in MIN_MTU MAX_MTU (nic_mtu p)"

definition wf_sriov :: "'a sriov_parent_scheme \<Rightarrow> bool" where
  "wf_sriov p \<longleftrightarrow> wf_phys p \<and> int_in 0 128 (nic_sriov_vfs p)"

definition wf_bond :: "bond \<Rightarrow> bool" where
  "wf_bond b \<longleftrightarrow> len_in 1 15 (bond_name b) \<and> len_in 2 8 (bond_members b)
     \<and> distinct (bond_members b) \<and> int_in MIN_MTU MAX_MTU (bond_mtu b)"

lemma mk_bond_member_Inr: "mk_bond_member name mac mtu = Inr p \<Longrightarrow>
    wf_phys p \<and> nic_name p = name \<and> validate_mac mac = Inr (nic_mac p) \<and> nic_mtu p = mtu"
  by (auto simp: mk_bond_member_def rbind_eq_Inr phys_fields_def wf_phys_def
      dest: validate_mac_canonical)

lemma mk_roce_underlay_Inr: "mk_roce_underlay name mac mtu vfs a = Inr p \<Longrightarrow>
    wf_sriov p \<and> nic_name p = name \<and> validate_mac mac = Inr (nic_mac p) \<and> nic_mtu p = mtu
    \<and> nic_sriov_vfs p = vfs \<and> roce_address p = a"
  by (auto simp: mk_roce_underlay_def rbind_eq_Inr phys_fields_def wf_sriov_def wf_phys_def
      dest: validate_mac_canonical)

lemma mk_sriov_parent_Inr: "mk_sriov_parent name mac mtu vfs = Inr p \<Longrightarrow>
    wf_sriov p \<and> nic_name p = name \<and> validate_mac mac = Inr (nic_mac p) \<and> nic_mtu p = mtu
    \<and> nic_sriov_vfs p = vfs"
  by (auto simp: mk_sriov_parent_def rbind_eq_Inr phys_fields_def wf_sriov_def wf_phys_def
      dest: validate_mac_canonical)

lemma mk_infiniband_underlay_Inr: "mk_infiniband_underlay name mac mtu a = Inr p \<Longrightarrow>
    wf_phys p \<and> nic_name p = name \<and> validate_mac mac = Inr (nic_mac p) \<and> nic_mtu p = mtu
    \<and> ib_address p = a"
  by (auto simp: mk_infiniband_underlay_def rbind_eq_Inr phys_fields_def wf_phys_def
      dest: validate_mac_canonical)

lemma distinct_iff_card: "distinct xs \<longleftrightarrow> length xs = card (set xs)"
  by (metis card_distinct distinct_card)

lemma mk_bond_Inr: "mk_bond name members mode rate policy mtu = Inr b \<longleftrightarrow>
    b = \<lparr>bond_name = name, bond_members = members, bond_mode = mode,
         bond_lacp_rate = rate, bond_hash_policy = policy, bond_mtu = mtu\<rparr> \<and> wf_bond b"
  by (auto simp: mk_bond_def rbind_eq_Inr wf_bond_def distinct_iff_card)


section \<open>VLAN children (vlan.py) and host roles (intent.py)\<close>

datatype vlan_role = MGMT | STORAGE | INGRESS

definition vlan_role_value :: "vlan_role \<Rightarrow> string" where
  "vlan_role_value r = (case r of MGMT \<Rightarrow> ''mgmt'' | STORAGE \<Rightarrow> ''storage'' | INGRESS \<Rightarrow> ''ingress'')"

definition all_vlan_roles :: "vlan_role list" where
  "all_vlan_roles = [MGMT, STORAGE, INGRESS]"

datatype role = CPU | GPU_B300 | GPU_B200 | GPU_H200

definition role_value :: "role \<Rightarrow> string" where
  "role_value r = (case r of
      CPU \<Rightarrow> ''cpu'' | GPU_B300 \<Rightarrow> ''gpu-b300'' | GPU_B200 \<Rightarrow> ''gpu-b200'' | GPU_H200 \<Rightarrow> ''gpu-h200'')"

definition all_roles :: "role list" where
  "all_roles = [CPU, GPU_B300, GPU_B200, GPU_H200]"

text \<open>\<open>VlanRole(name)\<close> and \<open>Role(slug)\<close>: enum lookup by value.\<close>

definition vlan_role_of :: "string \<Rightarrow> vlan_role option" where
  "vlan_role_of s = find (\<lambda>r. vlan_role_value r = s) all_vlan_roles"

definition role_of :: "string \<Rightarrow> role option" where
  "role_of s = find (\<lambda>r. role_value r = s) all_roles"

record vlan_child =
  vlan_name :: string
  vlan_parent :: string
  vlan_id :: int
  vlan_role :: vlan_role
  vlan_mtu :: int
  vlan_address :: ipv4_interface
  vlan_gateway :: "32 word option"
  vlan_dns :: "32 word list"
  vlan_search_domain :: "string option"

definition mk_vlan_child ::
  "string \<Rightarrow> string \<Rightarrow> int \<Rightarrow> vlan_role \<Rightarrow> int \<Rightarrow> ipv4_interface \<Rightarrow> 32 word option
   \<Rightarrow> 32 word list \<Rightarrow> string option \<Rightarrow> exn + vlan_child" where
  "mk_vlan_child name parent vid r mtu address gateway dns search_domain =
     rbind (validate_fields
       [(''name'', len_in 1 15 name), (''parent'', len_in 1 15 parent),
        (''vlan_id'', int_in MIN_VLAN_ID MAX_VLAN_ID vid), (''mtu'', int_in MIN_MTU MAX_MTU mtu)]) (\<lambda>_.
     Inr \<lparr>vlan_name = name, vlan_parent = parent, vlan_id = vid, vlan_role = r, vlan_mtu = mtu,
          vlan_address = address, vlan_gateway = gateway, vlan_dns = dns,
          vlan_search_domain = search_domain\<rparr>)"

definition wf_vlan :: "vlan_child \<Rightarrow> bool" where
  "wf_vlan v \<longleftrightarrow> len_in 1 15 (vlan_name v) \<and> len_in 1 15 (vlan_parent v)
     \<and> int_in MIN_VLAN_ID MAX_VLAN_ID (vlan_id v) \<and> int_in MIN_MTU MAX_MTU (vlan_mtu v)"

lemma mk_vlan_child_Inr: "mk_vlan_child name parent vid r mtu a gw dns sd = Inr v \<longleftrightarrow>
    v = \<lparr>vlan_name = name, vlan_parent = parent, vlan_id = vid, vlan_role = r, vlan_mtu = mtu,
         vlan_address = a, vlan_gateway = gw, vlan_dns = dns, vlan_search_domain = sd\<rparr> \<and> wf_vlan v"
  by (auto simp: mk_vlan_child_def rbind_eq_Inr wf_vlan_def)

lemma vlan_role_of_value [simp]: "vlan_role_of (vlan_role_value r) = Some r"
  by (cases r) (simp_all add: vlan_role_of_def vlan_role_value_def all_vlan_roles_def)

lemma role_of_value [simp]: "role_of (role_value r) = Some r"
  by (cases r) (simp_all add: role_of_def role_value_def all_roles_def)

lemma vlan_role_of_Some: "vlan_role_of s = Some r \<Longrightarrow> s = vlan_role_value r"
  by (auto simp: vlan_role_of_def find_Some_iff)

lemma role_of_Some: "role_of s = Some r \<Longrightarrow> s = role_value r"
  by (auto simp: role_of_def find_Some_iff)

lemma role_value_inj [simp]: "role_value r = role_value q \<longleftrightarrow> r = q"
  by (metis option.inject role_of_value)

lemma vlan_role_value_inj [simp]: "vlan_role_value r = vlan_role_value q \<longleftrightarrow> r = q"
  by (metis option.inject vlan_role_of_value)

end
