(* ===== verification/Validators.thy ===== *)
theory Validators
  imports Models
begin

text \<open>
  The cross-field rules of a host intent (src/host_config/models/validators.py). Each rule is
  a function that either returns or raises an \<open>InvariantError\<close> with a stable identifier.
  The locale \<open>checker\<close> states that contract once: a rule accepts exactly the inputs that
  satisfy its condition, and what it raises carries its own identifier. Every rule of the
  file is an interpretation of it.
\<close>

locale checker =
  fixes check :: "'a \<Rightarrow> exn + unit"
    and holds :: "'a \<Rightarrow> bool"
    and code :: "'a \<Rightarrow> string"
  assumes accepts: "holds x \<Longrightarrow> check x = Inr ()"
    and rejects: "\<not> holds x \<Longrightarrow> \<exists>d. check x = Inl (InvariantError (code x) d)"
begin

lemma passes_iff: "check x = Inr () \<longleftrightarrow> holds x"
  using accepts [of x] rejects [of x] by (cases "holds x") auto

lemma error_code: "check x = Inl e \<Longrightarrow> \<exists>d. e = InvariantError (code x) d"
  using accepts [of x] rejects [of x] by (cases "holds x") auto

lemma verdict:
  "(holds x \<and> check x = Inr ()) \<or> (\<not> holds x \<and> (\<exists>d. check x = Inl (InvariantError (code x) d)))"
  using accepts rejects by blast

end

text \<open>
  A list of verdicts against a table of conditions and identifiers: running the checks in
  order accepts exactly when every condition holds, and otherwise raises the identifier of
  the first condition that fails.
\<close>

definition agrees :: "exn + unit \<Rightarrow> bool \<times> string \<Rightarrow> bool" where
  "agrees r hc \<longleftrightarrow>
     (fst hc \<and> r = Inr ()) \<or> (\<not> fst hc \<and> (\<exists>d. r = Inl (InvariantError (snd hc) d)))"

fun first_failure :: "(bool \<times> string) list \<Rightarrow> string option" where
  "first_failure [] = None"
| "first_failure ((h, c) # tbl) = (if h then first_failure tbl else Some c)"

lemma first_failure_None: "first_failure tbl = None \<longleftrightarrow> (\<forall>(h, c) \<in> set tbl. h)"
  by (induction tbl rule: first_failure.induct) auto

lemma rseq_agrees:
  assumes "list_all2 agrees cs tbl"
  shows "case first_failure tbl of
           None \<Rightarrow> rseq cs = Inr ()
         | Some c \<Rightarrow> \<exists>d. rseq cs = Inl (InvariantError c d)"
  using assms
proof (induction cs tbl rule: list_all2_induct)
  case Nil
  show ?case by simp
next
  case (Cons r cs hc tbl)
  then show ?case by (cases hc) (auto simp: agrees_def split: option.splits)
qed


section \<open>N-S NICs and the bond\<close>

definition EXPECTED_NS_NIC_COUNT :: nat where
  "EXPECTED_NS_NIC_COUNT = 2"

definition check_ns_nic_count :: "bond_member list \<Rightarrow> exn + unit" where
  "check_ns_nic_count ns_nics =
     (if length ns_nics \<noteq> EXPECTED_NS_NIC_COUNT
      then Inl (InvariantError ''ns-nic-count''
             (''expected exactly '' @ str_nat EXPECTED_NS_NIC_COUNT
              @ '' N-S NICs (nsa + nsb), got '' @ str_nat (length ns_nics)))
      else Inr ())"

definition check_bond_references_ns_nics :: "bond \<Rightarrow> bond_member list \<Rightarrow> exn + unit" where
  "check_bond_references_ns_nics bond ns_nics =
     (let nic_names = map nic_name ns_nics;
          unknown = filter (\<lambda>m. m \<notin> set nic_names) (bond_members bond)
      in if unknown \<noteq> []
         then Inl (InvariantError ''bond-member-unknown''
                (''bond '' @ repr_str (bond_name bond) @ '' references unknown NIC(s): ''
                 @ repr_strs unknown @ ''; known NICs: '' @ repr_strs (sort (remdups nic_names))))
         else Inr ())"

interpretation ns_nic_count: checker check_ns_nic_count "\<lambda>ns. length ns = 2" "\<lambda>_. ''ns-nic-count''"
  by unfold_locales (auto simp: check_ns_nic_count_def EXPECTED_NS_NIC_COUNT_def)

interpretation bond_refs: checker
  "\<lambda>(bond, ns). check_bond_references_ns_nics bond ns"
  "\<lambda>(bond, ns). set (bond_members bond) \<subseteq> nic_name ` set ns"
  "\<lambda>_. ''bond-member-unknown''"
proof (unfold_locales, goal_cases)
  case (1 x)
  then show ?case
    by (cases x) (auto simp: check_bond_references_ns_nics_def Let_def filter_empty_conv)
next
  case (2 x)
  then show ?case
    by (cases x) (fastforce simp: check_bond_references_ns_nics_def Let_def filter_empty_conv)
qed


section \<open>VLAN children\<close>

definition repr_vlan_role :: "vlan_role \<Rightarrow> string" where
  "repr_vlan_role r =
     ''<VlanRole.'' @ map upper_char (vlan_role_value r) @ '': '' @ repr_str (vlan_role_value r) @ ''>''"

definition repr_role_counts :: "(vlan_role \<times> nat) list \<Rightarrow> string" where
  "repr_role_counts c =
     ''{'' @ join_str '', '' (map (\<lambda>(r, n). repr_vlan_role r @ '': '' @ str_nat n) c) @ ''}''"

definition check_vlan_roles_complete :: "vlan_child list \<Rightarrow> exn + unit" where
  "check_vlan_roles_complete vlans =
     (let roles = counter (map vlan_role vlans); expected = counter [MGMT, STORAGE, INGRESS]
      in if \<not> counter_eq roles expected
         then Inl (InvariantError ''vlan-roles-incomplete''
                (''expected one VLAN per role (mgmt, storage, ingress), got roles=''
                 @ repr_role_counts roles))
         else Inr ())"

definition repr_pair :: "string \<times> string \<Rightarrow> string" where
  "repr_pair p = ''('' @ repr_str (fst p) @ '', '' @ repr_str (snd p) @ '')''"

definition check_vlan_parents :: "vlan_child list \<Rightarrow> bond \<Rightarrow> exn + unit" where
  "check_vlan_parents vlans bond =
     (let bad = map (\<lambda>v. (vlan_name v, vlan_parent v))
                  (filter (\<lambda>v. vlan_parent v \<noteq> bond_name bond) vlans)
      in if bad \<noteq> []
         then Inl (InvariantError ''vlan-parent-mismatch''
                (''all VLANs must parent '' @ repr_str (bond_name bond) @ '', got mismatches: ''
                 @ repr_list (map repr_pair bad)))
         else Inr ())"

definition check_exactly_one_default_gateway :: "vlan_child list \<Rightarrow> exn + unit" where
  "check_exactly_one_default_gateway vlans =
     (let with_gw = map vlan_name (filter (\<lambda>v. vlan_gateway v \<noteq> None) vlans)
      in if length with_gw \<noteq> 1
         then Inl (InvariantError ''default-gateway-count''
                (''expected exactly 1 VLAN with a default gateway, got ''
                 @ str_nat (length with_gw) @ '': '' @ repr_strs with_gw))
         else Inr ())"

fun check_default_gateway_on_mgmt :: "vlan_child list \<Rightarrow> exn + unit" where
  "check_default_gateway_on_mgmt [] = Inr ()"
| "check_default_gateway_on_mgmt (v # vs) =
     (if vlan_gateway v \<noteq> None \<and> vlan_role v \<noteq> MGMT
      then Inl (InvariantError ''default-gateway-role''
             (''only the mgmt VLAN may carry the default gateway; '' @ repr_str (vlan_name v)
              @ '' is role='' @ repr_str (vlan_role_value (vlan_role v))
              @ '' but declares a gateway''))
      else check_default_gateway_on_mgmt vs)"

definition check_mtu_monotone :: "bond \<Rightarrow> vlan_child list \<Rightarrow> exn + unit" where
  "check_mtu_monotone bond vlans =
     (if vlans = [] then Inr ()
      else let max_child = foldl max (vlan_mtu (hd vlans)) (map vlan_mtu (tl vlans))
           in if bond_mtu bond < max_child
              then Inl (InvariantError ''mtu-non-monotone''
                     (''bond MTU ('' @ str_int (bond_mtu bond) @ '') must be ''
                      @ [CHR 0xE2, CHR 0x89, CHR 0xA5]
                      @ '' max VLAN child MTU ('' @ str_int max_child @ '')''))
              else Inr ())"

interpretation vlan_roles: checker check_vlan_roles_complete
  "\<lambda>vs. mset (map vlan_role vs) = {#MGMT, STORAGE, INGRESS#}"
  "\<lambda>_. ''vlan-roles-incomplete''"
proof (unfold_locales, goal_cases)
  case (1 vs)
  then have "counter_eq (counter (map vlan_role vs)) (counter [MGMT, STORAGE, INGRESS])"
    by (subst counter_eq_iff) simp
  then show ?case by (simp add: check_vlan_roles_complete_def)
next
  case (2 vs)
  then have "\<not> counter_eq (counter (map vlan_role vs)) (counter [MGMT, STORAGE, INGRESS])"
    by (subst counter_eq_iff) simp
  then show ?case by (simp add: check_vlan_roles_complete_def)
qed

interpretation vlan_parents: checker
  "\<lambda>(vs, bond). check_vlan_parents vs bond"
  "\<lambda>(vs, bond). \<forall>v \<in> set vs. vlan_parent v = bond_name bond"
  "\<lambda>_. ''vlan-parent-mismatch''"
  by unfold_locales (auto simp: check_vlan_parents_def Let_def filter_empty_conv split: prod.splits)

interpretation one_gateway: checker check_exactly_one_default_gateway
  "\<lambda>vs. length (filter (\<lambda>v. vlan_gateway v \<noteq> None) vs) = 1"
  "\<lambda>_. ''default-gateway-count''"
  by unfold_locales (auto simp: check_exactly_one_default_gateway_def Let_def)

lemma check_default_gateway_on_mgmt_cases:
  "(check_default_gateway_on_mgmt vs = Inr () \<and>
      (\<forall>v \<in> set vs. vlan_gateway v \<noteq> None \<longrightarrow> vlan_role v = MGMT)) \<or>
   ((\<exists>d. check_default_gateway_on_mgmt vs = Inl (InvariantError ''default-gateway-role'' d)) \<and>
      \<not> (\<forall>v \<in> set vs. vlan_gateway v \<noteq> None \<longrightarrow> vlan_role v = MGMT))"
  by (induction vs) auto

interpretation gateway_on_mgmt: checker check_default_gateway_on_mgmt
  "\<lambda>vs. \<forall>v \<in> set vs. vlan_gateway v \<noteq> None \<longrightarrow> vlan_role v = MGMT"
  "\<lambda>_. ''default-gateway-role''"
  using check_default_gateway_on_mgmt_cases by unfold_locales blast+

lemma foldl_max_less: "(b::int) < foldl max a xs \<longleftrightarrow> b < a \<or> (\<exists>x \<in> set xs. b < x)"
  by (induction xs arbitrary: a) auto

lemma check_mtu_monotone_less:
  "vlans \<noteq> [] \<Longrightarrow>
   b < foldl max (vlan_mtu (hd vlans)) (map vlan_mtu (tl vlans)) \<longleftrightarrow> (\<exists>v \<in> set vlans. b < vlan_mtu v)"
  by (cases vlans) (auto simp: foldl_max_less)

interpretation mtu_monotone: checker
  "\<lambda>(bond, vs). check_mtu_monotone bond vs"
  "\<lambda>(bond, vs). \<forall>v \<in> set vs. vlan_mtu v \<le> bond_mtu bond"
  "\<lambda>_. ''mtu-non-monotone''"
  by unfold_locales
     (auto simp: check_mtu_monotone_def Let_def check_mtu_monotone_less not_less split: prod.splits)


section \<open>East-west underlay counts\<close>

definition ROCE_COUNT_BY_ROLE :: "(string \<times> nat) list" where
  "ROCE_COUNT_BY_ROLE = [(''cpu'', 0), (''gpu-b300'', 8), (''gpu-b200'', 8), (''gpu-h200'', 0)]"

definition IB_COUNT_BY_ROLE :: "(string \<times> nat) list" where
  "IB_COUNT_BY_ROLE = [(''cpu'', 0), (''gpu-b300'', 0), (''gpu-b200'', 0), (''gpu-h200'', 8)]"

definition count_for_role :: "(string \<times> nat) list \<Rightarrow> string \<Rightarrow> nat" where
  "count_for_role table r = (case map_of table r of None \<Rightarrow> 0 | Some n \<Rightarrow> n)"

definition check_roce_count_for_role :: "string \<Rightarrow> roce_underlay list \<Rightarrow> exn + unit" where
  "check_roce_count_for_role r roce =
     (let expected = count_for_role ROCE_COUNT_BY_ROLE r
      in if length roce \<noteq> expected
         then Inl (InvariantError (''roce-count-'' @ r)
                (r @ '' hosts require exactly '' @ str_nat expected @ '' RoCE underlay(s), got ''
                 @ str_nat (length roce)))
         else Inr ())"

definition check_ib_count_for_role :: "string \<Rightarrow> infiniband_underlay list \<Rightarrow> exn + unit" where
  "check_ib_count_for_role r ib =
     (let expected = count_for_role IB_COUNT_BY_ROLE r
      in if length ib \<noteq> expected
         then Inl (InvariantError (''ib-count-'' @ r)
                (r @ '' hosts require exactly '' @ str_nat expected
                 @ '' InfiniBand underlay(s), got '' @ str_nat (length ib)))
         else Inr ())"

interpretation roce_count: checker
  "\<lambda>(r, roce). check_roce_count_for_role r roce"
  "\<lambda>(r, roce). length roce = count_for_role ROCE_COUNT_BY_ROLE r"
  "\<lambda>(r, roce). ''roce-count-'' @ r"
  by unfold_locales (auto simp: check_roce_count_for_role_def Let_def split: prod.splits)

interpretation ib_count: checker
  "\<lambda>(r, ib). check_ib_count_for_role r ib"
  "\<lambda>(r, ib). length ib = count_for_role IB_COUNT_BY_ROLE r"
  "\<lambda>(r, ib). ''ib-count-'' @ r"
  by unfold_locales (auto simp: check_ib_count_for_role_def Let_def split: prod.splits)


section \<open>Uniqueness of addresses and names\<close>

text \<open>Each address with the interface that declares it, in the order the code chains them.\<close>

definition addressed ::
  "vlan_child list \<Rightarrow> roce_underlay list \<Rightarrow> infiniband_underlay list \<Rightarrow> (string \<times> string) list" where
  "addressed vlans roce ib =
     map (\<lambda>v. (ipv4_str (if_ip (vlan_address v)), vlan_name v)) vlans
     @ map (\<lambda>r. (ipv4_str (if_ip (roce_address r)), nic_name r)) roce
     @ map (\<lambda>i. (ipv4_str (if_ip (ib_address i)), nic_name i)) ib"

fun scan_ips :: "(string \<times> string) list \<Rightarrow> (string \<times> string) list \<Rightarrow> exn + unit" where
  "scan_ips seen [] = Inr ()"
| "scan_ips seen ((ip, name) # rest) =
     (case map_of seen ip of
        Some other \<Rightarrow> Inl (InvariantError ''duplicate-ip''
          (''IP '' @ ip @ '' appears on both '' @ repr_str other @ '' and '' @ repr_str name))
      | None \<Rightarrow> scan_ips ((ip, name) # seen) rest)"

definition check_unique_ips ::
  "vlan_child list \<Rightarrow> roce_underlay list \<Rightarrow> infiniband_underlay list \<Rightarrow> exn + unit" where
  "check_unique_ips vlans roce ib = scan_ips [] (addressed vlans roce ib)"

definition all_names ::
  "bond_member list \<Rightarrow> roce_underlay list \<Rightarrow> vlan_child list \<Rightarrow> infiniband_underlay list \<Rightarrow> string list"
where
  "all_names ns_nics roce vlans ib =
     map nic_name ns_nics @ map nic_name roce @ map nic_name ib @ map vlan_name vlans"

definition check_unique_names ::
  "bond_member list \<Rightarrow> roce_underlay list \<Rightarrow> vlan_child list \<Rightarrow> infiniband_underlay list
   \<Rightarrow> exn + unit" where
  "check_unique_names ns_nics roce vlans ib =
     (let counts = counter (all_names ns_nics roce vlans ib);
          dupes = map fst (filter (\<lambda>(n, c). 1 < c) counts)
      in if dupes \<noteq> []
         then Inl (InvariantError ''duplicate-name''
                (''interface names must be unique; duplicates: '' @ repr_strs dupes))
         else Inr ())"

text \<open>The addresses of a host as words, which is what \<open>str(address.ip)\<close> distinguishes.\<close>

definition all_ips ::
  "vlan_child list \<Rightarrow> roce_underlay list \<Rightarrow> infiniband_underlay list \<Rightarrow> 32 word list" where
  "all_ips vlans roce ib =
     map (if_ip \<circ> vlan_address) vlans @ map (if_ip \<circ> roce_address) roce @ map (if_ip \<circ> ib_address) ib"

lemma scan_ips_cases:
  "(scan_ips seen ps = Inr () \<and> distinct (map fst ps) \<and> fst ` set ps \<inter> fst ` set seen = {}) \<or>
   ((\<exists>d. scan_ips seen ps = Inl (InvariantError ''duplicate-ip'' d)) \<and>
      \<not> (distinct (map fst ps) \<and> fst ` set ps \<inter> fst ` set seen = {}))"
proof (induction seen ps rule: scan_ips.induct)
  case (1 seen)
  show ?case by simp
next
  case (2 seen ip name rest)
  show ?case
  proof (cases "map_of seen ip")
    case None
    then have "ip \<notin> fst ` set seen" by (simp add: map_of_eq_None_iff)
    with "2.IH" [OF None] None show ?thesis by auto
  next
    case (Some other)
    then have "ip \<in> fst ` set seen" by (metis domI dom_map_of_conv_image_fst)
    with Some show ?thesis by auto
  qed
qed

lemma map_fst_addressed: "map fst (addressed vs roce ib) = map ipv4_str (all_ips vs roce ib)"
  by (simp add: addressed_def all_ips_def)

lemma distinct_addressed: "distinct (map fst (addressed vs roce ib)) \<longleftrightarrow> distinct (all_ips vs roce ib)"
  unfolding map_fst_addressed by (simp add: distinct_map inj_on_def)

lemma check_unique_ips_cases:
  "(check_unique_ips vs roce ib = Inr () \<and> distinct (all_ips vs roce ib)) \<or>
   ((\<exists>d. check_unique_ips vs roce ib = Inl (InvariantError ''duplicate-ip'' d)) \<and>
      \<not> distinct (all_ips vs roce ib))"
  using scan_ips_cases [of "[]" "addressed vs roce ib"]
  by (simp add: check_unique_ips_def distinct_addressed)

interpretation unique_ips: checker
  "\<lambda>(vs, roce, ib). check_unique_ips vs roce ib"
  "\<lambda>(vs, roce, ib). distinct (all_ips vs roce ib)"
  "\<lambda>_. ''duplicate-ip''"
  using check_unique_ips_cases by unfold_locales (clarsimp split: prod.splits, blast)+

lemma check_unique_names_dupes:
  "map fst (filter (\<lambda>(n, c). 1 < c) (counter xs)) = [] \<longleftrightarrow> distinct xs"
  unfolding counter_no_dups [symmetric] by (auto simp: filter_empty_conv)

interpretation unique_names: checker
  "\<lambda>(ns, roce, vs, ib). check_unique_names ns roce vs ib"
  "\<lambda>(ns, roce, vs, ib). distinct (all_names ns roce vs ib)"
  "\<lambda>_. ''duplicate-name''"
proof (unfold_locales, goal_cases)
  case (1 x)
  then show ?case
    by (cases x) (simp only: check_unique_names_def Let_def check_unique_names_dupes split_conv, simp)
next
  case (2 x)
  then show ?case
    by (cases x) (simp only: check_unique_names_def Let_def check_unique_names_dupes split_conv, simp)
qed

end
