(* ===== verification/Intent.thy ===== *)
theory Intent
  imports Validators
begin

text \<open>
  The host intent (src/host_config/models/intent.py): constructing one checks the declared
  field constraints and then runs every cross-field rule, in the order of
  \<open>_check_invariants\<close>. The lemmas say what a constructed intent guarantees to the renderer.
\<close>

record host_intent =
  asset_tag :: string
  hostname :: string
  host_role :: role
  ns_nics :: "bond_member list"
  host_bond :: bond
  vlans :: "vlan_child list"
  roce_underlays :: "roce_underlay list"
  ib_underlays :: "infiniband_underlay list"

definition invariant_checks :: "host_intent \<Rightarrow> (exn + unit) list" where
  "invariant_checks i =
     [check_ns_nic_count (ns_nics i),
      check_bond_references_ns_nics (host_bond i) (ns_nics i),
      check_vlan_roles_complete (vlans i),
      check_vlan_parents (vlans i) (host_bond i),
      check_exactly_one_default_gateway (vlans i),
      check_default_gateway_on_mgmt (vlans i),
      check_mtu_monotone (host_bond i) (vlans i),
      check_roce_count_for_role (role_value (host_role i)) (roce_underlays i),
      check_ib_count_for_role (role_value (host_role i)) (ib_underlays i),
      check_unique_names (ns_nics i) (roce_underlays i) (vlans i) (ib_underlays i),
      check_unique_ips (vlans i) (roce_underlays i) (ib_underlays i)]"

definition check_invariants :: "host_intent \<Rightarrow> exn + unit" where
  "check_invariants i = rseq (invariant_checks i)"

definition intent_fields :: "host_intent \<Rightarrow> (string \<times> bool) list" where
  "intent_fields i =
     [(''asset_tag'', len_in 1 64 (asset_tag i)), (''hostname'', len_in 1 253 (hostname i))]"

definition mk_host_intent ::
  "string \<Rightarrow> string \<Rightarrow> role \<Rightarrow> bond_member list \<Rightarrow> bond \<Rightarrow> vlan_child list \<Rightarrow> roce_underlay list
   \<Rightarrow> infiniband_underlay list \<Rightarrow> exn + host_intent" where
  "mk_host_intent tag host r nics b vs roce ib =
     (let i = \<lparr>asset_tag = tag, hostname = host, host_role = r, ns_nics = nics, host_bond = b,
               vlans = vs, roce_underlays = roce, ib_underlays = ib\<rparr>
      in rbind (validate_fields (intent_fields i)) (\<lambda>_.
         rbind (check_invariants i) (\<lambda>_. Inr i)))"

text \<open>The conditions, with the identifier each one is reported under, in the same order.\<close>

definition invariant_table :: "host_intent \<Rightarrow> (bool \<times> string) list" where
  "invariant_table i =
     [(length (ns_nics i) = 2, ''ns-nic-count''),
      (set (bond_members (host_bond i)) \<subseteq> nic_name ` set (ns_nics i), ''bond-member-unknown''),
      (mset (map vlan_role (vlans i)) = {#MGMT, STORAGE, INGRESS#}, ''vlan-roles-incomplete''),
      (\<forall>v \<in> set (vlans i). vlan_parent v = bond_name (host_bond i), ''vlan-parent-mismatch''),
      (length (filter (\<lambda>v. vlan_gateway v \<noteq> None) (vlans i)) = 1, ''default-gateway-count''),
      (\<forall>v \<in> set (vlans i). vlan_gateway v \<noteq> None \<longrightarrow> vlan_role v = MGMT, ''default-gateway-role''),
      (\<forall>v \<in> set (vlans i). vlan_mtu v \<le> bond_mtu (host_bond i), ''mtu-non-monotone''),
      (length (roce_underlays i) = count_for_role ROCE_COUNT_BY_ROLE (role_value (host_role i)),
       ''roce-count-'' @ role_value (host_role i)),
      (length (ib_underlays i) = count_for_role IB_COUNT_BY_ROLE (role_value (host_role i)),
       ''ib-count-'' @ role_value (host_role i)),
      (distinct (all_names (ns_nics i) (roce_underlays i) (vlans i) (ib_underlays i)),
       ''duplicate-name''),
      (distinct (all_ips (vlans i) (roce_underlays i) (ib_underlays i)), ''duplicate-ip'')]"

definition renderable :: "host_intent \<Rightarrow> bool" where
  "renderable i \<longleftrightarrow> list_all fst (invariant_table i)"

lemma agrees_of_verdict:
  "(h \<and> r = Inr ()) \<or> (\<not> h \<and> (\<exists>d. r = Inl (InvariantError c d))) \<Longrightarrow> agrees r (h, c)"
  by (simp add: agrees_def)

lemma invariant_checks_agree: "list_all2 agrees (invariant_checks i) (invariant_table i)"
  unfolding invariant_checks_def invariant_table_def list_all2_Cons
  using ns_nic_count.verdict [of "ns_nics i"]
    bond_refs.verdict [of "(host_bond i, ns_nics i)"]
    vlan_roles.verdict [of "vlans i"]
    vlan_parents.verdict [of "(vlans i, host_bond i)"]
    one_gateway.verdict [of "vlans i"]
    gateway_on_mgmt.verdict [of "vlans i"]
    mtu_monotone.verdict [of "(host_bond i, vlans i)"]
    roce_count.verdict [of "(role_value (host_role i), roce_underlays i)"]
    ib_count.verdict [of "(role_value (host_role i), ib_underlays i)"]
    unique_names.verdict [of "(ns_nics i, roce_underlays i, vlans i, ib_underlays i)"]
    unique_ips.verdict [of "(vlans i, roce_underlays i, ib_underlays i)"]
  by (intro conjI agrees_of_verdict list_all2_Nil [THEN iffD2]) (simp_all only: split_conv)

lemma check_invariants_first_failure:
  "case first_failure (invariant_table i) of
     None \<Rightarrow> check_invariants i = Inr ()
   | Some c \<Rightarrow> \<exists>d. check_invariants i = Inl (InvariantError c d)"
  unfolding check_invariants_def using invariant_checks_agree by (rule rseq_agrees)

lemma renderable_first_failure: "renderable i \<longleftrightarrow> first_failure (invariant_table i) = None"
  by (auto simp: renderable_def first_failure_None list_all_iff)

lemma check_invariants_iff: "check_invariants i = Inr () \<longleftrightarrow> renderable i"
  using check_invariants_first_failure [of i]
  by (auto simp: renderable_first_failure split: option.splits)

lemma mk_host_intent_Inr:
  "mk_host_intent tag host r nics b vs roce ib = Inr i \<longleftrightarrow>
     i = \<lparr>asset_tag = tag, hostname = host, host_role = r, ns_nics = nics, host_bond = b,
          vlans = vs, roce_underlays = roce, ib_underlays = ib\<rparr>
     \<and> len_in 1 64 tag \<and> len_in 1 253 host \<and> renderable i"
  by (auto simp: mk_host_intent_def Let_def rbind_eq_Inr intent_fields_def check_invariants_iff)

definition wf_intent :: "host_intent \<Rightarrow> bool" where
  "wf_intent i \<longleftrightarrow> renderable i
     \<and> len_in 1 64 (asset_tag i) \<and> len_in 1 253 (hostname i)
     \<and> (\<forall>n \<in> set (ns_nics i). wf_phys n) \<and> wf_bond (host_bond i) \<and> (\<forall>v \<in> set (vlans i). wf_vlan v)
     \<and> (\<forall>r \<in> set (roce_underlays i). wf_sriov r) \<and> (\<forall>b \<in> set (ib_underlays i). wf_phys b)"


section \<open>What the renderer can rely on\<close>

lemmas renderable_unfold = renderable_def invariant_table_def

lemma renderable_names: "renderable i \<Longrightarrow>
    distinct (map nic_name (ns_nics i)) \<and> distinct (map nic_name (roce_underlays i))
    \<and> distinct (map nic_name (ib_underlays i)) \<and> distinct (map vlan_name (vlans i))"
  by (simp add: renderable_unfold all_names_def)

lemma renderable_roles: "renderable i \<Longrightarrow> mset (map vlan_role (vlans i)) = {#MGMT, STORAGE, INGRESS#}"
  by (simp add: renderable_unfold)

lemma renderable_three_vlans: "renderable i \<Longrightarrow> length (vlans i) = 3"
proof -
  assume "renderable i"
  then have "size (mset (map vlan_role (vlans i))) = 3" by (simp only: renderable_roles) simp
  then show ?thesis by simp
qed

lemma renderable_vlan_unique:
  assumes "renderable i" and "v \<in> set (vlans i)" and "w \<in> set (vlans i)"
    and "vlan_role v = vlan_role w"
  shows "v = w"
proof -
  have "distinct (map vlan_role (vlans i))"
    using renderable_roles [OF assms(1)]
      mset_eq_imp_distinct_iff [of "map vlan_role (vlans i)" "[MGMT, STORAGE, INGRESS]"]
    by simp
  then show ?thesis using assms by (auto simp: distinct_map dest: inj_onD)
qed

lemma renderable_vlan_exists: "renderable i \<Longrightarrow> \<exists>v \<in> set (vlans i). vlan_role v = r"
proof -
  assume "renderable i"
  then have "set_mset (mset (map vlan_role (vlans i))) = {MGMT, STORAGE, INGRESS}"
    by (simp only: renderable_roles) auto
  moreover have "r \<in> {MGMT, STORAGE, INGRESS}" by (cases r) auto
  ultimately have "r \<in> vlan_role ` set (vlans i)" by simp
  then show ?thesis by auto
qed

lemma renderable_gateway_iff:
  assumes "renderable i" and "v \<in> set (vlans i)"
  shows "vlan_gateway v \<noteq> None \<longleftrightarrow> vlan_role v = MGMT"
proof
  assume "vlan_gateway v \<noteq> None"
  then show "vlan_role v = MGMT" using assms by (simp add: renderable_unfold)
next
  assume mgmt: "vlan_role v = MGMT"
  have "length (filter (\<lambda>v. vlan_gateway v \<noteq> None) (vlans i)) = 1"
    using assms(1) by (simp add: renderable_unfold)
  then have "filter (\<lambda>v. vlan_gateway v \<noteq> None) (vlans i) \<noteq> []" by (metis list.size(3) zero_neq_one)
  then have "hd (filter (\<lambda>v. vlan_gateway v \<noteq> None) (vlans i))
      \<in> set (filter (\<lambda>v. vlan_gateway v \<noteq> None) (vlans i))" by (rule hd_in_set)
  then obtain w where w: "w \<in> set (vlans i)" "vlan_gateway w \<noteq> None" by (force simp del: hd_in_set)
  then have "vlan_role w = MGMT" using assms(1) by (simp add: renderable_unfold)
  then have "w = v" using renderable_vlan_unique [OF assms(1) w(1) assms(2)] mgmt by simp
  then show "vlan_gateway v \<noteq> None" using w(2) by simp
qed

lemma renderable_bond_members:
  assumes "renderable i" and "wf_bond (host_bond i)"
  shows "mset (bond_members (host_bond i)) = mset (map nic_name (ns_nics i))"
proof -
  let ?ms = "bond_members (host_bond i)" and ?ns = "map nic_name (ns_nics i)"
  have d: "distinct ?ms" "distinct ?ns" and len: "2 \<le> length ?ms" "length ?ns = 2"
    and sub: "set ?ms \<subseteq> set ?ns"
    using assms renderable_names [OF assms(1)]
    by (auto simp: wf_bond_def len_in_def renderable_unfold)
  have "card (set ?ns) \<le> card (set ?ms)"
    using len d by (metis distinct_card)
  with sub have "set ?ms = set ?ns" by (intro card_seteq) auto
  then show ?thesis using d set_eq_iff_mset_eq_distinct by blast
qed

lemma renderable_backend:
  assumes "renderable i"
  shows "length (roce_underlays i) = (case host_role i of GPU_B300 \<Rightarrow> 8 | GPU_B200 \<Rightarrow> 8 | _ \<Rightarrow> 0)"
    and "length (ib_underlays i) = (case host_role i of GPU_H200 \<Rightarrow> 8 | _ \<Rightarrow> 0)"
  using assms
  by (cases "host_role i";
      simp add: renderable_unfold count_for_role_def ROCE_COUNT_BY_ROLE_def IB_COUNT_BY_ROLE_def
        role_value_def)+

lemma renderable_mtu: "renderable i \<Longrightarrow> v \<in> set (vlans i) \<Longrightarrow> vlan_mtu v \<le> bond_mtu (host_bond i)"
  by (simp add: renderable_unfold)

lemma renderable_parent: "renderable i \<Longrightarrow> v \<in> set (vlans i) \<Longrightarrow> vlan_parent v = bond_name (host_bond i)"
  by (simp add: renderable_unfold)

end
