(* ===== verification/Loader.thy ===== *)
theory Loader
  imports Intent
begin

text \<open>
  The Netbox loader (src/host_config/netbox/loader.py). Netbox itself is a parameter: a
  client is a record of the four queries the program makes, each of which either raises
  (\<open>Inl\<close> with the text of the exception) or returns records. The record types hold the
  attributes the loader reads; an absent attribute and one that is \<open>None\<close> are the same to
  \<open>getattr(x, a, None)\<close>, so both are the HOL value \<open>None\<close>. The name of a VLAN is
  \<open>None\<close> where the attribute is absent.
\<close>

record nb_mac =
  nbm_mac_address :: "string option"
  nbm_text :: string

record nb_vlan =
  nbv_vid :: int
  nbv_name :: "string option"

record nb_iface =
  nbi_id :: int
  nbi_name :: string
  nbi_primary_mac :: "nb_mac option"
  nbi_mtu :: "int option"
  nbi_untagged_vlan :: "nb_vlan option"
  nbi_custom_fields :: "pydict option"

text \<open>The role of a device is absent, or a record whose slug may be absent.\<close>

record nb_device =
  nbd_id :: int
  nbd_name :: "string option"
  nbd_role :: "string option option"

record nb_client =
  nb_get_device :: "string \<Rightarrow> string + nb_device option"
  nb_list_interfaces :: "int \<Rightarrow> string + nb_iface list"
  nb_list_ips :: "int \<Rightarrow> string + string list"
  nb_status :: "string + unit"

definition BOND_NAME :: string where "BOND_NAME = ''bond0''"
definition NS_NIC_NAMES :: "string list" where "NS_NIC_NAMES = [''nsa'', ''nsb'']"
definition ROCE_NIC_PREFIX :: string where "ROCE_NIC_PREFIX = ''gpu''"
definition IB_NIC_PREFIX :: string where "IB_NIC_PREFIX = ''ib''"
definition VLAN_NAME_PREFIX :: string where "VLAN_NAME_PREFIX = ''bond0.''"

definition query_value_error :: "string \<Rightarrow> string \<Rightarrow> string \<Rightarrow> exn" where
  "query_value_error operation message tag =
     NetboxQueryError operation (CauseValueError message) (Some tag)"


section \<open>Queries\<close>

definition fetch_device :: "nb_client \<Rightarrow> string \<Rightarrow> exn + nb_device" where
  "fetch_device client tag = (case nb_get_device client tag of
      Inl e \<Rightarrow> Inl (NetboxQueryError ''get_device'' (CauseExternal e) (Some tag))
    | Inr None \<Rightarrow> Inl (HostNotFoundError tag)
    | Inr (Some device) \<Rightarrow> Inr device)"

definition fetch_interfaces :: "nb_client \<Rightarrow> nb_device \<Rightarrow> string \<Rightarrow> exn + nb_iface list" where
  "fetch_interfaces client device tag = (case nb_list_interfaces client (nbd_id device) of
      Inl e \<Rightarrow> Inl (NetboxQueryError ''list_interfaces'' (CauseExternal e) (Some tag))
    | Inr ifaces \<Rightarrow> Inr ifaces)"

text \<open>\<open>str(x)\<close> of an optional string\<close>

definition str_opt :: "string option \<Rightarrow> string" where
  "str_opt s = (case s of None \<Rightarrow> ''None'' | Some t \<Rightarrow> t)"

definition repr_opt :: "string option \<Rightarrow> string" where
  "repr_opt s = (case s of None \<Rightarrow> ''None'' | Some t \<Rightarrow> repr_str t)"

definition parse_role :: "nb_device \<Rightarrow> string \<Rightarrow> exn + role" where
  "parse_role device tag =
     (case (case nbd_role device of None \<Rightarrow> None | Some slug \<Rightarrow> slug) of
        None \<Rightarrow> Inl (query_value_error ''parse_role''
                  (''device has no role.slug: '' @ repr_opt (nbd_name device)) tag)
      | Some slug \<Rightarrow>
          if slug = '''' then
            Inl (query_value_error ''parse_role''
              (''device has no role.slug: '' @ repr_opt (nbd_name device)) tag)
          else (case role_of slug of
              None \<Rightarrow> Inl (query_value_error ''parse_role''
                (''unknown role slug '' @ repr_str slug @ ''; accepted: ''
                 @ repr_strs (map role_value all_roles)) tag)
            | Some r \<Rightarrow> Inr r))"

definition fetch_single_ip :: "nb_client \<Rightarrow> nb_iface \<Rightarrow> string \<Rightarrow> exn + ipv4_interface" where
  "fetch_single_ip client iface tag = (case nb_list_ips client (nbi_id iface) of
      Inl e \<Rightarrow> Inl (NetboxQueryError ''list_ip_addresses'' (CauseExternal e) (Some tag))
    | Inr ips \<Rightarrow>
        if length ips \<noteq> 1
        then Inl (query_value_error ''list_ip_addresses''
               (''interface '' @ repr_str (nbi_name iface) @ '': expected 1 IP assignment, got ''
                @ str_nat (length ips)) tag)
        else parse_interface (hd ips))"

text \<open>\<open>next(iter(network.hosts()))\<close>\<close>

definition derive_gateway :: "ipv4_interface \<Rightarrow> exn + 32 word" where
  "derive_gateway address =
     (case hosts_range address of (lo, hi) \<Rightarrow>
        if lo < hi then Inr (word_of_nat lo) else Inl StopIteration)"


section \<open>Field readers\<close>

definition read_mac :: "nb_iface \<Rightarrow> string \<Rightarrow> exn + string" where
  "read_mac iface tag = (case nbi_primary_mac iface of
      None \<Rightarrow> Inl (query_value_error ''read_mac''
        (''interface '' @ repr_str (nbi_name iface) @ '' has no primary_mac_address'') tag)
    | Some primary \<Rightarrow>
        Inr (py_lower (case nbm_mac_address primary of
            None \<Rightarrow> nbm_text primary
          | Some m \<Rightarrow> if m = '''' then nbm_text primary else m)))"

definition read_mtu :: "nb_iface \<Rightarrow> int \<Rightarrow> int" where
  "read_mtu iface dflt = (case nbi_mtu iface of None \<Rightarrow> dflt | Some mtu \<Rightarrow> mtu)"

definition read_vlan_id :: "nb_iface \<Rightarrow> string \<Rightarrow> exn + int" where
  "read_vlan_id iface tag = (case nbi_untagged_vlan iface of
      None \<Rightarrow> Inl (query_value_error ''read_vlan_id''
        (''interface '' @ repr_str (nbi_name iface) @ '' has no untagged_vlan assignment'') tag)
    | Some untagged \<Rightarrow> Inr (nbv_vid untagged))"

definition read_vlan_role :: "nb_iface \<Rightarrow> string \<Rightarrow> exn + vlan_role" where
  "read_vlan_role iface tag = (case nbi_untagged_vlan iface of
      None \<Rightarrow> Inl (query_value_error ''read_vlan_role''
        (''interface '' @ repr_str (nbi_name iface) @ '' has no untagged_vlan'') tag)
    | Some untagged \<Rightarrow>
        (let name = (case nbv_name untagged of None \<Rightarrow> '''' | Some n \<Rightarrow> n)
         in case vlan_role_of name of
              Some r \<Rightarrow> Inr r
            | None \<Rightarrow> Inl (query_value_error ''read_vlan_role''
                (''unknown VLAN name '' @ repr_str name @ '' on '' @ repr_str (nbi_name iface)
                 @ ''; accepted: '' @ repr_strs (map vlan_role_value all_vlan_roles)) tag)))"

text \<open>\<open>int(value)\<close>\<close>

definition py_int :: "pyval \<Rightarrow> exn + int" where
  "py_int v = (case v of
      PyInt i \<Rightarrow> Inr i
    | PyBool b \<Rightarrow> Inr (if b then 1 else 0)
    | PyStr s \<Rightarrow> (case int_of_str s of
          Some i \<Rightarrow>
            if MAX_STR_DIGITS < digit_count s
            then Inl (ValueError (''Exceeds the limit (4300 digits) for integer string conversion: value has ''
                   @ str_nat (digit_count s) @ '' digits; use sys.set_int_max_str_digits() to increase the limit''))
            else Inr i
        | None \<Rightarrow> Inl (ValueError (''invalid literal for int() with base 10: '' @ repr_str s)))
    | _ \<Rightarrow> Inl (TypeError (''int() argument must be a string, a bytes-like object or a real ''
                 @ ''number, not '' @ repr_str (type_name v))))"

definition read_sriov_vfs :: "nb_iface \<Rightarrow> int \<Rightarrow> exn + int" where
  "read_sriov_vfs iface dflt =
     (let cf = (case nbi_custom_fields iface of None \<Rightarrow> [] | Some d \<Rightarrow> d);
          v = dict_get cf ''sriov_vfs''
      in if v = PyNone then Inr dflt else py_int v)"


section \<open>Builders\<close>

text \<open>\<open>{i.name: i for i in interfaces}.get(name)\<close>: the last interface of that name.\<close>

definition iface_named :: "nb_iface list \<Rightarrow> string \<Rightarrow> nb_iface option" where
  "iface_named ifaces name = map_of (rev (map (\<lambda>i. (nbi_name i, i)) ifaces)) name"

definition build_ns_nic :: "nb_iface list \<Rightarrow> string \<Rightarrow> string \<Rightarrow> exn + bond_member" where
  "build_ns_nic ifaces tag name = (case iface_named ifaces name of
      None \<Rightarrow> Inl (query_value_error ''find_ns_nic''
                (''missing N-S interface '' @ repr_str name) tag)
    | Some iface \<Rightarrow>
        rbind (read_mac iface tag) (\<lambda>mac.
        mk_bond_member name (PyStr mac) (read_mtu iface 9000)))"

definition build_ns_nics :: "nb_iface list \<Rightarrow> string \<Rightarrow> exn + bond_member list" where
  "build_ns_nics ifaces tag = rmap (build_ns_nic ifaces tag) NS_NIC_NAMES"

definition build_bond :: "nb_iface list \<Rightarrow> bond_member list \<Rightarrow> string \<Rightarrow> exn + bond" where
  "build_bond ifaces nics tag = (case iface_named ifaces BOND_NAME of
      None \<Rightarrow> Inl (query_value_error ''find_bond''
                (''missing bond interface '' @ repr_str BOND_NAME) tag)
    | Some bond_iface \<Rightarrow>
        mk_bond BOND_NAME (map nic_name nics) Mode_802_3ad LacpFast Layer3_4
          (read_mtu bond_iface 9000))"

definition is_vlan_iface :: "nb_iface \<Rightarrow> bool" where
  "is_vlan_iface iface \<longleftrightarrow> starts_with VLAN_NAME_PREFIX (nbi_name iface)"

definition build_vlan :: "nb_client \<Rightarrow> string \<Rightarrow> nb_iface \<Rightarrow> exn + vlan_child" where
  "build_vlan client tag iface =
     rbind (read_vlan_id iface tag) (\<lambda>vid.
     rbind (read_vlan_role iface tag) (\<lambda>r.
     let mtu = read_mtu iface 1500 in
     rbind (fetch_single_ip client iface tag) (\<lambda>address.
     rbind (if r = MGMT then rbind (derive_gateway address) (\<lambda>g. Inr (Some g)) else Inr None) (\<lambda>gateway.
     mk_vlan_child (nbi_name iface) BOND_NAME vid r mtu address gateway [] None))))"

definition build_vlans :: "nb_client \<Rightarrow> nb_iface list \<Rightarrow> string \<Rightarrow> exn + vlan_child list" where
  "build_vlans client ifaces tag = rmap (build_vlan client tag) (filter is_vlan_iface ifaces)"

definition is_roce_iface :: "nb_iface \<Rightarrow> bool" where
  "is_roce_iface iface \<longleftrightarrow> starts_with ROCE_NIC_PREFIX (nbi_name iface)
     \<and> str_isdigit (drop (length ROCE_NIC_PREFIX) (nbi_name iface))"

definition build_roce :: "nb_client \<Rightarrow> string \<Rightarrow> nb_iface \<Rightarrow> exn + roce_underlay" where
  "build_roce client tag iface =
     rbind (read_mac iface tag) (\<lambda>mac.
     let mtu = read_mtu iface 9000 in
     rbind (fetch_single_ip client iface tag) (\<lambda>address.
     rbind (read_sriov_vfs iface 16) (\<lambda>vfs.
     mk_roce_underlay (nbi_name iface) (PyStr mac) mtu vfs address)))"

definition build_roce_underlays :: "nb_client \<Rightarrow> nb_iface list \<Rightarrow> string \<Rightarrow> exn + roce_underlay list" where
  "build_roce_underlays client ifaces tag =
     rbind (rmap (build_roce client tag) (filter is_roce_iface ifaces)) (\<lambda>us.
     Inr (sort_key nic_name us))"

definition is_ib_iface :: "nb_iface \<Rightarrow> bool" where
  "is_ib_iface iface \<longleftrightarrow> starts_with IB_NIC_PREFIX (nbi_name iface)
     \<and> str_isdigit (drop (length IB_NIC_PREFIX) (nbi_name iface))"

definition build_ib :: "nb_client \<Rightarrow> string \<Rightarrow> nb_iface \<Rightarrow> exn + infiniband_underlay" where
  "build_ib client tag iface =
     rbind (read_mac iface tag) (\<lambda>mac.
     let mtu = read_mtu iface 2044 in
     rbind (fetch_single_ip client iface tag) (\<lambda>address.
     mk_infiniband_underlay (nbi_name iface) (PyStr mac) mtu address))"

definition build_ib_underlays :: "nb_client \<Rightarrow> nb_iface list \<Rightarrow> string \<Rightarrow> exn + infiniband_underlay list" where
  "build_ib_underlays client ifaces tag =
     rbind (rmap (build_ib client tag) (filter is_ib_iface ifaces)) (\<lambda>us.
     Inr (sort_key nic_name us))"

definition load_host_intent :: "nb_client \<Rightarrow> string \<Rightarrow> exn + host_intent" where
  "load_host_intent client tag =
     rbind (fetch_device client tag) (\<lambda>device.
     rbind (fetch_interfaces client device tag) (\<lambda>ifaces.
     rbind (parse_role device tag) (\<lambda>r.
     rbind (build_ns_nics ifaces tag) (\<lambda>nics.
     rbind (build_bond ifaces nics tag) (\<lambda>b.
     rbind (build_vlans client ifaces tag) (\<lambda>vs.
     rbind (build_roce_underlays client ifaces tag) (\<lambda>roce.
     rbind (build_ib_underlays client ifaces tag) (\<lambda>ib.
     mk_host_intent tag (str_opt (nbd_name device)) r nics b vs roce ib))))))))"


section \<open>Builders keep names, check fields and forget order\<close>

text \<open>
  What the three per-interface builders have in common, stated once: a built model carries
  the name of its interface and satisfies its field constraints. Everything about lists of
  built models follows.
\<close>

locale iface_builder =
  fixes build :: "nb_iface \<Rightarrow> exn + 'm"
    and name_of :: "'m \<Rightarrow> string"
    and good :: "'m \<Rightarrow> bool"
  assumes build_name: "build i = Inr m \<Longrightarrow> name_of m = nbi_name i"
    and build_good: "build i = Inr m \<Longrightarrow> good m"
begin

lemma names: "rmap build ifs = Inr ms \<Longrightarrow> map name_of ms = map nbi_name ifs"
  by (erule rmap_map_eq) (rule build_name)

lemma all_good: "rmap build ifs = Inr ms \<Longrightarrow> m \<in> set ms \<Longrightarrow> good m"
  by (blast dest: rmap_set build_good)

lemma perm:
  assumes "rmap build ifs = Inr ms" and "mset jfs = mset ifs"
  obtains ns where "rmap build jfs = Inr ns" and "mset ns = mset ms"
proof -
  have ok: "build i = Inr (projr (build i))" if "i \<in> set ifs" for i
    using assms(1) that by (induction ifs arbitrary: ms) (auto simp: rbind_eq_Inr)
  then have "rmap build ifs = Inr (map (\<lambda>i. projr (build i)) ifs)" by (rule rmap_total)
  then have ms: "ms = map (\<lambda>i. projr (build i)) ifs" using assms(1) by simp
  have "rmap build jfs = Inr (map (\<lambda>i. projr (build i)) jfs)"
    using ok assms(2) by (intro rmap_total) (metis mset_eq_setD)
  moreover have "mset (map (\<lambda>i. projr (build i)) jfs) = mset ms"
    using assms(2) by (simp add: ms)
  ultimately show thesis by (rule that)
qed

lemma inj_names:
  assumes "rmap build ifs = Inr ms" and "distinct (map nbi_name ifs)"
  shows "inj_on name_of (set ms)" and "distinct ms"
proof -
  have "distinct (map name_of ms)" using assms(2) by (simp only: names [OF assms(1)])
  then show "inj_on name_of (set ms)" and "distinct ms" by (simp_all add: distinct_map)
qed

lemma sorted_perm:
  assumes "rmap build ifs = Inr ms" and "mset jfs = mset ifs" and "distinct (map nbi_name ifs)"
  shows "rbind (rmap build jfs) (\<lambda>us. Inr (sort_key name_of us)) = Inr (sort_key name_of ms)"
proof -
  obtain ns where ns: "rmap build jfs = Inr ns" "mset ns = mset ms"
    using perm [OF assms(1,2)] .
  have "sort_key name_of ms = sort_key name_of ns"
    using ns(2) inj_names(1) [OF assms(1,3)] by (intro sort_key_mset_cong) auto
  then show ?thesis using ns(1) by simp
qed

end

interpretation vlan_builder: iface_builder "build_vlan client tag" vlan_name wf_vlan for client tag
proof
  fix i m assume b: "build_vlan client tag i = Inr m"
  show "vlan_name m = nbi_name i"
    using b by (auto simp: build_vlan_def Let_def rbind_eq_Inr mk_vlan_child_Inr)
  show "wf_vlan m"
    using b by (auto simp: build_vlan_def Let_def rbind_eq_Inr mk_vlan_child_Inr)
qed

interpretation roce_builder: iface_builder "build_roce client tag" nic_name wf_sriov for client tag
proof
  fix i m assume "build_roce client tag i = Inr m"
  then obtain mac mtu vfs a where "mk_roce_underlay (nbi_name i) mac mtu vfs a = Inr m"
    by (auto simp: build_roce_def Let_def rbind_eq_Inr)
  then show "nic_name m = nbi_name i" and "wf_sriov m" using mk_roce_underlay_Inr by blast+
qed

interpretation ib_builder: iface_builder "build_ib client tag" nic_name wf_phys for client tag
proof
  fix i m assume "build_ib client tag i = Inr m"
  then obtain mac mtu a where "mk_infiniband_underlay (nbi_name i) mac mtu a = Inr m"
    by (auto simp: build_ib_def Let_def rbind_eq_Inr)
  then show "nic_name m = nbi_name i" and "wf_phys m" using mk_infiniband_underlay_Inr by blast+
qed

lemma build_ns_nic_Inr: "build_ns_nic ifs tag name = Inr m \<Longrightarrow>
    nic_name m = name \<and> wf_phys m \<and>
    (\<exists>i mac. iface_named ifs name = Some i \<and> read_mac i tag = Inr mac
       \<and> validate_mac (PyStr mac) = Inr (nic_mac m) \<and> nic_mtu m = read_mtu i 9000)"
  by (auto simp: build_ns_nic_def rbind_eq_Inr split: option.splits dest!: mk_bond_member_Inr)

lemma build_ns_nics_Inr:
  assumes "build_ns_nics ifs tag = Inr ns"
  shows "map nic_name ns = NS_NIC_NAMES" and "n \<in> set ns \<Longrightarrow> wf_phys n"
proof -
  have "map nic_name ns = map (\<lambda>n. n) NS_NIC_NAMES"
    using assms unfolding build_ns_nics_def
    by (rule rmap_map_eq) (simp add: build_ns_nic_Inr)
  then show "map nic_name ns = NS_NIC_NAMES" by simp
  show "n \<in> set ns \<Longrightarrow> wf_phys n"
    using assms unfolding build_ns_nics_def by (blast dest: rmap_set build_ns_nic_Inr)
qed

lemma build_bond_Inr: "build_bond ifs ns tag = Inr b \<Longrightarrow>
    bond_name b = BOND_NAME \<and> bond_members b = map nic_name ns \<and> wf_bond b
    \<and> bond_mode b = Mode_802_3ad \<and> bond_lacp_rate b = LacpFast \<and> bond_hash_policy b = Layer3_4
    \<and> (\<exists>i. iface_named ifs BOND_NAME = Some i \<and> bond_mtu b = read_mtu i 9000)"
  by (auto simp: build_bond_def mk_bond_Inr split: option.splits)

lemma iface_named_Some: "iface_named ifs name = Some i \<Longrightarrow> i \<in> set ifs \<and> nbi_name i = name"
  unfolding iface_named_def by (drule map_of_SomeD) auto

lemma iface_named_None: "iface_named ifs name = None \<longleftrightarrow> name \<notin> nbi_name ` set ifs"
  unfolding iface_named_def by (simp add: map_of_eq_None_iff image_image)

lemma iface_named_distinct:
  assumes "distinct (map nbi_name ifs)"
  shows "iface_named ifs name = Some i \<longleftrightarrow> i \<in> set ifs \<and> nbi_name i = name"
proof -
  have "distinct (map fst (rev (map (\<lambda>i. (nbi_name i, i)) ifs)))"
    using assms by (simp add: rev_map [symmetric] comp_def)
  then show ?thesis unfolding iface_named_def by (auto simp: map_of_eq_Some_iff)
qed

lemma iface_named_perm:
  assumes "distinct (map nbi_name ifs)" and "mset jfs = mset ifs"
  shows "iface_named jfs = iface_named ifs"
proof -
  have "mset (map nbi_name jfs) = mset (map nbi_name ifs)" using assms(2) by simp
  then have "distinct (map nbi_name jfs)"
    using assms(1) mset_eq_imp_distinct_iff by blast
  moreover have "set jfs = set ifs" using assms(2) by (rule mset_eq_setD)
  ultimately have "iface_named jfs name = Some i \<longleftrightarrow> iface_named ifs name = Some i" for name i
    using assms(1) by (simp add: iface_named_distinct)
  then show ?thesis by (metis ext not_Some_eq)
qed


section \<open>The whole load\<close>

lemma load_host_intentE:
  assumes "load_host_intent client tag = Inr i"
  obtains device ifs where
    "fetch_device client tag = Inr device"
    "fetch_interfaces client device tag = Inr ifs"
    "parse_role device tag = Inr (host_role i)"
    "build_ns_nics ifs tag = Inr (ns_nics i)"
    "build_bond ifs (ns_nics i) tag = Inr (host_bond i)"
    "build_vlans client ifs tag = Inr (vlans i)"
    "build_roce_underlays client ifs tag = Inr (roce_underlays i)"
    "build_ib_underlays client ifs tag = Inr (ib_underlays i)"
    "asset_tag i = tag" "hostname i = str_opt (nbd_name device)"
    "len_in 1 64 (asset_tag i)" "len_in 1 253 (hostname i)" "renderable i"
  using assms unfolding load_host_intent_def by (auto simp: rbind_eq_Inr mk_host_intent_Inr)

lemma load_host_intentI:
  assumes "fetch_device client tag = Inr device" "fetch_interfaces client device tag = Inr ifs"
    "parse_role device tag = Inr r" "build_ns_nics ifs tag = Inr ns"
    "build_bond ifs ns tag = Inr b" "build_vlans client ifs tag = Inr vs"
    "build_roce_underlays client ifs tag = Inr roce" "build_ib_underlays client ifs tag = Inr ib"
  shows "load_host_intent client tag = mk_host_intent tag (str_opt (nbd_name device)) r ns b vs roce ib"
  using assms by (simp add: load_host_intent_def)

lemma build_roce_underlays_Inr:
  assumes "build_roce_underlays client ifs tag = Inr us"
  shows "u \<in> set us \<Longrightarrow> wf_sriov u"
    and "map nic_name us = sort (map nbi_name (filter is_roce_iface ifs))"
proof -
  obtain ms where ms: "rmap (build_roce client tag) (filter is_roce_iface ifs) = Inr ms"
    and us: "us = sort_key nic_name ms"
    using assms by (auto simp: build_roce_underlays_def rbind_eq_Inr)
  show "u \<in> set us \<Longrightarrow> wf_sriov u"
    using roce_builder.all_good [OF ms] us by simp
  have "map nic_name us = sort (map nic_name ms)"
    unfolding us by (rule map_sort_key)
  then show "map nic_name us = sort (map nbi_name (filter is_roce_iface ifs))"
    by (simp only: roce_builder.names [OF ms])
qed

lemma build_ib_underlays_Inr:
  assumes "build_ib_underlays client ifs tag = Inr us"
  shows "u \<in> set us \<Longrightarrow> wf_phys u"
    and "map nic_name us = sort (map nbi_name (filter is_ib_iface ifs))"
proof -
  obtain ms where ms: "rmap (build_ib client tag) (filter is_ib_iface ifs) = Inr ms"
    and us: "us = sort_key nic_name ms"
    using assms by (auto simp: build_ib_underlays_def rbind_eq_Inr)
  show "u \<in> set us \<Longrightarrow> wf_phys u"
    using ib_builder.all_good [OF ms] us by simp
  have "map nic_name us = sort (map nic_name ms)"
    unfolding us by (rule map_sort_key)
  then show "map nic_name us = sort (map nbi_name (filter is_ib_iface ifs))"
    by (simp only: ib_builder.names [OF ms])
qed

lemma derive_gateway_total:
  assumes "if_plen a \<le> 32"
  shows "derive_gateway a = Inr (word_of_nat (fst (hosts_range a)))"
  using hosts_range_nonempty [OF assms] by (cases "hosts_range a") (simp add: derive_gateway_def)

lemma fetch_single_ip_Inr:
  "fetch_single_ip client iface tag = Inr a \<longleftrightarrow>
     (\<exists>s. nb_list_ips client (nbi_id iface) = Inr [s] \<and> parse_interface s = Inr a)"
  by (auto simp: fetch_single_ip_def length_Suc_conv split: sum.splits)

lemma build_vlan_Inr:
  assumes "build_vlan client tag iface = Inr v"
  shows "vlan_name v = nbi_name iface \<and> vlan_parent v = BOND_NAME
     \<and> (\<exists>w. nbi_untagged_vlan iface = Some w \<and> nbv_vid w = vlan_id v
            \<and> nbv_name w = Some (vlan_role_value (vlan_role v)))
     \<and> vlan_mtu v = read_mtu iface 1500
     \<and> (\<exists>s. nb_list_ips client (nbi_id iface) = Inr [s] \<and> parse_interface s = Inr (vlan_address v))
     \<and> vlan_gateway v = (if vlan_role v = MGMT
          then Some (word_of_nat (fst (hosts_range (vlan_address v)))) else None)"
proof -
  obtain vid r a gw where steps: "read_vlan_id iface tag = Inr vid" "read_vlan_role iface tag = Inr r"
      "fetch_single_ip client iface tag = Inr a"
      "(if r = MGMT then rbind (derive_gateway a) (\<lambda>g. Inr (Some g)) else Inr None) = Inr gw"
      "mk_vlan_child (nbi_name iface) BOND_NAME vid r (read_mtu iface 1500) a gw [] None = Inr v"
    using assms by (auto simp: build_vlan_def Let_def rbind_eq_Inr)
  have plen: "if_plen a \<le> 32"
    using steps(3) by (auto simp: fetch_single_ip_Inr dest: parse_interface_plen)
  have gw: "gw = (if r = MGMT then Some (word_of_nat (fst (hosts_range a))) else None)"
    using steps(4) derive_gateway_total [OF plen] by (simp split: if_splits)
  have "\<exists>w. nbi_untagged_vlan iface = Some w \<and> nbv_vid w = vid \<and> nbv_name w = Some (vlan_role_value r)"
    using steps(1,2)
    by (auto simp: read_vlan_id_def read_vlan_role_def Let_def vlan_role_of_def all_vlan_roles_def
        vlan_role_value_def split: option.splits if_splits)
  then show ?thesis
    using steps(3,5) gw by (auto simp: mk_vlan_child_Inr fetch_single_ip_Inr)
qed

lemma load_wf_intent: "load_host_intent client tag = Inr i \<Longrightarrow> wf_intent i"
proof (erule load_host_intentE)
  fix device ifs
  assume parts: "build_ns_nics ifs tag = Inr (ns_nics i)"
    "build_bond ifs (ns_nics i) tag = Inr (host_bond i)"
    "build_vlans client ifs tag = Inr (vlans i)"
    "build_roce_underlays client ifs tag = Inr (roce_underlays i)"
    "build_ib_underlays client ifs tag = Inr (ib_underlays i)"
    and ok: "len_in 1 64 (asset_tag i)" "len_in 1 253 (hostname i)" "renderable i"
  have "wf_vlan v" if "v \<in> set (vlans i)" for v
    using vlan_builder.all_good [OF parts(3) [unfolded build_vlans_def] that] .
  then show "wf_intent i"
    using parts ok
    by (auto simp: wf_intent_def dest: build_ns_nics_Inr(2) build_bond_Inr build_roce_underlays_Inr(1)
        build_ib_underlays_Inr(1))
qed


section \<open>What a failed load raises\<close>

text \<open>The errors the loader means to raise: typed, and naming the asset they are about.\<close>

definition typed_load_error :: "string \<Rightarrow> exn \<Rightarrow> bool" where
  "typed_load_error tag e = (case e of
      HostNotFoundError t \<Rightarrow> t = tag
    | NetboxQueryError _ _ t \<Rightarrow> t = Some tag
    | InvariantError _ _ \<Rightarrow> True
    | _ \<Rightarrow> False)"

text \<open>
  Field values that pass the declared bounds of the models. Structure (which interfaces
  exist, how many addresses they have, which VLAN they carry) is not restricted.
\<close>

definition iface_fields_ok :: "nb_client \<Rightarrow> nb_iface \<Rightarrow> bool" where
  "iface_fields_ok client i \<longleftrightarrow>
     len_in 1 15 (nbi_name i)
     \<and> (\<forall>m. nbi_mtu i = Some m \<longrightarrow> int_in MIN_MTU MAX_MTU m)
     \<and> (\<forall>tag mac. read_mac i tag = Inr mac \<longrightarrow> is_ok (validate_mac (PyStr mac)))
     \<and> (\<forall>v. nbi_untagged_vlan i = Some v \<longrightarrow> int_in MIN_VLAN_ID MAX_VLAN_ID (nbv_vid v))
     \<and> (\<forall>ss s. nb_list_ips client (nbi_id i) = Inr ss \<longrightarrow> s \<in> set ss \<longrightarrow> is_ok (parse_interface s))
     \<and> (\<exists>n. read_sriov_vfs i 16 = Inr n \<and> int_in 0 128 n)"

definition netbox_fields_ok :: "nb_client \<Rightarrow> string \<Rightarrow> bool" where
  "netbox_fields_ok client tag \<longleftrightarrow> len_in 1 64 tag \<and>
     (\<forall>device. nb_get_device client tag = Inr (Some device) \<longrightarrow>
        len_in 1 253 (str_opt (nbd_name device)) \<and>
        (\<forall>ifs. nb_list_interfaces client (nbd_id device) = Inr ifs \<longrightarrow>
           (\<forall>i \<in> set ifs. iface_fields_ok client i)))"

lemma typed_query_value_error [simp]: "typed_load_error tag (query_value_error op msg tag)"
  by (simp add: typed_load_error_def query_value_error_def)

lemma typed_query_error [simp]: "typed_load_error tag (NetboxQueryError op c (Some tag))"
  by (simp add: typed_load_error_def)

lemma typed_is_host_config_error: "typed_load_error tag e \<Longrightarrow> is_host_config_error e"
  by (cases e) (simp_all add: typed_load_error_def is_host_config_error_def exn_class_defs)

lemma typed_fetch:
  "fetch_device client tag = Inl e \<Longrightarrow> typed_load_error tag e"
  "fetch_interfaces client device tag = Inl e \<Longrightarrow> typed_load_error tag e"
  "parse_role device tag = Inl e \<Longrightarrow> typed_load_error tag e"
  by (auto simp: fetch_device_def fetch_interfaces_def parse_role_def typed_load_error_def
      query_value_error_def split: sum.splits option.splits if_splits)

lemma typed_read:
  "read_mac i tag = Inl e \<Longrightarrow> typed_load_error tag e"
  "read_vlan_id i tag = Inl e \<Longrightarrow> typed_load_error tag e"
  "read_vlan_role i tag = Inl e \<Longrightarrow> typed_load_error tag e"
  by (auto simp: read_mac_def read_vlan_id_def read_vlan_role_def Let_def
      split: option.splits)

lemma typed_fetch_single_ip:
  assumes "iface_fields_ok client i" and "fetch_single_ip client i tag = Inl e"
  shows "typed_load_error tag e"
  using assms
  by (auto simp: fetch_single_ip_def iface_fields_ok_def is_ok_iff length_Suc_conv
      split: sum.splits if_splits)

lemma read_mtu_ok:
  "iface_fields_ok client i \<Longrightarrow> int_in MIN_MTU MAX_MTU d \<Longrightarrow> int_in MIN_MTU MAX_MTU (read_mtu i d)"
  by (auto simp: iface_fields_ok_def read_mtu_def split: option.splits)

lemma dflt_mtu_ok [simp]:
  "int_in MIN_MTU MAX_MTU 9000" "int_in MIN_MTU MAX_MTU 1500" "int_in MIN_MTU MAX_MTU 2044"
  by (simp_all add: int_in_def MIN_MTU_def MAX_MTU_def)

lemma typed_build_ns_nic:
  assumes ok: "\<forall>i \<in> set ifs. iface_fields_ok client i" and e: "build_ns_nic ifs tag name = Inl e"
  shows "typed_load_error tag e"
proof (cases "iface_named ifs name")
  case None
  then show ?thesis using e by (auto simp: build_ns_nic_def)
next
  case (Some i)
  then have i: "iface_fields_ok client i" "nbi_name i = name" using ok iface_named_Some by blast+
  have len: "len_in 1 15 name" and mac: "\<And>m. read_mac i tag = Inr m \<Longrightarrow> \<exists>c. validate_mac (PyStr m) = Inr c"
    using i by (auto simp: iface_fields_ok_def is_ok_iff)
  show ?thesis
    using e Some len mac read_mtu_ok [OF i(1)] typed_read(1)
    by (auto simp: build_ns_nic_def rbind_eq_Inl mk_bond_member_def phys_fields_def
        validate_fields_def is_ok_iff)
qed

lemma typed_build_bond:
  assumes ok: "\<forall>i \<in> set ifs. iface_fields_ok client i" and ns: "map nic_name ns = NS_NIC_NAMES"
    and e: "build_bond ifs ns tag = Inl e"
  shows "typed_load_error tag e"
proof (cases "iface_named ifs BOND_NAME")
  case None
  then show ?thesis using e by (auto simp: build_bond_def)
next
  case (Some i)
  then have "iface_fields_ok client i" using ok iface_named_Some by blast
  then show ?thesis
    using e Some ns read_mtu_ok [of client i 9000]
    by (auto simp: build_bond_def mk_bond_def validate_fields_def len_in_def BOND_NAME_def
        NS_NIC_NAMES_def)
qed

lemma typed_build_vlan:
  assumes ok: "iface_fields_ok client i" and e: "build_vlan client tag i = Inl e"
  shows "typed_load_error tag e"
proof -
  have vid: "int_in MIN_VLAN_ID MAX_VLAN_ID n" if "read_vlan_id i tag = Inr n" for n
    using ok that by (auto simp: iface_fields_ok_def read_vlan_id_def split: option.splits)
  have gw: "derive_gateway a \<noteq> Inl x" if "fetch_single_ip client i tag = Inr a" for a x
    using that derive_gateway_total [of a] parse_interface_plen by (auto simp: fetch_single_ip_Inr)
  have len: "len_in 1 15 (nbi_name i)" using ok by (simp add: iface_fields_ok_def)
  show ?thesis
    using e typed_read(2,3) typed_fetch_single_ip [OF ok] vid gw len read_mtu_ok [OF ok]
    by (auto simp: build_vlan_def Let_def rbind_eq_Inl mk_vlan_child_def validate_fields_def
        BOND_NAME_def len_in_def split: if_splits)
qed

lemma typed_build_roce:
  assumes ok: "iface_fields_ok client i" and e: "build_roce client tag i = Inl e"
  shows "typed_load_error tag e"
proof -
  have len: "len_in 1 15 (nbi_name i)" and mac: "\<And>m. read_mac i tag = Inr m \<Longrightarrow> \<exists>c. validate_mac (PyStr m) = Inr c"
    and vfs: "\<exists>n. read_sriov_vfs i 16 = Inr n \<and> int_in 0 128 n"
    using ok by (auto simp: iface_fields_ok_def is_ok_iff)
  show ?thesis
    using e len mac vfs read_mtu_ok [OF ok] typed_read(1) typed_fetch_single_ip [OF ok]
    by (auto simp: build_roce_def Let_def rbind_eq_Inl mk_roce_underlay_def phys_fields_def
        validate_fields_def is_ok_iff)
qed

lemma typed_build_ib:
  assumes ok: "iface_fields_ok client i" and e: "build_ib client tag i = Inl e"
  shows "typed_load_error tag e"
proof -
  have len: "len_in 1 15 (nbi_name i)" and mac: "\<And>m. read_mac i tag = Inr m \<Longrightarrow> \<exists>c. validate_mac (PyStr m) = Inr c"
    using ok by (auto simp: iface_fields_ok_def is_ok_iff)
  show ?thesis
    using e len mac read_mtu_ok [OF ok] typed_read(1) typed_fetch_single_ip [OF ok]
    by (auto simp: build_ib_def Let_def rbind_eq_Inl mk_infiniband_underlay_def phys_fields_def
        validate_fields_def is_ok_iff)
qed

lemma typed_mk_host_intent:
  assumes "len_in 1 64 tag" "len_in 1 253 host" "mk_host_intent tag host r ns b vs roce ib = Inl e"
  shows "typed_load_error tag e"
proof -
  let ?i = "\<lparr>asset_tag = tag, hostname = host, host_role = r, ns_nics = ns, host_bond = b,
             vlans = vs, roce_underlays = roce, ib_underlays = ib\<rparr>"
  have "check_invariants ?i = Inl e"
    using assms by (auto simp: mk_host_intent_def Let_def rbind_eq_Inl intent_fields_def
        validate_fields_def)
  then have "\<exists>c d. e = InvariantError c d"
    using check_invariants_first_failure [of ?i] by (auto split: option.splits)
  then show ?thesis by (auto simp: typed_load_error_def)
qed

lemma typed_builds:
  assumes ok: "\<forall>i \<in> set ifs. iface_fields_ok client i"
  shows "build_ns_nics ifs tag = Inl e \<Longrightarrow> typed_load_error tag e"
    and "build_vlans client ifs tag = Inl e \<Longrightarrow> typed_load_error tag e"
    and "build_roce_underlays client ifs tag = Inl e \<Longrightarrow> typed_load_error tag e"
    and "build_ib_underlays client ifs tag = Inl e \<Longrightarrow> typed_load_error tag e"
  using typed_build_ns_nic [OF ok] typed_build_vlan typed_build_roce typed_build_ib ok
  by (auto simp: build_ns_nics_def build_vlans_def build_roce_underlays_def
      build_ib_underlays_def rbind_eq_Inl dest!: rmap_Inl) blast+

lemma load_typed_error:
  assumes ok: "netbox_fields_ok client tag" and e: "load_host_intent client tag = Inl e"
  shows "typed_load_error tag e"
proof -
  have tag: "len_in 1 64 tag" using ok by (simp add: netbox_fields_ok_def)
  have host: "len_in 1 253 (str_opt (nbd_name device))" if "fetch_device client tag = Inr device" for device
    using ok that by (auto simp: netbox_fields_ok_def fetch_device_def split: sum.splits option.splits)
  have ifs: "\<forall>i \<in> set ifs. iface_fields_ok client i"
    if "fetch_device client tag = Inr device" "fetch_interfaces client device tag = Inr ifs"
    for device ifs
    using ok that by (auto simp: netbox_fields_ok_def fetch_device_def fetch_interfaces_def
        split: sum.splits option.splits)
  show ?thesis
    using e unfolding load_host_intent_def rbind_eq_Inl
    by (elim disjE exE conjE)
      (erule typed_fetch typed_builds [OF ifs, rotated -1]
        typed_build_bond [OF ifs build_ns_nics_Inr(1), rotated -1]
        typed_mk_host_intent [OF tag host, rotated -1]; assumption)+
qed

end
