(* ===== verification/Emitter.thy ===== *)
theory Emitter
  imports Intent
begin

text \<open>
  The renderer (src/host_config/render/emitter.py). A host intent is projected to a
  template context whose list fields are put into a canonical order, the template
  \<open><role>/<file kind>.j2\<close> of the environment is rendered with it and the text is encoded as
  UTF-8. The environment is Jinja's and a parameter: it maps a template path to the
  template's function, if the path has one. A clock value is carried into the context.
\<close>

datatype file_kind = META_DATA | USER_DATA | NETWORK_CONFIG

definition all_kinds :: "file_kind list" where
  "all_kinds = [META_DATA, USER_DATA, NETWORK_CONFIG]"

definition kind_value :: "file_kind \<Rightarrow> string" where
  "kind_value k = (case k of
      META_DATA \<Rightarrow> ''meta-data'' | USER_DATA \<Rightarrow> ''user-data'' | NETWORK_CONFIG \<Rightarrow> ''network-config'')"

definition kind_of :: "string \<Rightarrow> file_kind option" where
  "kind_of s = find (\<lambda>k. kind_value k = s) all_kinds"

text \<open>\<open>FileKind | str\<close>, and the coercion \<open>FileKind(file_kind)\<close> that \<open>render_for\<close> starts with.\<close>

datatype kind_arg = Kind file_kind | KindName string

definition to_kind :: "kind_arg \<Rightarrow> exn + file_kind" where
  "to_kind a = (case a of
      Kind k \<Rightarrow> Inr k
    | KindName s \<Rightarrow> (case kind_of s of
          None \<Rightarrow> Inl (ValueError (repr_str s @ '' is not a valid FileKind''))
        | Some k \<Rightarrow> Inr k))"

definition canonicalize :: "host_intent \<Rightarrow> host_intent" where
  "canonicalize intent = intent\<lparr>
     ns_nics := sort_key nic_name (ns_nics intent),
     vlans := sort_key vlan_id (vlans intent),
     roce_underlays := sort_key nic_name (roce_underlays intent),
     ib_underlays := sort_key nic_name (ib_underlays intent),
     host_bond := (host_bond intent)\<lparr>bond_members := sort (bond_members (host_bond intent))\<rparr>\<rparr>"

record 't context_data =
  ctx_intent :: host_intent
  ctx_now :: 't

type_synonym utext = "nat list"

definition utext_of :: "string \<Rightarrow> utext" where
  "utext_of s = map of_char s"

type_synonym 't environment = "string \<Rightarrow> ('t context_data \<Rightarrow> exn + utext) option"

definition template_path :: "role \<Rightarrow> file_kind \<Rightarrow> string" where
  "template_path r k = role_value r @ ''/'' @ kind_value k @ ''.j2''"

definition get_template :: "'t environment \<Rightarrow> string \<Rightarrow> exn + ('t context_data \<Rightarrow> exn + utext)" where
  "get_template env path = (case env path of
      None \<Rightarrow> Inl (ExternalError (''TemplateNotFound: '' @ path))
    | Some t \<Rightarrow> Inr t)"

text \<open>
  Rendered text is a Python string: the list of its code points. \<open>str.encode('utf-8')\<close> refuses
  a surrogate and writes every other code point in one to four bytes.
\<close>

definition utf8_point :: "nat \<Rightarrow> 8 word list" where
  "utf8_point n =
     (if n < 0x80 then [word_of_nat n]
      else if n < 0x800 then [word_of_nat (0xC0 + n div 64), word_of_nat (0x80 + n mod 64)]
      else if n < 0x10000
      then [word_of_nat (0xE0 + n div 4096), word_of_nat (0x80 + n div 64 mod 64),
            word_of_nat (0x80 + n mod 64)]
      else [word_of_nat (0xF0 + n div 262144), word_of_nat (0x80 + n div 4096 mod 64),
            word_of_nat (0x80 + n div 64 mod 64), word_of_nat (0x80 + n mod 64)])"

definition utf8_bytes :: "utext \<Rightarrow> 8 word list" where
  "utf8_bytes t = concat (map utf8_point t)"

definition surrogate :: "nat \<Rightarrow> bool" where
  "surrogate n \<longleftrightarrow> 0xD800 \<le> n \<and> n \<le> 0xDFFF"

definition utf8_encode :: "utext \<Rightarrow> exn + 8 word list" where
  "utf8_encode t =
     (if list_ex surrogate t then Inl (ExternalError ''UnicodeEncodeError: surrogates not allowed'')
      else Inr (utf8_bytes t))"

definition render_text :: "'t environment \<Rightarrow> 't \<Rightarrow> host_intent \<Rightarrow> file_kind \<Rightarrow> exn + utext" where
  "render_text env when intent kind =
     rbind (get_template env (template_path (host_role intent) kind)) (\<lambda>template.
     template \<lparr>ctx_intent = canonicalize intent, ctx_now = when\<rparr>)"

definition render_for ::
  "'t environment \<Rightarrow> 't \<Rightarrow> host_intent \<Rightarrow> kind_arg \<Rightarrow> 't option \<Rightarrow> exn + 8 word list" where
  "render_for env clock intent kind now =
     rbind (to_kind kind) (\<lambda>k.
     let when = (case now of None \<Rightarrow> clock | Some t \<Rightarrow> t) in
     rbind (render_text env when intent k) utf8_encode)"


section \<open>Canonical order\<close>

text \<open>
  What the renderer relies on for byte-stable output, stated for any field: the canonical
  list is a sorted permutation, so it is the same for any two orders of the same elements
  as soon as their keys differ.
\<close>

locale canonical_order =
  fixes canon :: "'a list \<Rightarrow> 'a list" and key :: "'a \<Rightarrow> 'k::linorder"
  assumes perm: "mset (canon xs) = mset xs"
    and ordered: "sorted (map key (canon xs))"
begin

lemma set_canon: "set (canon xs) = set xs"
  by (metis perm set_mset_mset)

lemma keys_canon: "map key (canon xs) = sort (map key xs)"
  by (rule properties_for_sort [symmetric]) (simp_all add: perm ordered)

lemma order_free:
  assumes "mset xs = mset ys" and "inj_on key (set xs)"
  shows "canon xs = canon ys"
proof (rule map_inj_on [of key])
  show "map key (canon xs) = map key (canon ys)"
    unfolding keys_canon using assms(1) by (metis mset_map properties_for_sort mset_sort sorted_sort)
  have "set xs = set ys" using assms(1) by (rule mset_eq_setD)
  then show "inj_on key (set (canon xs) \<union> set (canon ys))"
    using assms(2) by (simp add: set_canon)
qed

lemma length_canon: "length (canon xs) = length xs"
  by (metis perm size_mset)

end

interpretation nics_order: canonical_order "sort_key nic_name" nic_name
  by unfold_locales simp_all

interpretation vlans_order: canonical_order "sort_key vlan_id" vlan_id
  by unfold_locales simp_all

interpretation members_order: canonical_order sort "\<lambda>m::string. m"
  by unfold_locales simp_all

lemma canonicalize_simps [simp]:
  "asset_tag (canonicalize i) = asset_tag i" "hostname (canonicalize i) = hostname i"
  "host_role (canonicalize i) = host_role i"
  "ns_nics (canonicalize i) = sort_key nic_name (ns_nics i)"
  "vlans (canonicalize i) = sort_key vlan_id (vlans i)"
  "roce_underlays (canonicalize i) = sort_key nic_name (roce_underlays i)"
  "ib_underlays (canonicalize i) = sort_key nic_name (ib_underlays i)"
  "bond_members (host_bond (canonicalize i)) = sort (bond_members (host_bond i))"
  "bond_name (host_bond (canonicalize i)) = bond_name (host_bond i)"
  "bond_mtu (host_bond (canonicalize i)) = bond_mtu (host_bond i)"
  "bond_mode (host_bond (canonicalize i)) = bond_mode (host_bond i)"
  "bond_lacp_rate (host_bond (canonicalize i)) = bond_lacp_rate (host_bond i)"
  "bond_hash_policy (host_bond (canonicalize i)) = bond_hash_policy (host_bond i)"
  by (simp_all add: canonicalize_def)

lemma canonicalize_idem: "canonicalize (canonicalize i) = canonicalize i"
  by (simp add: canonicalize_def sort_key_id_if_sorted)

text \<open>The same host, whatever order the lists came in.\<close>

definition same_up_to_order :: "host_intent \<Rightarrow> host_intent \<Rightarrow> bool" where
  "same_up_to_order i j \<longleftrightarrow>
     asset_tag i = asset_tag j \<and> hostname i = hostname j \<and> host_role i = host_role j
     \<and> (host_bond i)\<lparr>bond_members := []\<rparr> = (host_bond j)\<lparr>bond_members := []\<rparr>
     \<and> mset (bond_members (host_bond i)) = mset (bond_members (host_bond j))
     \<and> mset (ns_nics i) = mset (ns_nics j) \<and> mset (vlans i) = mset (vlans j)
     \<and> mset (roce_underlays i) = mset (roce_underlays j)
     \<and> mset (ib_underlays i) = mset (ib_underlays j)"

lemma sort_mset: "mset xs = mset ys \<Longrightarrow> sort xs = sort (ys :: string list)"
  by (rule members_order.order_free) simp_all

lemma renderable_inj_names:
  assumes "renderable i"
  shows "inj_on nic_name (set (ns_nics i))" "inj_on nic_name (set (roce_underlays i))"
    "inj_on nic_name (set (ib_underlays i))"
  using renderable_names [OF assms] by (auto simp: distinct_map all_names_def)

lemma canonicalize_order_free:
  assumes "same_up_to_order i j" and "renderable i" and "inj_on vlan_id (set (vlans i))"
  shows "canonicalize i = canonicalize j"
proof -
  have s: "mset (bond_members (host_bond i)) = mset (bond_members (host_bond j))"
    "mset (ns_nics i) = mset (ns_nics j)" "mset (vlans i) = mset (vlans j)"
    "mset (roce_underlays i) = mset (roce_underlays j)" "mset (ib_underlays i) = mset (ib_underlays j)"
    and r: "asset_tag i = asset_tag j" "hostname i = hostname j" "host_role i = host_role j"
    and b: "(host_bond i)\<lparr>bond_members := []\<rparr> = (host_bond j)\<lparr>bond_members := []\<rparr>"
    using assms(1) by (auto simp: same_up_to_order_def)
  have "(host_bond i)\<lparr>bond_members := ms\<rparr> = (host_bond j)\<lparr>bond_members := ms\<rparr>" for ms
    using arg_cong [OF b, of "\<lambda>b. b\<lparr>bond_members := ms\<rparr>"] by simp
  then have "host_bond (canonicalize i) = host_bond (canonicalize j)"
    by (simp add: canonicalize_def sort_mset [OF s(1)])
  moreover note nics_order.order_free [OF s(2) renderable_inj_names(1) [OF assms(2)]]
    nics_order.order_free [OF s(4) renderable_inj_names(2) [OF assms(2)]]
    nics_order.order_free [OF s(5) renderable_inj_names(3) [OF assms(2)]]
    vlans_order.order_free [OF s(3) assms(3)]
  ultimately show ?thesis using r by (intro host_intent.equality) simp_all
qed


section \<open>File kinds, encoding and errors\<close>

lemma kind_of_value [simp]: "kind_of (kind_value k) = Some k"
  by (cases k) (simp_all add: kind_of_def kind_value_def all_kinds_def)

lemma kind_of_Some: "kind_of s = Some k \<Longrightarrow> s = kind_value k"
  by (simp add: kind_of_def find_Some_iff) blast

lemma to_kind_name: "to_kind (KindName (kind_value k)) = Inr k"
  by (simp add: to_kind_def)

lemma kind_of_None: "kind_of s = None \<longleftrightarrow> s \<notin> kind_value ` set all_kinds"
  by (auto simp: kind_of_def find_None_iff)

lemma to_kind_Inl: "to_kind a = Inl e \<longleftrightarrow>
    (\<exists>s. a = KindName s \<and> s \<notin> kind_value ` set all_kinds
       \<and> e = ValueError (repr_str s @ '' is not a valid FileKind''))"
  by (cases a) (auto simp: to_kind_def kind_of_None [symmetric] split: option.splits)

lemma surrogate_utext_of [simp]: "\<not> list_ex surrogate (utext_of s)"
proof -
  have "\<not> surrogate (of_char c)" for c
    using nat_of_char_less_256 [of c] unfolding surrogate_def by linarith
  then show ?thesis by (simp add: utext_of_def list_ex_iff)
qed

lemma utf8_ascii: "list_all (\<lambda>c. (of_char c :: nat) < 128) s \<Longrightarrow>
    utf8_bytes (utext_of s) = map (\<lambda>c. word_of_nat (of_char c)) s"
  by (induction s) (simp_all add: utf8_bytes_def utf8_point_def utext_of_def)

lemma render_for_order_free:
  assumes "same_up_to_order i j" "renderable i" "inj_on vlan_id (set (vlans i))"
  shows "render_for env clock i k now = render_for env clock j k now"
  using canonicalize_order_free [OF assms] assms(1)
  by (simp add: render_for_def render_text_def same_up_to_order_def)

end
