(* ===== verification/Templates.thy ===== *)
theory Templates
  imports Emitter
begin

text \<open>
  The Jinja templates of src/host_config/render/templates, as the lines they produce with
  the environment's whitespace settings (a line holding only a tag or a comment produces
  nothing): \<open>meta-data.j2\<close>, \<open>network-config.j2\<close> and the Netplan document that
  \<open>user-data.j2\<close> writes to the host, for every role. The lemmas say which default route a rendered document contains and that the
  two documents a host can receive are the same Netplan configuration.
\<close>

definition bond_mode_value :: "bond_mode \<Rightarrow> string" where
  "bond_mode_value m = (case m of Mode_802_3ad \<Rightarrow> ''802.3ad'')"

definition lacp_rate_value :: "lacp_rate \<Rightarrow> string" where
  "lacp_rate_value r = (case r of LacpFast \<Rightarrow> ''fast'' | LacpSlow \<Rightarrow> ''slow'')"

definition hash_policy_value :: "transmit_hash_policy \<Rightarrow> string" where
  "hash_policy_value p = (case p of
      Layer2 \<Rightarrow> ''layer2'' | Layer2_3 \<Rightarrow> ''layer2+3'' | Layer3_4 \<Rightarrow> ''layer3+4'')"

definition meta_data_lines :: "host_intent \<Rightarrow> string list" where
  "meta_data_lines ctx =
     [''instance-id: '' @ asset_tag ctx, ''local-hostname: '' @ hostname ctx]"


section \<open>network-config.j2\<close>

definition ethernet_lines :: "'a phys_iface_scheme \<Rightarrow> string list" where
  "ethernet_lines nic =
     [''    '' @ nic_name nic @ '':'',
      ''      match:'',
      ''        macaddress: '' @ nic_mac nic,
      ''      set-name: '' @ nic_name nic,
      ''      mtu: '' @ str_int (nic_mtu nic)]"

definition roce_lines :: "roce_underlay \<Rightarrow> string list" where
  "roce_lines nic = ethernet_lines nic @
     [''      addresses:'',
      ''        - '' @ interface_str (roce_address nic),
      ''      virtual-function-count: '' @ str_int (nic_sriov_vfs nic)]"

definition ib_lines :: "infiniband_underlay \<Rightarrow> string list" where
  "ib_lines nic = ethernet_lines nic @
     [''      addresses:'',
      ''        - '' @ interface_str (ib_address nic)]"

definition east_west_lines :: "host_intent \<Rightarrow> string list" where
  "east_west_lines ctx = (case host_role ctx of
      CPU \<Rightarrow> []
    | GPU_B300 \<Rightarrow> concat (map roce_lines (roce_underlays ctx))
    | GPU_B200 \<Rightarrow> concat (map roce_lines (roce_underlays ctx))
    | GPU_H200 \<Rightarrow> concat (map ib_lines (ib_underlays ctx)))"

definition bond_lines :: "bond \<Rightarrow> string list" where
  "bond_lines b =
     [''    '' @ bond_name b @ '':'',
      ''      interfaces:''] @
     map (\<lambda>m. ''        - '' @ m) (bond_members b) @
     [''      mtu: '' @ str_int (bond_mtu b),
      ''      parameters:'',
      ''        mode: '' @ bond_mode_value (bond_mode b),
      ''        lacp-rate: '' @ lacp_rate_value (bond_lacp_rate b),
      ''        transmit-hash-policy: '' @ hash_policy_value (bond_hash_policy b)]"

definition gateway_lines :: "32 word option \<Rightarrow> string list" where
  "gateway_lines g = (case g of
      None \<Rightarrow> []
    | Some w \<Rightarrow> [''      routes:'', ''        - to: default'', ''          via: '' @ ipv4_str w])"

definition dns_lines :: "32 word list \<Rightarrow> string option \<Rightarrow> string list" where
  "dns_lines dns search =
     (if dns = [] then []
      else [''      nameservers:'', ''        addresses:''] @
           map (\<lambda>ns. ''          - '' @ ipv4_str ns) dns @
           (case search of None \<Rightarrow> []
            | Some d \<Rightarrow> [''        search:'', ''          - '' @ d]))"

definition vlan_lines :: "vlan_child \<Rightarrow> string list" where
  "vlan_lines vlan =
     [''    '' @ vlan_name vlan @ '':'',
      ''      id: '' @ str_int (vlan_id vlan),
      ''      link: '' @ vlan_parent vlan,
      ''      mtu: '' @ str_int (vlan_mtu vlan),
      ''      addresses:'',
      ''        - '' @ interface_str (vlan_address vlan)] @
     gateway_lines (vlan_gateway vlan) @ dns_lines (vlan_dns vlan) (vlan_search_domain vlan)"

definition network_config_lines :: "host_intent \<Rightarrow> string list" where
  "network_config_lines ctx =
     [''network:'', ''  version: 2'', ''  renderer: networkd'', '''', ''  ethernets:''] @
     concat (map ethernet_lines (ns_nics ctx)) @ east_west_lines ctx @
     ['''', ''  bonds:''] @ bond_lines (host_bond ctx) @
     ['''', ''  vlans:''] @ concat (map vlan_lines (vlans ctx))"


section \<open>The Netplan document inside user-data.j2\<close>

definition ud_ethernet_lines :: "'a phys_iface_scheme \<Rightarrow> string list" where
  "ud_ethernet_lines nic =
     [''          '' @ nic_name nic @ '':'',
      ''            match:'',
      ''              macaddress: '' @ nic_mac nic,
      ''            set-name: '' @ nic_name nic,
      ''            mtu: '' @ str_int (nic_mtu nic)]"

definition ud_east_west_lines :: "host_intent \<Rightarrow> string list" where
  "ud_east_west_lines ctx =
     (let roce = concat (map (\<lambda>nic. ud_ethernet_lines nic @
            [''            addresses:'',
             ''              - '' @ interface_str (roce_address nic),
             ''            virtual-function-count: '' @ str_int (nic_sriov_vfs nic)])
            (roce_underlays ctx));
          ib = concat (map (\<lambda>nic. ud_ethernet_lines nic @
            [''            addresses:'',
             ''              - '' @ interface_str (ib_address nic)])
            (ib_underlays ctx))
      in case host_role ctx of CPU \<Rightarrow> [] | GPU_B300 \<Rightarrow> roce | GPU_B200 \<Rightarrow> roce | GPU_H200 \<Rightarrow> ib)"

definition ud_bond_lines :: "bond \<Rightarrow> string list" where
  "ud_bond_lines b =
     [''          '' @ bond_name b @ '':'',
      ''            interfaces:''] @
     map (\<lambda>m. ''              - '' @ m) (bond_members b) @
     [''            mtu: '' @ str_int (bond_mtu b),
      ''            parameters:'',
      ''              mode: '' @ bond_mode_value (bond_mode b),
      ''              lacp-rate: '' @ lacp_rate_value (bond_lacp_rate b),
      ''              transmit-hash-policy: '' @ hash_policy_value (bond_hash_policy b)]"

definition ud_vlan_lines :: "vlan_child \<Rightarrow> string list" where
  "ud_vlan_lines vlan =
     [''          '' @ vlan_name vlan @ '':'',
      ''            id: '' @ str_int (vlan_id vlan),
      ''            link: '' @ vlan_parent vlan,
      ''            mtu: '' @ str_int (vlan_mtu vlan),
      ''            addresses:'',
      ''              - '' @ interface_str (vlan_address vlan)] @
     (case vlan_gateway vlan of None \<Rightarrow> []
      | Some w \<Rightarrow> [''            routes:'', ''              - to: default'',
                   ''                via: '' @ ipv4_str w]) @
     (if vlan_dns vlan = [] then []
      else [''            nameservers:'', ''              addresses:''] @
           map (\<lambda>ns. ''                - '' @ ipv4_str ns) (vlan_dns vlan) @
           (case vlan_search_domain vlan of None \<Rightarrow> []
            | Some d \<Rightarrow> [''              search:'', ''                - '' @ d]))"

definition user_data_netplan_lines :: "host_intent \<Rightarrow> string list" where
  "user_data_netplan_lines ctx =
     [''      network:'', ''        version: 2'', ''        renderer: networkd'',
      ''        ethernets:''] @
     concat (map ud_ethernet_lines (ns_nics ctx)) @ ud_east_west_lines ctx @
     [''        bonds:''] @ ud_bond_lines (host_bond ctx) @
     [''        vlans:''] @ concat (map ud_vlan_lines (vlans ctx))"


section \<open>The two Netplan documents of a host\<close>

definition embedded :: "string list \<Rightarrow> string list" where
  "embedded ls = map (\<lambda>l. ''      '' @ l) (filter (\<lambda>l. l \<noteq> '''') ls)"

lemma embedded_simps:
  "embedded [] = []" "embedded ('''' # ls) = embedded ls"
  "embedded ((c # l) # ls) = (''      '' @ c # l) # embedded ls"
  "embedded (xs @ ys) = embedded xs @ embedded ys"
  "embedded (concat (map f zs)) = concat (map (\<lambda>z. embedded (f z)) zs)"
  "embedded (map (\<lambda>m. (c # g m)) ms) = map (\<lambda>m. ''      '' @ c # g m) ms"
  by (auto simp: embedded_def map_concat filter_concat o_def intro!: arg_cong [where f = concat])

lemma embedded_stanzas:
  "embedded (ethernet_lines nic) = ud_ethernet_lines nic"
  "embedded (bond_lines b) = ud_bond_lines b"
  "embedded (vlan_lines v) = ud_vlan_lines v"
  by (simp_all add: ethernet_lines_def ud_ethernet_lines_def bond_lines_def ud_bond_lines_def
      vlan_lines_def ud_vlan_lines_def gateway_lines_def dns_lines_def embedded_simps
      split: option.splits)

lemma embedded_east_west: "embedded (east_west_lines ctx) = ud_east_west_lines ctx"
  by (cases "host_role ctx")
     (simp_all add: east_west_lines_def ud_east_west_lines_def Let_def roce_lines_def ib_lines_def
      embedded_simps embedded_stanzas)

lemma embedded_network_config:
  "user_data_netplan_lines ctx = embedded (network_config_lines ctx)"
  by (simp add: user_data_netplan_lines_def network_config_lines_def embedded_simps
      embedded_stanzas embedded_east_west)


section \<open>Default routes of a rendered document\<close>

definition via_line :: "string \<Rightarrow> bool" where
  "via_line l \<longleftrightarrow> starts_with ''          via: '' l"

definition plain_name :: "string \<Rightarrow> bool" where
  "plain_name n \<longleftrightarrow> n \<noteq> '''' \<and> hd n \<noteq> CHR '' ''"

definition plain_names :: "host_intent \<Rightarrow> bool" where
  "plain_names i \<longleftrightarrow> list_all plain_name
     (bond_name (host_bond i) # map nic_name (ns_nics i) @ map nic_name (roce_underlays i)
      @ map nic_name (ib_underlays i) @ map vlan_name (vlans i))"

lemma via_line_name: "plain_name n \<Longrightarrow> \<not> via_line (''    '' @ n @ m)"
  by (cases n) (auto simp: via_line_def plain_name_def starts_with_def)

lemma no_via_stanzas:
  "plain_name (nic_name nic) \<Longrightarrow> filter via_line (ethernet_lines nic) = []"
  "plain_name (bond_name b) \<Longrightarrow> filter via_line (bond_lines b) = []"
  "plain_name (nic_name r) \<Longrightarrow> filter via_line (roce_lines r) = []"
  "plain_name (nic_name u) \<Longrightarrow> filter via_line (ib_lines u) = []"
  "filter via_line (dns_lines dns search) = []"
  using via_line_name [of "nic_name nic" "'':''"] via_line_name [of "bond_name b" "'':''"]
    via_line_name [of "nic_name r" "'':''"] via_line_name [of "nic_name u" "'':''"]
  by (auto simp: ethernet_lines_def bond_lines_def roce_lines_def ib_lines_def dns_lines_def
      filter_map o_def via_line_def starts_with_def split: option.splits)

lemma via_vlan_lines:
  assumes "plain_name (vlan_name v)"
  shows "filter via_line (vlan_lines v) =
    (case vlan_gateway v of None \<Rightarrow> [] | Some g \<Rightarrow> [''          via: '' @ ipv4_str g])"
  using via_line_name [OF assms, of "'':''"]
  by (auto simp: vlan_lines_def gateway_lines_def no_via_stanzas via_line_def starts_with_def
      split: option.splits)

lemma filter_concat_none:
  "(\<And>x. x \<in> set xs \<Longrightarrow> filter P (f x) = []) \<Longrightarrow> filter P (concat (map f xs)) = []"
  by (induction xs) auto

lemma via_network_config:
  assumes "plain_names ctx"
  shows "filter via_line (network_config_lines ctx) =
    concat (map (\<lambda>v. case vlan_gateway v of None \<Rightarrow> [] | Some g \<Rightarrow> [''          via: '' @ ipv4_str g])
      (vlans ctx))"
proof -
  have "filter via_line (east_west_lines ctx) = []"
    using assms by (cases "host_role ctx")
      (auto simp: east_west_lines_def plain_names_def list_all_iff no_via_stanzas
        simp del: filter_concat intro!: filter_concat_none)
  moreover have "filter via_line (concat (map ethernet_lines (ns_nics ctx))) = []"
    using assms by (intro filter_concat_none no_via_stanzas) (simp add: plain_names_def list_all_iff)
  moreover have "filter via_line (concat (map vlan_lines vs)) =
    concat (map (\<lambda>v. case vlan_gateway v of None \<Rightarrow> [] | Some g \<Rightarrow> [''          via: '' @ ipv4_str g]) vs)"
    if "set vs \<subseteq> set (vlans ctx)" for vs
    using that assms by (induction vs) (auto simp: via_vlan_lines plain_names_def list_all_iff)
  moreover have "filter via_line (bond_lines (host_bond ctx)) = []"
    using assms by (intro no_via_stanzas) (simp add: plain_names_def)
  ultimately show ?thesis
    by (simp add: network_config_lines_def) (simp add: via_line_def starts_with_def)
qed

end
