(* ===== verification/User_Data.thy ===== *)
theory User_Data
  imports Templates
begin

text \<open>
  The \<open>user-data.j2\<close> templates of every role and the committed template tree as an
  environment of the renderer: any file of any host renders, to the lines of its template.
  The comments of the GPU templates hold a dash outside ASCII, so their lines are lists of
  code points.
\<close>

definition plain :: "string list \<Rightarrow> utext list" where
  "plain ls = map utext_of ls"

lemma plain_append: "plain (ls @ ms) = plain ls @ plain ms"
  by (simp add: plain_def)

definition text_lines :: "utext list \<Rightarrow> utext" where
  "text_lines ls = concat (map (\<lambda>l. l @ [10]) ls)"

definition EM_DASH :: nat where "EM_DASH = 0x2014"


section \<open>user-data.j2\<close>

definition netplan_file_lines :: "host_intent \<Rightarrow> string list" where
  "netplan_file_lines ctx =
     [''  - path: /etc/netplan/60-lab.yaml'',
      ''    permissions: '' @ [CHR 0x27] @ ''0600'' @ [CHR 0x27],
      ''    owner: root:root'',
      ''    content: |''] @
     user_data_netplan_lines ctx"

definition cpu_user_data_lines :: "host_intent \<Rightarrow> string list" where
  "cpu_user_data_lines ctx =
     [''#cloud-config'',
      ''hostname: '' @ hostname ctx,
      ''fqdn: '' @ hostname ctx,
      ''manage_etc_hosts: true'',
      '''',
      ''preserve_hostname: false'',
      '''',
      ''write_files:''] @
     netplan_file_lines ctx @
     ['''', ''runcmd:'', ''  - netplan apply'']"

definition gpu_identity_lines :: "host_intent \<Rightarrow> string list" where
  "gpu_identity_lines ctx =
     [''#cloud-config'',
      ''hostname: '' @ hostname ctx,
      ''fqdn: '' @ hostname ctx,
      ''manage_etc_hosts: true'',
      ''preserve_hostname: false'',
      '''']"

text \<open>The RoCE roles\<close>

definition roce_limits_lines :: "string list" where
  "roce_limits_lines =
     [''write_files:'',
      ''  - path: /etc/security/limits.d/rdma.conf'',
      ''    owner: root:root'',
      ''    permissions: '' @ [CHR 0x22] @ ''0644'' @ [CHR 0x22],
      ''    content: |'',
      ''      # Unlimited locked memory for RDMA / Soft-RoCE (rdma_rxe).'',
      ''      # Required for ibv_reg_mr to succeed with large buffers.'',
      ''      * hard memlock unlimited'',
      ''      * soft memlock unlimited'',
      '''']"

definition roce_install_lines :: "utext list" where
  "roce_install_lines =
     plain ['''',
      ''runcmd:'',
      ''  # Install Soft-RoCE userland + extra kernel modules FIRST, BEFORE applying'',
      ''  # the lab Netplan config. Reason: the lab Netplan adds a default route via'',
      ''  # the bond0.100 gateway (10.42.10.1) which doesn'' @ [CHR 0x27] @ ''t exist in the lab. Once'',
      ''  # netplan apply replaces the SLIRP DHCP default route with that broken'',
      ''  # route, apt can no longer reach archive.ubuntu.com. Doing apt first uses'',
      ''  # the SLIRP DHCP default route which works.'',
      ''  #'',
      ''  # Enable universe in Ubuntu 24.04'' @ [CHR 0x27] @ ''s deb822-style sources file so apt can'',
      ''  # find ibverbs-utils / rdmacm-utils.'',
      ''  - >-'',
      ''    sed -i '' @ [CHR 0x27] @ ''s/^Components: main.*$/Components: main universe/'' @ [CHR 0x27],
      ''    /etc/apt/sources.list.d/ubuntu.sources''] @
     [utext_of ''  # Force IPv4 '' @ [EM_DASH] @ utext_of '' QEMU SLIRP (user-mode networking) does not support IPv6.''] @
     plain [''  # linux-modules-extra-$(uname -r) ships rdma_rxe (Soft-RoCE driver, MAIN).'',
      ''  # ibverbs-utils ships ibv_devinfo (B300 e2e asserts 8 rxe devices).'',
      ''  # rdma-core ships the `rdma` CLI used to create rxe devices below.'',
      ''  # rdmacm-utils ships `rping` (B300 e2e proves RDMA verbs end-to-end).'',
      ''  - DEBIAN_FRONTEND=noninteractive apt-get -o Acquire::ForceIPv4=true update'',
      ''  - >-'',
      ''    DEBIAN_FRONTEND=noninteractive apt-get -o Acquire::ForceIPv4=true install -y'',
      ''    '' @ [CHR 0x22] @ ''linux-modules-extra-$(uname -r)'' @ [CHR 0x22] @ '' ibverbs-utils rdma-core rdmacm-utils'',
      ''  # NOW apply the Netplan network config so gpu[0..7] interfaces exist'',
      ''  # under their final names before rdma link add references them.'',
      ''  - netplan apply'',
      ''  # Poll for bond0 to be created by networkd. `networkctl wait-online`'',
      ''  # accepts neither --interface= nor --timeout= in systemd 255 (Ubuntu'',
      ''  # 24.04), so use a sh polling loop instead. `timeout 60` caps total wait''] @
     [utext_of ''  # at 60s '' @ [EM_DASH] @ utext_of '' bond0 normally appears in <10s once networkd processes the''] @
     plain [''  # bond .netdev file.'',
      ''  - timeout 60 sh -c '' @ [CHR 0x27] @ ''until ip link show bond0 >/dev/null 2>&1; do sleep 1; done'' @ [CHR 0x27] @ '' || true'',
      ''  # Load the Soft-RoCE kernel module.'',
      ''  # || true: rdma_rxe install may still fail in offline environments;'',
      ''  # treat a missing module as non-fatal so cloud-init does not exit 1'',
      ''  # and block every other test. The rdma e2e tests will fail with a'',
      ''  # clear assertion in that case.'',
      ''  - modprobe rdma_rxe || true'',
      ''  # Create one rxe device per east-west NIC, skipping if already present.'',
      ''  # || true: if rdma_rxe is not loaded, rdma link add exits 1 ('' @ [CHR 0x22] @ ''Invalid'',
      ''  # argument'' @ [CHR 0x22] @ ''). Keep it non-fatal for the same reason as modprobe above.'']"

definition rxe_lines :: "roce_underlay \<Rightarrow> string list" where
  "rxe_lines nic =
     [''  - >-'',
      ''    rdma link show rxe_'' @ nic_name nic @ '' > /dev/null 2>&1 ||'',
      ''    rdma link add rxe_'' @ nic_name nic @ '' type rxe netdev '' @ nic_name nic @ '' || true'']"

definition roce_pin_lines :: "utext list" where
  "roce_pin_lines =
     [utext_of ''  # Pin every RoCE device to RoCEv2 (routable, UDP/4791) '' @ [EM_DASH] @ utext_of '' the mode NCCL/UCX''] @
     [utext_of ''  # use '' @ [EM_DASH] @ utext_of '' rather than leaving it to the kernel default. configfs + rdma_cm''] @
     plain [''  # based; best-effort (|| true) so a lab kernel without the rdma_cm configfs'',
      ''  # doesn'' @ [CHR 0x27] @ ''t fail the boot. Iterates the real rxe_* devices so it stays correct'',
      ''  # regardless of how many came up.'',
      ''  - modprobe rdma_cm || true'',
      ''  - >-'',
      ''    for d in $(ls /sys/class/infiniband 2>/dev/null | grep '' @ [CHR 0x27] @ ''^rxe_'' @ [CHR 0x27] @ ''); do'',
      ''    mkdir -p /sys/kernel/config/rdma_cm/$d 2>/dev/null || true;'',
      ''    echo '' @ [CHR 0x27] @ ''RoCE v2'' @ [CHR 0x27] @ '' > /sys/kernel/config/rdma_cm/$d/ports/1/default_roce_mode 2>/dev/null || true;'',
      ''    done'']"

definition roce_user_data_lines :: "host_intent \<Rightarrow> utext list" where
  "roce_user_data_lines ctx =
     plain (gpu_identity_lines ctx @ roce_limits_lines @ netplan_file_lines ctx) @
     roce_install_lines @
     plain ([''  # Names match the '' @ role_value (host_role ctx)
               @ '' network-config (gpu0..gpu7 after Netplan renames).''] @
            concat (map rxe_lines (roce_underlays ctx))) @
     roce_pin_lines"

text \<open>The InfiniBand role\<close>

definition ib_limits_lines :: "string list" where
  "ib_limits_lines =
     [''write_files:'',
      ''  - path: /etc/security/limits.d/rdma.conf'',
      ''    owner: root:root'',
      ''    permissions: '' @ [CHR 0x22] @ ''0644'' @ [CHR 0x22],
      ''    content: |'',
      ''      # Unlimited locked memory for InfiniBand / RDMA verbs.'',
      ''      # Required for ibv_reg_mr to succeed with large buffers.'',
      ''      * hard memlock unlimited'',
      ''      * soft memlock unlimited'',
      '''']"

definition ib_modules_lines :: "string list" where
  "ib_modules_lines =
     [''  - path: /etc/modules-load.d/infiniband.conf'',
      ''    owner: root:root'',
      ''    permissions: '' @ [CHR 0x22] @ ''0644'' @ [CHR 0x22],
      ''    content: |'',
      ''      mlx5_ib'',
      ''      ib_umad'',
      ''      ib_uverbs'',
      ''      rdma_ucm'',
      ''      ib_ipoib'',
      '''']"

definition ib_install_lines :: "utext list" where
  "ib_install_lines =
     plain ['''',
      ''runcmd:'',
      ''  # Install the InfiniBand userland + extra kernel modules FIRST, BEFORE'',
      ''  # applying the lab Netplan config. Reason: the lab Netplan adds a default'',
      ''  # route via the bond0.100 gateway (10.42.10.1) which doesn'' @ [CHR 0x27] @ ''t exist in the'',
      ''  # lab; once netplan apply replaces the provisioning DHCP default route with'',
      ''  # that broken route, apt can no longer reach the archive. Doing apt first'',
      ''  # keeps the working default route. (Same lesson as the RoCE roles.)'',
      ''  #'',
      ''  # On real H200 nodes the Mellanox stack comes from DOCA-OFED / MLNX_OFED,'',
      ''  # which supersedes these inbox packages; this inbox path is for a generic'',
      ''  # Ubuntu image. linux-modules-extra carries ib_ipoib / mlx5_ib for the'',
      ''  # stock kernel; rdma-core + ibverbs-utils + infiniband-diags provide'',
      ''  # ibstat / ibv_devinfo / ibping. universe is enabled for ibverbs-utils /'',
      ''  # infiniband-diags; ForceIPv4 for v4-only provisioning NATs.'',
      ''  - >-'',
      ''    sed -i '' @ [CHR 0x27] @ ''s/^Components: main.*$/Components: main universe/'' @ [CHR 0x27],
      ''    /etc/apt/sources.list.d/ubuntu.sources'',
      ''  - DEBIAN_FRONTEND=noninteractive apt-get -o Acquire::ForceIPv4=true update'',
      ''  - >-'',
      ''    DEBIAN_FRONTEND=noninteractive apt-get -o Acquire::ForceIPv4=true install -y'',
      ''    '' @ [CHR 0x22] @ ''linux-modules-extra-$(uname -r)'' @ [CHR 0x22] @ '' rdma-core ibverbs-utils ibverbs-providers'',
      ''    infiniband-diags'',
      ''  # Load the IB stack now so the ib* interfaces exist before netplan renames''] @
     [utext_of ''  # them. || true: a missing module on a non-IB box is non-fatal '' @ [EM_DASH] @ utext_of '' the host''] @
     plain [''  # still boots; the IPoIB interfaces simply won'' @ [CHR 0x27] @ ''t appear.'',
      ''  - modprobe mlx5_ib || true'',
      ''  - modprobe ib_umad || true'',
      ''  - modprobe ib_uverbs || true'',
      ''  - modprobe rdma_ucm || true'',
      ''  - modprobe ib_ipoib || true'',
      ''  # Apply the network config now that packages + modules are in place.'',
      ''  - netplan apply'',
      ''  # Best-effort wait for the first IPoIB rail (cap 60s). Harmless on a box''] @
     [utext_of ''  # with no real IB HCA '' @ [EM_DASH] @ utext_of '' the loop just times out.''] @
     plain [''  - timeout 60 sh -c '' @ [CHR 0x27] @ ''until ip link show ib0 >/dev/null 2>&1; do sleep 1; done'' @ [CHR 0x27] @ '' || true'']"

definition ib_user_data_lines :: "host_intent \<Rightarrow> utext list" where
  "ib_user_data_lines ctx =
     plain (gpu_identity_lines ctx @ ib_limits_lines @ ib_modules_lines @ netplan_file_lines ctx) @
     ib_install_lines"

definition user_data_lines :: "host_intent \<Rightarrow> utext list" where
  "user_data_lines ctx = (case host_role ctx of
      CPU \<Rightarrow> plain (cpu_user_data_lines ctx)
    | GPU_B300 \<Rightarrow> roce_user_data_lines ctx
    | GPU_B200 \<Rightarrow> roce_user_data_lines ctx
    | GPU_H200 \<Rightarrow> ib_user_data_lines ctx)"


section \<open>The template tree as an environment\<close>

definition template_lines :: "file_kind \<Rightarrow> host_intent \<Rightarrow> utext list" where
  "template_lines k ctx = (case k of
      META_DATA \<Rightarrow> plain (meta_data_lines ctx)
    | USER_DATA \<Rightarrow> user_data_lines ctx
    | NETWORK_CONFIG \<Rightarrow> plain (network_config_lines ctx))"

definition templates :: "(role \<times> file_kind) list" where
  "templates = List.product all_roles all_kinds"

definition template_tree :: "'t environment" where
  "template_tree path =
     (case find (\<lambda>(r, k). template_path r k = path) templates of
        None \<Rightarrow> None
      | Some (r, k) \<Rightarrow>
          Some (\<lambda>ctx. Inr (text_lines (template_lines k ((ctx_intent ctx)\<lparr>host_role := r\<rparr>)))))"

lemma template_path_inj [simp]: "template_path r k = template_path s l \<longleftrightarrow> r = s \<and> k = l"
  by (cases r; cases s; cases k; cases l) (simp_all add: template_path_def role_value_def kind_value_def)

lemma template_tree_path:
  "template_tree (template_path r k) =
    Some (\<lambda>ctx. Inr (text_lines (template_lines k ((ctx_intent ctx)\<lparr>host_role := r\<rparr>))))"
proof -
  have "find (\<lambda>(q, l). template_path q l = template_path r k) templates = Some (r, k)"
    by (cases r; cases k) (simp_all add: templates_def all_roles_def all_kinds_def)
  then show ?thesis by (simp add: template_tree_def)
qed

lemma surrogate_simps [simp]:
  "list_ex surrogate (text_lines ls) \<longleftrightarrow> list_ex (list_ex surrogate) ls"
  "\<not> list_ex (list_ex surrogate) (plain ss)"
  "\<not> surrogate EM_DASH"
proof -
  show "list_ex surrogate (text_lines ls) \<longleftrightarrow> list_ex (list_ex surrogate) ls"
    by (induction ls) (simp_all add: text_lines_def surrogate_def [of 10])
  show "\<not> list_ex (list_ex surrogate) (plain ss)"
    by (induction ss) (simp_all add: plain_def)
qed (simp add: surrogate_def EM_DASH_def)

lemma template_lines_encodable: "\<not> list_ex surrogate (text_lines (template_lines k ctx))"
  by (cases k; cases "host_role ctx")
     (simp_all only: template_lines_def user_data_lines_def roce_user_data_lines_def
       ib_user_data_lines_def roce_install_lines_def roce_pin_lines_def ib_install_lines_def
       surrogate_simps list_ex_append list_ex_Nil_iff list_ex_Cons_iff append.simps surrogate_utext_of
       file_kind.case role.case simp_thms)

text \<open>Every file of every host renders, to the lines of its template.\<close>

definition rendered :: "file_kind \<Rightarrow> host_intent \<Rightarrow> 8 word list" where
  "rendered k i = utf8_bytes (text_lines (template_lines k (canonicalize i)))"

lemma render_for_tree: "render_for template_tree clock i (Kind k) now = Inr (rendered k i)"
proof -
  have same: "(canonicalize i)\<lparr>host_role := host_role i\<rparr> = canonicalize i"
    by (simp add: canonicalize_def)
  show ?thesis
    using template_lines_encodable [of k "canonicalize i"]
    by (simp add: same render_for_def to_kind_def render_text_def get_template_def Let_def
        template_tree_path rendered_def utf8_encode_def)
qed


section \<open>The Netplan file of user-data\<close>

text \<open>Every role's user-data writes the file and applies it in a later command.\<close>

lemma user_data_netplan_file:
  "\<exists>pre post. user_data_lines ctx = pre @ plain (netplan_file_lines ctx) @ [[]] @ post
    \<and> utext_of ''  - netplan apply'' \<in> set post"
proof -
  have blank: "utext_of '''' = []" by (simp add: utext_of_def)
  have roce: "\<exists>rest. roce_install_lines = [] # rest \<and> utext_of ''  - netplan apply'' \<in> set rest"
    by (simp add: roce_install_lines_def plain_def blank)
  have ib: "\<exists>rest. ib_install_lines = [] # rest \<and> utext_of ''  - netplan apply'' \<in> set rest"
    by (simp add: ib_install_lines_def plain_def blank)
  have "\<exists>pre post. roce_user_data_lines ctx = pre @ plain (netplan_file_lines ctx) @ [[]] @ post
    \<and> utext_of ''  - netplan apply'' \<in> set post"
    using roce
  proof (elim exE conjE)
    fix rest assume r: "roce_install_lines = [] # rest" "utext_of ''  - netplan apply'' \<in> set rest"
    show ?thesis
      by (rule exI [of _ "plain (gpu_identity_lines ctx @ roce_limits_lines)"])
         (auto simp: roce_user_data_lines_def r(1) plain_append intro: r(2))
  qed
  moreover have "\<exists>pre post. ib_user_data_lines ctx = pre @ plain (netplan_file_lines ctx) @ [[]] @ post
    \<and> utext_of ''  - netplan apply'' \<in> set post"
    using ib
  proof (elim exE conjE)
    fix rest assume r: "ib_install_lines = [] # rest" "utext_of ''  - netplan apply'' \<in> set rest"
    show ?thesis
      by (rule exI [of _ "plain (gpu_identity_lines ctx @ ib_limits_lines @ ib_modules_lines)"])
         (auto simp: ib_user_data_lines_def r(1) plain_append intro: r(2))
  qed
  moreover have "\<exists>pre post. plain (cpu_user_data_lines ctx) = pre @ plain (netplan_file_lines ctx) @ [[]] @ post
    \<and> utext_of ''  - netplan apply'' \<in> set post"
    unfolding cpu_user_data_lines_def plain_append
    by (rule exI, rule exI [of _ "plain [''runcmd:'', ''  - netplan apply'']"]) (auto simp: plain_def blank)
  ultimately show ?thesis by (cases "host_role ctx") (simp_all add: user_data_lines_def)
qed

end
