(* ===== verification/Samples.thy ===== *)
theory Samples
  imports Loader User_Data "HOL-Library.Code_Target_Nat"
begin

text \<open>
  Concrete inventories and the intents they load to, evaluated stage by stage in the
  kernel: the cpu host of fixtures/netbox/data/cpu-host.yaml (with its MAC addresses in
  upper case, as an operator may enter them), on which the properties' witnesses run.
\<close>

definition nic_iface :: "int \<Rightarrow> string \<Rightarrow> string \<Rightarrow> int \<Rightarrow> nb_iface" where
  "nic_iface n name mac mtu =
     \<lparr>nbi_id = n, nbi_name = name,
      nbi_primary_mac = Some \<lparr>nbm_mac_address = Some mac, nbm_text = mac\<rparr>,
      nbi_mtu = Some mtu, nbi_untagged_vlan = None, nbi_custom_fields = Some []\<rparr>"

definition virtual_iface :: "int \<Rightarrow> string \<Rightarrow> int \<Rightarrow> int \<Rightarrow> string \<Rightarrow> nb_iface" where
  "virtual_iface n name mtu vid vlan =
     \<lparr>nbi_id = n, nbi_name = name, nbi_primary_mac = None, nbi_mtu = Some mtu,
      nbi_untagged_vlan = Some \<lparr>nbv_vid = vid, nbv_name = Some vlan\<rparr>,
      nbi_custom_fields = Some []\<rparr>"

definition cpu_nics :: "nb_iface list" where
  "cpu_nics = [nic_iface 10 ''nsa'' ''AA:BB:CC:00:01:01'' 9000,
               nic_iface 11 ''nsb'' ''AA:BB:CC:00:01:02'' 9000,
               nic_iface 12 ''bond0'' ''AA:BB:CC:00:01:01'' 9000]"

definition cpu_virtual :: "nb_iface list" where
  "cpu_virtual = [virtual_iface 13 ''bond0.100'' 1500 100 ''mgmt'',
                  virtual_iface 14 ''bond0.200'' 9000 200 ''storage'',
                  virtual_iface 15 ''bond0.300'' 1500 300 ''ingress'']"

definition cpu_ifaces :: "nb_iface list" where
  "cpu_ifaces = cpu_nics @ cpu_virtual"

definition cpu_ips :: "int \<Rightarrow> string list" where
  "cpu_ips n = (if n = 13 then [''10.42.10.11/24''] else if n = 14 then [''10.42.20.11/24'']
     else if n = 15 then [''10.42.30.11/24''] else [])"

definition cpu_device :: nb_device where
  "cpu_device = \<lparr>nbd_id = 1, nbd_name = Some ''k8s-cp-01.pod07.site03.internal'',
     nbd_role = Some (Some ''cpu'')\<rparr>"

definition inventory :: "nb_iface list \<Rightarrow> nb_client" where
  "inventory ifaces =
     \<lparr>nb_get_device = (\<lambda>t. if t = ''SN-CPU-001'' then Inr (Some cpu_device) else Inr None),
      nb_list_interfaces = (\<lambda>_. Inr ifaces),
      nb_list_ips = (\<lambda>n. Inr (cpu_ips n)),
      nb_status = Inr ()\<rparr>"

definition cpu_client :: nb_client where
  "cpu_client = inventory cpu_ifaces"

definition cpu_bond :: bond where
  "cpu_bond = \<lparr>bond_name = ''bond0'', bond_members = [''nsa'', ''nsb''], bond_mode = Mode_802_3ad,
     bond_lacp_rate = LacpFast, bond_hash_policy = Layer3_4, bond_mtu = 9000\<rparr>"

definition cpu_members :: "bond_member list" where
  "cpu_members = [\<lparr>nic_name = ''nsa'', nic_mac = ''aa:bb:cc:00:01:01'', nic_mtu = 9000\<rparr>,
                  \<lparr>nic_name = ''nsb'', nic_mac = ''aa:bb:cc:00:01:02'', nic_mtu = 9000\<rparr>]"

text \<open>10.42.10.11, 10.42.20.11, 10.42.30.11 and the gateway 10.42.10.1 as 32-bit words.\<close>

definition cpu_vlans :: "vlan_child list" where
  "cpu_vlans =
     [\<lparr>vlan_name = ''bond0.100'', vlan_parent = ''bond0'', vlan_id = 100, vlan_role = MGMT,
       vlan_mtu = 1500, vlan_address = \<lparr>if_ip = 170527243, if_plen = 24\<rparr>,
       vlan_gateway = Some 170527233, vlan_dns = [], vlan_search_domain = None\<rparr>,
      \<lparr>vlan_name = ''bond0.200'', vlan_parent = ''bond0'', vlan_id = 200, vlan_role = STORAGE,
       vlan_mtu = 9000, vlan_address = \<lparr>if_ip = 170529803, if_plen = 24\<rparr>,
       vlan_gateway = None, vlan_dns = [], vlan_search_domain = None\<rparr>,
      \<lparr>vlan_name = ''bond0.300'', vlan_parent = ''bond0'', vlan_id = 300, vlan_role = INGRESS,
       vlan_mtu = 1500, vlan_address = \<lparr>if_ip = 170532363, if_plen = 24\<rparr>,
       vlan_gateway = None, vlan_dns = [], vlan_search_domain = None\<rparr>]"

definition cpu_intent :: host_intent where
  "cpu_intent = \<lparr>asset_tag = ''SN-CPU-001'', hostname = ''k8s-cp-01.pod07.site03.internal'',
     host_role = CPU, ns_nics = cpu_members, host_bond = cpu_bond, vlans = cpu_vlans,
     roce_underlays = [], ib_underlays = []\<rparr>"


section \<open>The stages of the load, evaluated\<close>

lemma cpu_fetch:
  "fetch_device (inventory ifs) ''SN-CPU-001'' = Inr cpu_device"
  "fetch_interfaces (inventory ifs) cpu_device ''SN-CPU-001'' = Inr ifs"
  "parse_role cpu_device ''SN-CPU-001'' = Inr CPU"
  by (simp_all add: fetch_device_def fetch_interfaces_def parse_role_def inventory_def cpu_device_def
      role_of_def role_value_def all_roles_def)

lemma cpu_builds:
  "build_ns_nics cpu_ifaces ''SN-CPU-001'' = Inr cpu_members"
  "build_bond cpu_ifaces cpu_members ''SN-CPU-001'' = Inr cpu_bond"
  "build_roce_underlays cpu_client cpu_ifaces ''SN-CPU-001'' = Inr []"
  "build_ib_underlays cpu_client cpu_ifaces ''SN-CPU-001'' = Inr []"
  by code_simp+

lemma cpu_build_vlans:
  "build_vlans cpu_client cpu_ifaces ''SN-CPU-001'' = Inr cpu_vlans"
  by code_simp

lemma cpu_renderable: "renderable cpu_intent"
  by (simp add: renderable_unfold cpu_intent_def cpu_members_def cpu_bond_def cpu_vlans_def
      count_for_role_def ROCE_COUNT_BY_ROLE_def IB_COUNT_BY_ROLE_def role_value_def
      all_names_def all_ips_def)

lemma cpu_mk: "mk_host_intent ''SN-CPU-001'' ''k8s-cp-01.pod07.site03.internal'' CPU cpu_members
    cpu_bond cpu_vlans [] [] = Inr cpu_intent"
  using cpu_renderable by (simp add: mk_host_intent_Inr cpu_intent_def len_in_def)

lemma cpu_load: "load_host_intent cpu_client ''SN-CPU-001'' = Inr cpu_intent"
  using load_host_intentI [OF cpu_fetch(1,2) cpu_fetch(3) cpu_builds(1,2), folded cpu_client_def]
    cpu_build_vlans cpu_builds(3,4) cpu_mk
  by (simp add: cpu_device_def str_opt_def cpu_client_def)

section \<open>An H200 host\<close>

text \<open>The host of fixtures/netbox/data/h200-host.yaml.\<close>

definition h200_ib_name :: "nat \<Rightarrow> string" where
  "h200_ib_name k = ''ib'' @ str_nat k"

definition h200_ib_mac :: "nat \<Rightarrow> string" where
  "h200_ib_mac k = ''aa:bb:cc:00:0e:0'' @ str_nat k"

definition h200_ifaces :: "nb_iface list" where
  "h200_ifaces =
     [nic_iface 10 ''nsa'' ''aa:bb:cc:00:02:01'' 9000, nic_iface 11 ''nsb'' ''aa:bb:cc:00:02:02'' 9000,
      nic_iface 12 ''bond0'' ''aa:bb:cc:00:02:01'' 9000,
      virtual_iface 13 ''bond0.100'' 1500 100 ''mgmt'', virtual_iface 14 ''bond0.200'' 9000 200 ''storage'',
      virtual_iface 15 ''bond0.300'' 1500 300 ''ingress''] @
     map (\<lambda>k. nic_iface (20 + int k) (h200_ib_name k) (h200_ib_mac k) 2044) [0..<8]"

definition h200_ips :: "int \<Rightarrow> string list" where
  "h200_ips n = (if n = 13 then [''10.42.10.30/24''] else if n = 14 then [''10.42.20.30/24'']
     else if n = 15 then [''10.42.30.30/24'']
     else if 20 \<le> n then [''10.42.'' @ str_int (80 + n) @ ''.10/24''] else [])"

definition h200_device :: nb_device where
  "h200_device = \<lparr>nbd_id = 2, nbd_name = Some ''gpu-h200-01.pod07.site03.internal'',
     nbd_role = Some (Some ''gpu-h200'')\<rparr>"

definition h200_client :: nb_client where
  "h200_client =
     \<lparr>nb_get_device = (\<lambda>_. Inr (Some h200_device)),
      nb_list_interfaces = (\<lambda>_. Inr h200_ifaces), nb_list_ips = (\<lambda>n. Inr (h200_ips n)), nb_status = Inr ()\<rparr>"

definition h200_vlan :: "string \<Rightarrow> int \<Rightarrow> vlan_role \<Rightarrow> int \<Rightarrow> 32 word \<Rightarrow> 32 word option \<Rightarrow> vlan_child" where
  "h200_vlan name vid r mtu ip gw = \<lparr>vlan_name = name, vlan_parent = ''bond0'', vlan_id = vid, vlan_role = r,
     vlan_mtu = mtu, vlan_address = \<lparr>if_ip = ip, if_plen = 24\<rparr>, vlan_gateway = gw, vlan_dns = [],
     vlan_search_domain = None\<rparr>"

definition h200_vlans :: "vlan_child list" where
  "h200_vlans = [h200_vlan ''bond0.100'' 100 MGMT 1500 170527262 (Some 170527233),
     h200_vlan ''bond0.200'' 200 STORAGE 9000 170529822 None,
     h200_vlan ''bond0.300'' 300 INGRESS 1500 170532382 None]"

definition h200_rails :: "infiniband_underlay list" where
  "h200_rails = map (\<lambda>k. \<lparr>nic_name = h200_ib_name k, nic_mac = h200_ib_mac k, nic_mtu = 2044,
     ib_address = \<lparr>if_ip = 170550282 + 256 * of_nat k, if_plen = 24\<rparr>\<rparr>) [0..<8]"

definition h200_members :: "bond_member list" where
  "h200_members = [\<lparr>nic_name = ''nsa'', nic_mac = ''aa:bb:cc:00:02:01'', nic_mtu = 9000\<rparr>,
                   \<lparr>nic_name = ''nsb'', nic_mac = ''aa:bb:cc:00:02:02'', nic_mtu = 9000\<rparr>]"

definition h200_intent :: host_intent where
  "h200_intent = \<lparr>asset_tag = ''SN-GPU-H200-001'', hostname = ''gpu-h200-01.pod07.site03.internal'',
     host_role = GPU_H200, ns_nics = h200_members, host_bond = cpu_bond, vlans = h200_vlans,
     roce_underlays = [], ib_underlays = h200_rails\<rparr>"

lemma h200_fetch:
  "fetch_device h200_client tag = Inr h200_device"
  "fetch_interfaces h200_client h200_device tag = Inr h200_ifaces"
  "parse_role h200_device tag = Inr GPU_H200"
  by (simp_all add: fetch_device_def fetch_interfaces_def parse_role_def h200_client_def h200_device_def
      role_of_def role_value_def all_roles_def)

lemma h200_builds:
  "build_ns_nics h200_ifaces ''SN-GPU-H200-001'' = Inr h200_members"
  "build_bond h200_ifaces h200_members ''SN-GPU-H200-001'' = Inr cpu_bond"
  "build_roce_underlays h200_client h200_ifaces ''SN-GPU-H200-001'' = Inr []"
  by code_simp+

lemma h200_build_vlans: "build_vlans h200_client h200_ifaces ''SN-GPU-H200-001'' = Inr h200_vlans"
  by code_simp

lemma h200_build_ib: "build_ib_underlays h200_client h200_ifaces ''SN-GPU-H200-001'' = Inr h200_rails"
  by code_simp

lemma h200_renderable: "renderable h200_intent"
  by code_simp

lemma h200_load: "load_host_intent h200_client ''SN-GPU-H200-001'' = Inr h200_intent"
proof -
  have "mk_host_intent ''SN-GPU-H200-001'' ''gpu-h200-01.pod07.site03.internal'' GPU_H200 h200_members
      cpu_bond h200_vlans [] h200_rails = Inr h200_intent"
    using h200_renderable by (simp add: mk_host_intent_Inr h200_intent_def len_in_def)
  then show ?thesis
    using load_host_intentI [OF h200_fetch h200_builds(1,2) h200_build_vlans h200_builds(3) h200_build_ib]
    by (simp add: h200_device_def str_opt_def)
qed

end
