(* ===== verification/Rules.thy ===== *)
theory Rules
  imports Samples
begin

text \<open>
  Properties of the data model on its own: what constructing an intent decides, what a
  constructed intent guarantees to its consumers, and the value types it is made of
  (MAC addresses, interface addresses, gateways).
\<close>

section \<open>Constructing an intent\<close>

text \<open>C9: constructing an intent succeeds exactly when the field bounds and all eleven cross-field
  rules hold, and then returns the given parts unchanged.\<close>

theorem host_intent_construction:
  "mk_host_intent tag host r nics b vs roce ib = Inr i \<longleftrightarrow>
     i = \<lparr>asset_tag = tag, hostname = host, host_role = r, ns_nics = nics, host_bond = b,
          vlans = vs, roce_underlays = roce, ib_underlays = ib\<rparr>
     \<and> 1 \<le> length tag \<and> length tag \<le> 64 \<and> 1 \<le> length host \<and> length host \<le> 253
     \<and> list_all fst (invariant_table i)"
  by (auto simp: mk_host_intent_Inr renderable_def len_in_def)

text \<open>C8: a violated rule is reported under its own identifier, and the first violated rule of
  the documented order is the one that is reported: earlier rules hold, the result carries
  that rule's identifier, and the check passes only when every rule holds.\<close>

theorem check_invariants_verdict:
  "case find (\<lambda>(holds, code). \<not> holds) (invariant_table i) of
     None \<Rightarrow> check_invariants i = Inr ()
   | Some (_, code) \<Rightarrow> \<exists>detail. check_invariants i = Inl (InvariantError code detail)"
proof -
  have "find (\<lambda>(holds, code). \<not> holds) tbl = map_option (\<lambda>c. (False, c)) (first_failure tbl)" for tbl
    by (induction tbl rule: first_failure.induct) auto
  then show ?thesis
    using check_invariants_first_failure [of i] by (simp split: option.splits)
qed

text \<open>In a constructed intent each VLAN role is carried by exactly one VLAN, whose parent is
  the bond, whose MTU fits into the bond's, and which has a gateway exactly if it is the mgmt
  VLAN.\<close>

theorem intent_vlan_guarantees:
  assumes "wf_intent i"
  shows "length (vlans i) = 3 \<and> (\<exists>!v. v \<in> set (vlans i) \<and> vlan_role v = r)
    \<and> (\<forall>v \<in> set (vlans i). vlan_parent v = bond_name (host_bond i)
        \<and> vlan_mtu v \<le> bond_mtu (host_bond i)
        \<and> (vlan_gateway v \<noteq> None \<longleftrightarrow> vlan_role v = MGMT))"
proof -
  have ok: "renderable i" using assms by (simp add: wf_intent_def)
  have "\<exists>!v. v \<in> set (vlans i) \<and> vlan_role v = r"
    using renderable_vlan_exists [OF ok, of r] renderable_vlan_unique [OF ok] by blast
  then show ?thesis
    using renderable_three_vlans [OF ok] renderable_parent [OF ok] renderable_mtu [OF ok]
      renderable_gateway_iff [OF ok] by blast
qed

lemma cpu_wf: "wf_intent cpu_intent"
  by (rule load_wf_intent [OF cpu_load])

theorem intent_vlan_guarantees_witness:
  "length (vlans cpu_intent) = 3 \<and> (\<exists>!v. v \<in> set (vlans cpu_intent) \<and> vlan_role v = STORAGE)"
  using intent_vlan_guarantees [OF cpu_wf] by blast

text \<open>A constructed intent has two N-S NICs and its bond aggregates exactly them.\<close>

theorem intent_bond_members:
  assumes "wf_intent i"
  shows "length (ns_nics i) = 2
    \<and> mset (bond_members (host_bond i)) = mset (map nic_name (ns_nics i))"
  using assms renderable_bond_members [of i] by (simp add: wf_intent_def renderable_unfold)

theorem intent_bond_members_witness:
  "mset (bond_members (host_bond cpu_intent)) = mset (map nic_name (ns_nics cpu_intent))"
  using intent_bond_members [OF cpu_wf] by blast

text \<open>The role decides the east-west fabric: eight RoCE underlays for the B200 and B300
  roles, eight InfiniBand underlays for the H200 role, none for the cpu role; never both.\<close>

theorem intent_backend:
  assumes "wf_intent i"
  shows "length (roce_underlays i) = (if host_role i \<in> {GPU_B300, GPU_B200} then 8 else 0)
    \<and> length (ib_underlays i) = (if host_role i = GPU_H200 then 8 else 0)
    \<and> (roce_underlays i = [] \<or> ib_underlays i = [])"
proof -
  have "renderable i" using assms by (simp add: wf_intent_def)
  from renderable_backend [OF this] show ?thesis by (cases "host_role i") simp_all
qed

theorem intent_backend_witness:
  "roce_underlays cpu_intent = [] \<and> ib_underlays cpu_intent = []"
  using intent_backend [OF cpu_wf] by (simp add: cpu_intent_def)

text \<open>Interface names are distinct within an intent, over N-S NICs, underlays and VLANs
  together, and so are the host addresses.\<close>

theorem intent_names_and_ips_distinct:
  assumes "wf_intent i"
  shows "distinct (map nic_name (ns_nics i) @ map nic_name (roce_underlays i)
      @ map nic_name (ib_underlays i) @ map vlan_name (vlans i))
    \<and> distinct (map (\<lambda>v. if_ip (vlan_address v)) (vlans i)
      @ map (\<lambda>r. if_ip (roce_address r)) (roce_underlays i)
      @ map (\<lambda>u. if_ip (ib_address u)) (ib_underlays i))"
  using assms by (simp add: wf_intent_def renderable_unfold all_names_def all_ips_def comp_def)

theorem intent_names_and_ips_distinct_witness:
  "distinct (map vlan_name (vlans cpu_intent))"
  using intent_names_and_ips_distinct [OF cpu_wf] by simp


section \<open>Value types\<close>

text \<open>MAC normalisation returns the canonical spelling, six lower-case hexadecimal pairs
  joined by colons, and a canonical address is returned unchanged, so it is idempotent.\<close>

theorem mac_canonical:
  assumes "validate_mac v = Inr m"
  shows "canonical_mac m \<and> validate_mac (PyStr m) = Inr m"
  using validate_mac_canonical [OF assms] validate_mac_id by blast

theorem mac_canonical_witness:
  "validate_mac (PyStr ''aa:bb:cc:00:01:01'') = Inr ''aa:bb:cc:00:01:01''"
proof -
  have "validate_mac (PyStr '' AA:BB:cc:00:01:01 '') = Inr ''aa:bb:cc:00:01:01''" by code_simp
  from mac_canonical [OF this] show ?thesis ..
qed

text \<open>An interface address is recovered from the text the templates print for it.\<close>

theorem interface_text_round_trip:
  assumes "if_plen a \<le> 32"
  shows "parse_interface (interface_str a) = Inr a"
  using assms by (rule parse_interface_str)

theorem interface_text_round_trip_witness:
  "parse_interface (interface_str \<lparr>if_ip = 170527243, if_plen = 24\<rparr>)
     = Inr \<lparr>if_ip = 170527243, if_plen = 24\<rparr>"
  by (rule interface_text_round_trip) simp

text \<open>C11: deriving the gateway never runs out of host addresses; the gateway is an address of the
  interface's network, in a network with fewer than 31 prefix bits neither its network nor
  its broadcast address, and every host of the network derives the same one.\<close>

theorem gateway_of_network:
  assumes "if_plen a \<le> 32"
  shows "\<exists>g. derive_gateway a = Inr g \<and> in_network a g
    \<and> (if_plen a < 31 \<longrightarrow> g \<noteq> network_address a \<and> g \<noteq> broadcast_address a)
    \<and> (\<forall>b. if_plen b = if_plen a \<longrightarrow> in_network a (if_ip b) \<longrightarrow> derive_gateway b = Inr g)"
proof -
  let ?n = "fst (hosts_range a)" and ?g = "word_of_nat (fst (hosts_range a)) :: 32 word"
  have ne: "?n < snd (hosts_range a)" using assms by (rule hosts_range_nonempty)
  have "unat (network_address a) \<le> ?n \<and> ?n \<le> unat (broadcast_address a)"
    using hosts_range_bounds [OF assms order_refl ne] .
  then have u: "unat ?g = ?n"
    using unat_less32 [of "broadcast_address a"] by (simp add: unsigned_of_nat take_bit_nat_eq_self)
  have proper: "?g \<noteq> network_address a \<and> ?g \<noteq> broadcast_address a" if "if_plen a < 31"
    using u ne that by (auto simp: hosts_range_def Let_def)
  have same: "derive_gateway b = Inr ?g" if "if_plen b = if_plen a" "in_network a (if_ip b)" for b
    using derive_gateway_total [of b] network_address_cong [OF assms that] assms that(1)
    by (simp add: hosts_range_def Let_def)
  show ?thesis
    using derive_gateway_total [OF assms] hosts_in_network [OF assms order_refl ne] proper same
    by blast
qed

theorem gateway_of_network_witness:
  "\<exists>g. derive_gateway \<lparr>if_ip = 170527243, if_plen = 24\<rparr> = Inr g
     \<and> in_network \<lparr>if_ip = 170527243, if_plen = 24\<rparr> g"
  using gateway_of_network [of "\<lparr>if_ip = 170527243, if_plen = 24\<rparr>"] by auto

text \<open>A bond is constructed exactly when its members are distinct, two to eight of them, and
  its name and MTU are within bounds; repeated members raise a plain \<open>ValueError\<close> whatever
  the other fields hold.\<close>

theorem bond_construction:
  "(mk_bond name members mode rate policy mtu = Inr b \<longleftrightarrow>
      b = \<lparr>bond_name = name, bond_members = members, bond_mode = mode, bond_lacp_rate = rate,
           bond_hash_policy = policy, bond_mtu = mtu\<rparr>
      \<and> distinct members \<and> 2 \<le> length members \<and> length members \<le> 8
      \<and> 1 \<le> length name \<and> length name \<le> 15 \<and> 1500 \<le> mtu \<and> mtu \<le> 9216)
   \<and> (mk_bond name members mode rate policy mtu = Inl (ValueError ''Bond.members must be unique'')
      \<longleftrightarrow> \<not> distinct members)"
  by (auto simp: mk_bond_Inr wf_bond_def len_in_def int_in_def MIN_MTU_def MAX_MTU_def)
     (auto simp: mk_bond_def distinct_iff_card rbind_eq_Inl dest: validate_fields_Inl)

end
