(* ===== verification/Pyval.thy ===== *)
theory Pyval
  imports Errors
begin

text \<open>
  What the program does with JSON-shaped values it has not validated: their text, their
  truth value, iteration, membership and \<open>.get\<close>, with the exceptions Python raises, and the
  text methods \<open>splitlines\<close>, \<open>split\<close>, \<open>count\<close> and \<open>ljust\<close>.
\<close>

section \<open>Values\<close>

fun py_repr :: "pyval \<Rightarrow> string"
  and py_repr_items :: "pydict \<Rightarrow> string list"
where
  "py_repr PyNone = ''None''"
| "py_repr (PyBool b) = (if b then ''True'' else ''False'')"
| "py_repr (PyInt i) = str_int i"
| "py_repr (PyStr s) = repr_str s"
| "py_repr (PyList vs) = repr_list (map py_repr vs)"
| "py_repr (PyDict d) = ''{'' @ join_str '', '' (py_repr_items d) @ ''}''"
| "py_repr_items [] = []"
| "py_repr_items ((k, v) # d) = (repr_str k @ '': '' @ py_repr v) # py_repr_items d"

definition py_str :: "pyval \<Rightarrow> string" where
  "py_str v = (case v of PyStr s \<Rightarrow> s | _ \<Rightarrow> py_repr v)"

definition py_truthy :: "pyval \<Rightarrow> bool" where
  "py_truthy v = (case v of
      PyNone \<Rightarrow> False | PyBool b \<Rightarrow> b | PyInt i \<Rightarrow> i \<noteq> 0
    | PyStr s \<Rightarrow> s \<noteq> '''' | PyList vs \<Rightarrow> vs \<noteq> [] | PyDict d \<Rightarrow> d \<noteq> [])"

text \<open>\<open>type(v).__name__\<close>\<close>

definition py_type :: "pyval \<Rightarrow> string" where
  "py_type v = (case v of
      PyNone \<Rightarrow> ''NoneType'' | PyBool _ \<Rightarrow> ''bool'' | PyInt _ \<Rightarrow> ''int''
    | PyStr _ \<Rightarrow> ''str'' | PyList _ \<Rightarrow> ''list'' | PyDict _ \<Rightarrow> ''dict'')"

text \<open>\<open>for x in v\<close>\<close>

definition py_iter :: "pyval \<Rightarrow> exn + pyval list" where
  "py_iter v = (case v of
      PyList vs \<Rightarrow> Inr vs
    | PyStr s \<Rightarrow> Inr (map (\<lambda>c. PyStr [c]) s)
    | PyDict d \<Rightarrow> Inr (map (\<lambda>(k, _). PyStr k) d)
    | _ \<Rightarrow> Inl (TypeError ([CHR 0x27] @ py_type v @ [CHR 0x27] @ '' object is not iterable'')))"

text \<open>\<open>x in v\<close> for a string \<open>x\<close>\<close>

definition py_contains :: "string \<Rightarrow> pyval \<Rightarrow> exn + bool" where
  "py_contains x v = (case v of
      PyList vs \<Rightarrow> Inr (list_ex (py_eq (PyStr x)) vs)
    | PyStr s \<Rightarrow> Inr (contains_str x s)
    | PyDict d \<Rightarrow> Inr (x \<in> set (map fst d))
    | _ \<Rightarrow> Inl (TypeError (''argument of type '' @ [CHR 0x27] @ py_type v @ [CHR 0x27]
             @ '' is not iterable'')))"

text \<open>\<open>d.get(k, default)\<close> on a dict, and \<open>v.get(k)\<close> on any value.\<close>

definition get_default :: "pydict \<Rightarrow> string \<Rightarrow> pyval \<Rightarrow> pyval" where
  "get_default d k dflt = (case map_of d k of None \<Rightarrow> dflt | Some v \<Rightarrow> v)"

definition py_get :: "pyval \<Rightarrow> string \<Rightarrow> pyval \<Rightarrow> exn + pyval" where
  "py_get v k dflt = (case v of
      PyDict d \<Rightarrow> Inr (get_default d k dflt)
    | _ \<Rightarrow> Inl (ExternalError (''AttributeError: '' @ py_type v @ '' has no attribute get'')))"

lemma py_iter_error: "py_iter v = Inl e \<Longrightarrow> \<exists>msg. e = TypeError msg"
  by (auto simp: py_iter_def split: pyval.splits)


section \<open>Text\<close>

text \<open>\<open>str.lower\<close> is \<open>py_lower\<close>. Line boundaries of \<open>str.splitlines\<close>, with \<open>\r\n\<close> as one.\<close>

definition is_line_break :: "char \<Rightarrow> bool" where
  "is_line_break c \<longleftrightarrow> (of_char c :: nat) \<in> {10, 11, 12, 13, 28, 29, 30, 133}"

fun splitlines_from :: "string \<Rightarrow> string \<Rightarrow> string list" where
  "splitlines_from line [] = (if line = [] then [] else [rev line])"
| "splitlines_from line [c] =
     (if is_line_break c then [rev line] else [rev (c # line)])"
| "splitlines_from line (c # d # s) =
     (if c = CHR 0x0D \<and> d = CHR 0x0A then rev line # splitlines_from [] s
      else if is_line_break c then rev line # splitlines_from [] (d # s)
      else splitlines_from (c # line) (d # s))"

definition splitlines :: "string \<Rightarrow> string list" where
  "splitlines s = splitlines_from [] s"

text \<open>\<open>s.split()\<close>: the maximal runs of characters that are not spaces.\<close>

fun words_from :: "string \<Rightarrow> string \<Rightarrow> string list" where
  "words_from w [] = (if w = [] then [] else [rev w])"
| "words_from w (c # s) =
     (if is_space c then (if w = [] then words_from [] s else rev w # words_from [] s)
      else words_from (c # w) s)"

definition split_words :: "string \<Rightarrow> string list" where
  "split_words s = words_from [] s"

text \<open>\<open>s.count(sub)\<close> for a non-empty \<open>sub\<close>: occurrences that do not overlap.\<close>

fun count_str :: "string \<Rightarrow> string \<Rightarrow> nat" where
  "count_str sub [] = 0"
| "count_str sub (c # s) =
     (if sub \<noteq> [] \<and> starts_with sub (c # s)
      then Suc (count_str sub (drop (length sub - 1) s)) else count_str sub s)"

definition ljust :: "string \<Rightarrow> nat \<Rightarrow> string" where
  "ljust s n = s @ replicate (n - length s) CHR '' ''"

end
