(* ===== verification/Schema.thy ===== *)
theory Schema
  imports Pyval
begin

text \<open>
  The custom-field schema (src/host_config/netbox/schema.py): the declarative field specs,
  their REST payload, the comparison of a spec with what Netbox reports, and
  \<open>apply_schema\<close>, which creates, patches or leaves alone each field in turn. Netbox is a
  parameter: three actions on a server state of any type. What the lemmas assume of it is
  \<open>serves\<close>: a read returns the stored field, a write stores what was sent, in a form the
  comparison recognises, and touches no other field.
\<close>

section \<open>Field specs and payloads\<close>

datatype field_type = TEXT | LONGTEXT | INTEGER | BOOLEAN | SELECT | MULTISELECT

definition field_type_value :: "field_type \<Rightarrow> string" where
  "field_type_value t = (case t of
      TEXT \<Rightarrow> ''text'' | LONGTEXT \<Rightarrow> ''longtext'' | INTEGER \<Rightarrow> ''integer''
    | BOOLEAN \<Rightarrow> ''boolean'' | SELECT \<Rightarrow> ''select'' | MULTISELECT \<Rightarrow> ''multiselect'')"

record custom_field_spec =
  spec_name :: string
  spec_label :: string
  spec_type :: field_type
  spec_object_types :: "string list"
  spec_description :: string
  spec_required :: bool
  spec_default :: pyval
  spec_choices :: "string list option"
  spec_minimum :: "int option"
  spec_maximum :: "int option"

definition py_strs :: "string list \<Rightarrow> pyval" where
  "py_strs ss = PyList (map PyStr ss)"

definition to_payload :: "custom_field_spec \<Rightarrow> pydict" where
  "to_payload spec =
     [(''name'', PyStr (spec_name spec)),
      (''label'', PyStr (spec_label spec)),
      (''type'', PyStr (field_type_value (spec_type spec))),
      (''object_types'', py_strs (spec_object_types spec)),
      (''required'', PyBool (spec_required spec))]
     @ (if spec_description spec = '''' then [] else [(''description'', PyStr (spec_description spec))])
     @ (if spec_default spec = PyNone then [] else [(''default'', spec_default spec)])
     @ (case spec_choices spec of None \<Rightarrow> [] | Some cs \<Rightarrow> [(''choices'', py_strs cs)])
     @ (case spec_minimum spec of None \<Rightarrow> [] | Some n \<Rightarrow> [(''validation_minimum'', PyInt n)])
     @ (case spec_maximum spec of None \<Rightarrow> [] | Some n \<Rightarrow> [(''validation_maximum'', PyInt n)])"

definition BF3_MODES :: "string list" where
  "BF3_MODES = [''nic'', ''dpu'', ''separated-host'']"

text \<open>The defaults of the \<open>CustomFieldSpec\<close> dataclass.\<close>

definition plain_spec :: "string \<Rightarrow> string \<Rightarrow> field_type \<Rightarrow> string list \<Rightarrow> string \<Rightarrow> custom_field_spec" where
  "plain_spec name label type object_types description =
     \<lparr>spec_name = name, spec_label = label, spec_type = type, spec_object_types = object_types,
      spec_description = description, spec_required = False, spec_default = PyNone,
      spec_choices = None, spec_minimum = None, spec_maximum = None\<rparr>"

definition DEFAULT_FIELDS :: "custom_field_spec list" where
  "DEFAULT_FIELDS =
     [(plain_spec ''bf3_mode'' ''BlueField-3 mode'' TEXT [''dcim.device'']
         (''Operating mode of host's BF-3 DPUs. Allowed: '' @
          ''nic | dpu | separated-host. v1 lab uses 'nic'.''))\<lparr>spec_default := PyStr ''nic''\<rparr>,
      (plain_spec ''roce_tc'' ''RoCE traffic class'' INTEGER [''dcim.interface'']
         ''RoCE v2 traffic class (PFC priority). Standard is 3.'')
         \<lparr>spec_minimum := Some 0, spec_maximum := Some 7\<rparr>,
      (plain_spec ''numa_node'' ''NUMA node'' INTEGER [''dcim.interface'']
         ''NUMA node ID the interface's PCIe root complex sits on.'')
         \<lparr>spec_minimum := Some 0, spec_maximum := Some 7\<rparr>,
      (plain_spec ''sriov_vfs'' ''SR-IOV VF count'' INTEGER [''dcim.interface'']
         ''Target number of SR-IOV virtual functions to provision on this PF.'')
         \<lparr>spec_minimum := Some 0, spec_maximum := Some 128\<rparr>,
      plain_spec ''gpu_affinity'' ''GPU affinity'' TEXT [''dcim.interface'']
         (''Identifier of the GPU this NIC is paired with on the PCIe '' @
          ''topology (e.g., 'GPU0'). For east-west NICs only.''),
      plain_spec ''observed_mac'' ''Observed MAC'' TEXT [''dcim.interface'']
         (''MAC last reported by discovery. Disagreement with the '' @
          ''canonical mac_address signals NIC replacement or stale inventory.''),
      plain_spec ''observed_firmware'' ''Observed firmware'' LONGTEXT [''dcim.device'']
         ''JSON blob of observed firmware versions from discovery.'']"


section \<open>Comparison\<close>

text \<open>\<open>str(s).split("/")[-2] if "/" in str(s) else str(s)\<close>\<close>

definition object_type_name :: "pyval \<Rightarrow> string" where
  "object_type_name v =
     (let s = py_str v; parts = split_char CHR ''/'' s
      in if CHR ''/'' \<in> set s then parts ! (length parts - 2) else s)"

text \<open>\<open>if isinstance(got, dict) and "value" in got: got = got["value"]\<close>\<close>

definition unwrap_enum :: "pyval \<Rightarrow> pyval" where
  "unwrap_enum got = (case got of
      PyDict d \<Rightarrow> (case map_of d ''value'' of None \<Rightarrow> got | Some v \<Rightarrow> v)
    | _ \<Rightarrow> got)"

definition values_equal :: "string \<Rightarrow> pyval \<Rightarrow> pyval \<Rightarrow> exn + bool" where
  "values_equal key want got0 =
     (let got = unwrap_enum got0 in
      if key = ''object_types'' then
        rbind (py_iter want) (\<lambda>ws.
        rbind (py_iter (if py_truthy got then got else PyList [])) (\<lambda>gs.
        Inr (sort (map object_type_name ws) = sort (map object_type_name gs))))
      else Inr (py_eq want got))"

fun diff_items :: "pydict \<Rightarrow> pydict \<Rightarrow> exn + string list" where
  "diff_items existing [] = Inr []"
| "diff_items existing ((key, want) # rest) =
     rbind (values_equal key want (dict_get existing key)) (\<lambda>equal.
     rbind (diff_items existing rest) (\<lambda>drift.
     Inr (if equal then drift else key # drift)))"

definition diff :: "custom_field_spec \<Rightarrow> pydict \<Rightarrow> exn + string list" where
  "diff spec existing = diff_items existing (to_payload spec)"

definition RECOVERABLE_DRIFT_KEYS :: "string list" where
  "RECOVERABLE_DRIFT_KEYS = [''label'', ''description'', ''required'', ''default'', ''choices'',
     ''validation_minimum'', ''validation_maximum'']"

definition is_recoverable :: "string list \<Rightarrow> bool" where
  "is_recoverable drift \<longleftrightarrow> list_all (\<lambda>k. k \<in> set RECOVERABLE_DRIFT_KEYS) drift"


section \<open>Applying the schema\<close>

record schema_report =
  created :: "string list"
  updated :: "string list"
  unchanged :: "string list"

definition empty_report :: schema_report where
  "empty_report = \<lparr>created = [], updated = [], unchanged = []\<rparr>"

definition is_no_op :: "schema_report \<Rightarrow> bool" where
  "is_no_op r \<longleftrightarrow> created r = [] \<and> updated r = []"

definition summary :: "schema_report \<Rightarrow> string" where
  "summary r = ''created='' @ str_nat (length (created r)) @ '' updated='' @ str_nat (length (updated r))
     @ '' unchanged='' @ str_nat (length (unchanged r))"

text \<open>The \<open>extras.custom_fields\<close> endpoint: an action may raise anything, given by its text.\<close>

record 's cf_api =
  cf_get :: "string \<Rightarrow> ('s, string, pydict option) act"
  cf_create :: "pydict \<Rightarrow> ('s, string, unit) act"
  cf_update :: "pydict \<Rightarrow> pydict \<Rightarrow> ('s, string, unit) act"

text \<open>\<open>try: ... except Exception as e: raise NetboxQueryError(operation, e) from e\<close>\<close>

definition wrap_query :: "string \<Rightarrow> ('s, string, 'a) act \<Rightarrow> ('s, exn, 'a) act" where
  "wrap_query operation m s = (case m s of
      (Inl msg, t) \<Rightarrow> (Inl (NetboxQueryError operation (CauseExternal msg) None), t)
    | (Inr x, t) \<Rightarrow> (Inr x, t))"

definition fetch_existing :: "'s cf_api \<Rightarrow> string \<Rightarrow> ('s, exn, pydict option) act" where
  "fetch_existing client name = wrap_query ''get_custom_field'' (cf_get client name)"

definition create_field :: "'s cf_api \<Rightarrow> custom_field_spec \<Rightarrow> ('s, exn, unit) act" where
  "create_field client spec = wrap_query ''create_custom_field'' (cf_create client (to_payload spec))"

definition patch_field :: "'s cf_api \<Rightarrow> custom_field_spec \<Rightarrow> ('s, exn, unit) act" where
  "patch_field client spec = wrap_query ''update_custom_field''
     (abind (cf_get client (spec_name spec)) (\<lambda>record.
      case record of
        None \<Rightarrow> athrow ([CHR 0x27] @ ''NoneType' object has no attribute 'update'' @ [CHR 0x27])
      | Some r \<Rightarrow> cf_update client r (to_payload spec)))"

text \<open>The body of the loop: what is done for one spec, and how the report grows.\<close>

definition apply_field ::
  "'s cf_api \<Rightarrow> custom_field_spec \<Rightarrow> schema_report \<Rightarrow> ('s, exn, schema_report) act" where
  "apply_field client spec report =
     abind (fetch_existing client (spec_name spec)) (\<lambda>found.
     case found of
       None \<Rightarrow>
         abind (create_field client spec) (\<lambda>_.
         aret (report\<lparr>created := created report @ [spec_name spec]\<rparr>))
     | Some existing \<Rightarrow>
         abind (alift (diff spec existing)) (\<lambda>drift.
         if drift = [] then aret (report\<lparr>unchanged := unchanged report @ [spec_name spec]\<rparr>)
         else if \<not> is_recoverable drift then
           athrow (SchemaError (spec_name spec)
             (''unrecoverable drift in field(s): '' @ repr_strs (sort drift)) existing)
         else
           abind (patch_field client spec) (\<lambda>_.
           aret (report\<lparr>updated := updated report @ [spec_name spec]\<rparr>))))"

fun apply_fields ::
  "'s cf_api \<Rightarrow> custom_field_spec list \<Rightarrow> schema_report \<Rightarrow> ('s, exn, schema_report) act" where
  "apply_fields client [] report = aret report"
| "apply_fields client (spec # rest) report =
     abind (apply_field client spec report) (\<lambda>report'. apply_fields client rest report')"

definition apply_schema ::
  "'s cf_api \<Rightarrow> custom_field_spec list \<Rightarrow> ('s, exn, schema_report) act" where
  "apply_schema client specs = apply_fields client specs empty_report"


section \<open>Reports and errors, for any server\<close>

lemma wrap_query_Inr: "wrap_query op m s = (Inr x, t) \<longleftrightarrow> m s = (Inr x, t)"
  by (auto simp: wrap_query_def split: prod.splits sum.splits)

lemma wrap_query_Inl: "wrap_query op m s = (Inl e, t) \<longleftrightarrow>
    (\<exists>msg. m s = (Inl msg, t) \<and> e = NetboxQueryError op (CauseExternal msg) None)"
  by (auto simp: wrap_query_def split: prod.splits sum.splits)

definition report_names :: "schema_report \<Rightarrow> string multiset" where
  "report_names r = mset (created r) + mset (updated r) + mset (unchanged r)"

lemma apply_field_report:
  assumes "apply_field client spec rep s = (Inr rep', t)"
  shows "report_names rep' = add_mset (spec_name spec) (report_names rep)"
  using assms
  by (auto simp: apply_field_def abind_eq_Inr report_names_def split: option.splits if_splits)

lemma apply_fields_report:
  "apply_fields client fs rep s = (Inr rep', t) \<Longrightarrow>
   report_names rep' = mset (map spec_name fs) + report_names rep"
  by (induction fs arbitrary: rep s) (auto simp: abind_eq_Inr dest!: apply_field_report)

lemma apply_fields_append:
  "apply_fields client (fs @ gs) rep =
     abind (apply_fields client fs rep) (\<lambda>rep'. apply_fields client gs rep')"
  by (induction fs arbitrary: rep) (auto simp: abind_def fun_eq_iff split: prod.splits sum.splits)

text \<open>An error stops the run at the first field it concerns; the fields before it stay applied.\<close>

lemma apply_fields_error:
  assumes "apply_fields client fs rep s = (Inl e, t)"
  obtains pre spec post rep' u where "fs = pre @ spec # post"
    "apply_fields client pre rep s = (Inr rep', u)" "apply_field client spec rep' u = (Inl e, t)"
  using assms
proof (induction fs arbitrary: rep s thesis)
  case Nil
  then show ?case by simp
next
  case (Cons f fs)
  from Cons.prems(2) consider "apply_field client f rep s = (Inl e, t)"
    | rep' u where "apply_field client f rep s = (Inr rep', u)" "apply_fields client fs rep' u = (Inl e, t)"
    by (auto simp: abind_eq_Inl)
  then show ?case
  proof cases
    case 1
    then show ?thesis by (intro Cons.prems(1) [of "[]" f fs]) auto
  next
    case 2
    from Cons.IH [OF _ 2(2)] obtain pre spec post rep'' v where
      "fs = pre @ spec # post" "apply_fields client pre rep' u = (Inr rep'', v)"
      "apply_field client spec rep'' v = (Inl e, t)" by metis
    then show ?thesis using 2(1) by (intro Cons.prems(1) [of "f # pre" spec post]) (auto simp: abind_def)
  qed
qed

lemma apply_field_error:
  assumes "apply_field client spec rep s = (Inl e, t)"
  shows "(\<exists>op msg. e = NetboxQueryError op (CauseExternal msg) None)
    \<or> (\<exists>existing drift. fetch_existing client (spec_name spec) s = (Inr (Some existing), t)
        \<and> diff spec existing = Inr drift \<and> \<not> is_recoverable drift
        \<and> e = SchemaError (spec_name spec)
             (''unrecoverable drift in field(s): '' @ repr_strs (sort drift)) existing)
    \<or> (\<exists>existing. fetch_existing client (spec_name spec) s = (Inr (Some existing), t)
        \<and> diff spec existing = Inl e)"
  using assms
  by (auto simp: apply_field_def abind_eq_Inl fetch_existing_def create_field_def patch_field_def
      wrap_query_Inl split: option.splits if_splits)

lemma values_equal_error: "values_equal k want got = Inl e \<Longrightarrow> \<exists>msg. e = TypeError msg"
  by (auto simp: values_equal_def Let_def rbind_eq_Inl split: if_splits dest!: py_iter_error)

lemma diff_items_error: "diff_items existing ps = Inl e \<Longrightarrow> \<exists>msg. e = TypeError msg"
  by (induction existing ps rule: diff_items.induct) (auto simp: rbind_eq_Inl dest: values_equal_error)

lemma diff_items_Inr: "diff_items existing ps = Inr drift \<Longrightarrow>
    drift = map fst (filter (\<lambda>(k, want). values_equal k want (dict_get existing k) = Inr False) ps)
    \<and> (\<forall>(k, want) \<in> set ps. \<exists>b. values_equal k want (dict_get existing k) = Inr b)"
  by (induction existing ps arbitrary: drift rule: diff_items.induct) (auto simp: rbind_eq_Inr)


section \<open>A server that stores what it is sent\<close>

text \<open>The record reports every key of the payload in a form the comparison recognises.\<close>

definition echoes :: "pydict \<Rightarrow> pydict \<Rightarrow> bool" where
  "echoes payload record \<longleftrightarrow>
     list_all (\<lambda>(k, want). values_equal k want (dict_get record k) = Inr True) payload"

definition serves ::
  "'s cf_api \<Rightarrow> ('s \<Rightarrow> string \<Rightarrow> pydict option) \<Rightarrow> custom_field_spec list \<Rightarrow> bool" where
  "serves client stored specs \<longleftrightarrow>
     (\<forall>s name. cf_get client name s = (Inr (stored s name), s))
     \<and> (\<forall>spec \<in> set specs. \<forall>s. stored s (spec_name spec) = None \<longrightarrow>
          (\<exists>t r. cf_create client (to_payload spec) s = (Inr (), t)
             \<and> stored t = (stored s)(spec_name spec \<mapsto> r) \<and> echoes (to_payload spec) r))
     \<and> (\<forall>spec \<in> set specs. \<forall>s old. stored s (spec_name spec) = Some old \<longrightarrow>
          (\<exists>t r. cf_update client old (to_payload spec) s = (Inr (), t)
             \<and> stored t = (stored s)(spec_name spec \<mapsto> r) \<and> echoes (to_payload spec) r))"

definition conforms :: "('s \<Rightarrow> string \<Rightarrow> pydict option) \<Rightarrow> 's \<Rightarrow> custom_field_spec \<Rightarrow> bool" where
  "conforms stored s spec \<longleftrightarrow>
     (case stored s (spec_name spec) of None \<Rightarrow> False | Some r \<Rightarrow> diff spec r = Inr [])"

lemma echoes_diff: "echoes ps r \<Longrightarrow> diff_items r ps = Inr []"
  by (induction r ps rule: diff_items.induct) (auto simp: echoes_def)

lemma serves_fetch: "serves client stored specs \<Longrightarrow> fetch_existing client name s = (Inr (stored s name), s)"
  by (simp add: serves_def fetch_existing_def wrap_query_def)

lemma serves_create:
  assumes "serves client stored specs" "spec \<in> set specs" "stored s (spec_name spec) = None"
  obtains t r where "create_field client spec s = (Inr (), t)"
    "stored t = (stored s)(spec_name spec \<mapsto> r)" "diff spec r = Inr []"
proof -
  obtain t r where u: "cf_create client (to_payload spec) s = (Inr (), t)"
      "stored t = (stored s)(spec_name spec \<mapsto> r)" "echoes (to_payload spec) r"
    using assms unfolding serves_def by metis
  then have "create_field client spec s = (Inr (), t)"
    by (simp add: create_field_def wrap_query_Inr)
  then show thesis using that u(2) echoes_diff [OF u(3)] by (simp add: diff_def)
qed

lemma serves_patch:
  assumes "serves client stored specs" "spec \<in> set specs" "stored s (spec_name spec) = Some old"
  obtains t r where "patch_field client spec s = (Inr (), t)"
    "stored t = (stored s)(spec_name spec \<mapsto> r)" "diff spec r = Inr []"
proof -
  obtain t r where u: "cf_update client old (to_payload spec) s = (Inr (), t)"
      "stored t = (stored s)(spec_name spec \<mapsto> r)" "echoes (to_payload spec) r"
    using assms unfolding serves_def by metis
  have "cf_get client (spec_name spec) s = (Inr (Some old), s)"
    using assms(1,3) by (simp add: serves_def)
  then have "patch_field client spec s = (Inr (), t)"
    using u(1) by (simp add: patch_field_def wrap_query_def abind_def)
  then show thesis using that u(2) echoes_diff [OF u(3)] by (simp add: diff_def)
qed

lemma apply_field_conforms:
  assumes sv: "serves client stored specs" and spec: "spec \<in> set specs"
    and run: "apply_field client spec rep s = (Inr rep', t)"
  shows "conforms stored t spec \<and> (\<forall>n. n \<noteq> spec_name spec \<longrightarrow> stored t n = stored s n)"
proof (cases "stored s (spec_name spec)")
  case None
  obtain u r where "create_field client spec s = (Inr (), u)"
      "stored u = (stored s)(spec_name spec \<mapsto> r)" "diff spec r = Inr []"
    using serves_create [OF sv spec None] .
  then show ?thesis
    using run None by (simp add: apply_field_def abind_def serves_fetch [OF sv] conforms_def)
next
  case (Some old)
  obtain drift where d: "diff spec old = Inr drift"
    using run Some by (cases "diff spec old") (auto simp: apply_field_def abind_def serves_fetch [OF sv])
  show ?thesis
  proof (cases "drift = []")
    case True
    then show ?thesis
      using run Some d by (simp add: apply_field_def abind_def serves_fetch [OF sv] conforms_def)
  next
    case False
    obtain u r where "patch_field client spec s = (Inr (), u)"
        "stored u = (stored s)(spec_name spec \<mapsto> r)" "diff spec r = Inr []"
      using serves_patch [OF sv spec Some] .
    then show ?thesis
      using run Some d False
      by (auto simp: apply_field_def abind_def serves_fetch [OF sv] conforms_def split: if_splits)
  qed
qed

lemma serves_mono: "serves client stored (spec # specs) \<Longrightarrow> serves client stored specs"
  by (simp add: serves_def)

lemma apply_fields_conform:
  assumes "serves client stored specs" and "distinct (map spec_name specs)"
    and "apply_fields client specs rep s = (Inr rep', t)"
  shows "(\<forall>spec \<in> set specs. conforms stored t spec)
    \<and> (\<forall>n. n \<notin> spec_name ` set specs \<longrightarrow> stored t n = stored s n)"
  using assms
proof (induction specs arbitrary: rep s)
  case Nil
  then show ?case by simp
next
  case (Cons spec specs)
  obtain rep1 u where step: "apply_field client spec rep s = (Inr rep1, u)"
    and rest: "apply_fields client specs rep1 u = (Inr rep', t)"
    using Cons.prems(3) by (auto simp: abind_eq_Inr)
  have now: "conforms stored u spec" "\<forall>n. n \<noteq> spec_name spec \<longrightarrow> stored u n = stored s n"
    using apply_field_conforms [OF Cons.prems(1) _ step] by auto
  have later: "\<forall>spec \<in> set specs. conforms stored t spec"
      "\<forall>n. n \<notin> spec_name ` set specs \<longrightarrow> stored t n = stored u n"
    using Cons.IH [OF serves_mono [OF Cons.prems(1)] _ rest] Cons.prems(2) by auto
  have "stored t (spec_name spec) = stored u (spec_name spec)"
    using later(2) Cons.prems(2) by simp
  then have "conforms stored t spec" using now(1) by (simp add: conforms_def)
  then show ?case using later now(2) by auto
qed

lemma apply_fields_unchanged:
  assumes "serves client stored specs" and "\<forall>spec \<in> set specs. conforms stored s spec"
  shows "apply_fields client specs rep s
    = (Inr (rep\<lparr>unchanged := unchanged rep @ map spec_name specs\<rparr>), s)"
  using assms
proof (induction specs arbitrary: rep)
  case Nil
  then show ?case by simp
next
  case (Cons spec specs)
  have "apply_field client spec rep s = (Inr (rep\<lparr>unchanged := unchanged rep @ [spec_name spec]\<rparr>), s)"
    using Cons.prems
    by (auto simp: apply_field_def abind_def serves_fetch [OF Cons.prems(1)] conforms_def
        split: option.splits)
  then show ?case
    using Cons.IH [OF serves_mono [OF Cons.prems(1)]] Cons.prems(2) by (simp add: abind_def)
qed

lemma apply_fields_empty:
  assumes "serves client stored specs" and "distinct (map spec_name specs)"
    and "\<forall>spec \<in> set specs. stored s (spec_name spec) = None"
  shows "\<exists>t. apply_fields client specs rep s
    = (Inr (rep\<lparr>created := created rep @ map spec_name specs\<rparr>), t)"
  using assms
proof (induction specs arbitrary: rep s)
  case Nil
  then show ?case by simp
next
  case (Cons spec specs)
  obtain u r where c: "create_field client spec s = (Inr (), u)"
      "stored u = (stored s)(spec_name spec \<mapsto> r)"
    using serves_create [OF Cons.prems(1), of spec s] Cons.prems(3) by (metis list.set_intros(1))
  have step: "apply_field client spec rep s = (Inr (rep\<lparr>created := created rep @ [spec_name spec]\<rparr>), u)"
    using c(1) Cons.prems(3) by (simp add: apply_field_def abind_def serves_fetch [OF Cons.prems(1)])
  have none: "stored u (spec_name sp) = None" if "sp \<in> set specs" for sp
  proof -
    have "spec_name sp \<noteq> spec_name spec" using that Cons.prems(2) by (metis distinct.simps(2) imageI list.map(2) set_map)
    then show ?thesis using Cons.prems(3) that c(2) by simp
  qed
  obtain t where "apply_fields client specs (rep\<lparr>created := created rep @ [spec_name spec]\<rparr>) u
      = (Inr (rep\<lparr>created := created rep @ [spec_name spec] @ map spec_name specs\<rparr>), t)"
    using Cons.IH [OF serves_mono [OF Cons.prems(1)], of u "rep\<lparr>created := created rep @ [spec_name spec]\<rparr>"]
      none Cons.prems(2) by auto
  then show ?case using step by (simp add: abind_def)
qed

end
