(* ===== verification/Schema_Props.thy ===== *)
theory Schema_Props
  imports Schema "HOL-Library.Code_Target_Nat"
begin

text \<open>
  Properties of applying the custom-field schema, with witnesses on a server that keeps the
  payloads it is sent in a list, newest first.
\<close>

definition payload_name :: "pydict \<Rightarrow> string" where
  "payload_name p = (case dict_get p ''name'' of PyStr n \<Rightarrow> n | _ \<Rightarrow> '''')"

definition list_server :: "((string \<times> pydict) list) cf_api" where
  "list_server =
     \<lparr>cf_get = (\<lambda>name s. (Inr (map_of s name), s)),
      cf_create = (\<lambda>p s. (Inr (), (payload_name p, p) # s)),
      cf_update = (\<lambda>old p s. (Inr (), (payload_name p, p) # s))\<rparr>"

lemma payload_name_spec [simp]: "payload_name (to_payload spec) = spec_name spec"
  by (simp add: payload_name_def dict_get_def to_payload_def)

lemma default_echoes: "list_all (\<lambda>spec. echoes (to_payload spec) (to_payload spec)) DEFAULT_FIELDS"
  by code_simp

lemma list_server_serves: "serves list_server map_of DEFAULT_FIELDS"
  using default_echoes by (auto simp: serves_def list_server_def list_all_iff)

lemma default_names: "map spec_name DEFAULT_FIELDS =
    [''bf3_mode'', ''roce_tc'', ''numa_node'', ''sriov_vfs'', ''gpu_affinity'', ''observed_mac'',
     ''observed_firmware'']"
  by (simp add: DEFAULT_FIELDS_def plain_spec_def)

lemma default_distinct: "distinct (map spec_name DEFAULT_FIELDS)"
  by (simp add: default_names)

lemma fresh_run: "\<exists>t. apply_schema list_server DEFAULT_FIELDS [] =
    (Inr \<lparr>created = map spec_name DEFAULT_FIELDS, updated = [], unchanged = []\<rparr>, t)"
  using apply_fields_empty [OF list_server_serves default_distinct, of "[]" empty_report]
  by (simp add: apply_schema_def empty_report_def)

text \<open>C18: after a successful run every field of the schema is stored in a shape that matches its
  spec, and no other custom field has changed.\<close>

theorem schema_converges:
  assumes "serves client stored specs" and "distinct (map spec_name specs)"
    and "apply_schema client specs s = (Inr report, t)"
  shows "(\<forall>spec \<in> set specs. \<exists>r. stored t (spec_name spec) = Some r \<and> diff spec r = Inr [])
    \<and> (\<forall>name. name \<notin> spec_name ` set specs \<longrightarrow> stored t name = stored s name)"
  using apply_fields_conform [OF assms(1,2) assms(3) [unfolded apply_schema_def]]
  by (auto simp: conforms_def split: option.splits)

theorem schema_converges_witness:
  "\<exists>t. \<forall>spec \<in> set DEFAULT_FIELDS. \<exists>r. map_of t (spec_name spec) = Some r \<and> diff spec r = Inr []"
  using fresh_run schema_converges [OF list_server_serves default_distinct] by blast

text \<open>C19: applying the schema is idempotent: running it again after a success changes nothing on
  the server and reports every field as unchanged.\<close>

theorem schema_idempotent:
  assumes "serves client stored specs" and "distinct (map spec_name specs)"
    and "apply_schema client specs s = (Inr report, t)"
  shows "apply_schema client specs t
      = (Inr \<lparr>created = [], updated = [], unchanged = map spec_name specs\<rparr>, t)
    \<and> is_no_op \<lparr>created = [], updated = [], unchanged = map spec_name specs\<rparr>"
  using apply_fields_conform [OF assms(1,2) assms(3) [unfolded apply_schema_def]]
    apply_fields_unchanged [OF assms(1), of t empty_report]
  by (simp add: apply_schema_def empty_report_def is_no_op_def)

theorem schema_idempotent_witness:
  "\<exists>t. apply_schema list_server DEFAULT_FIELDS t
     = (Inr \<lparr>created = [], updated = [], unchanged = map spec_name DEFAULT_FIELDS\<rparr>, t)"
  using fresh_run schema_idempotent [OF list_server_serves default_distinct] by blast

text \<open>Against a server that has none of the fields, every field is created, in order.\<close>

theorem schema_fresh:
  assumes "serves client stored specs" and "distinct (map spec_name specs)"
    and "\<forall>spec \<in> set specs. stored s (spec_name spec) = None"
  shows "\<exists>t. apply_schema client specs s
    = (Inr \<lparr>created = map spec_name specs, updated = [], unchanged = []\<rparr>, t)"
  using apply_fields_empty [OF assms, of empty_report]
  by (simp add: apply_schema_def empty_report_def)

theorem schema_fresh_witness:
  "\<exists>t. apply_schema list_server DEFAULT_FIELDS [] =
    (Inr \<lparr>created = map spec_name DEFAULT_FIELDS, updated = [], unchanged = []\<rparr>, t)"
  by (rule schema_fresh [OF list_server_serves default_distinct]) simp

text \<open>C20: a successful run accounts for every field exactly once, as created, updated or
  unchanged, whatever the server does.\<close>

theorem schema_report_complete:
  assumes "apply_schema client specs s = (Inr report, t)"
  shows "mset (created report @ updated report @ unchanged report) = mset (map spec_name specs)"
  using apply_fields_report [OF assms [unfolded apply_schema_def]]
  by (simp add: report_names_def empty_report_def add.assoc)

theorem schema_report_complete_witness:
  "mset (map spec_name DEFAULT_FIELDS @ [] @ []) = mset (map spec_name DEFAULT_FIELDS)"
proof -
  obtain t where "apply_schema list_server DEFAULT_FIELDS [] =
    (Inr \<lparr>created = map spec_name DEFAULT_FIELDS, updated = [], unchanged = []\<rparr>, t)"
    using fresh_run by blast
  from schema_report_complete [OF this] show ?thesis by simp
qed

text \<open>Drift that is not recoverable concerns a key the schema never patches.\<close>

lemma unrecoverable_key:
  assumes "diff spec existing = Inr drift" "\<not> is_recoverable drift"
  obtains key where "key \<in> set drift" "key \<in> {''name'', ''type'', ''object_types''}"
proof -
  obtain key where k: "key \<in> set drift" "key \<notin> set RECOVERABLE_DRIFT_KEYS"
    using assms(2) by (auto simp: is_recoverable_def list_all_iff)
  then have "key \<in> fst ` set (to_payload spec)"
    using assms(1) by (auto simp: diff_def dest!: diff_items_Inr intro: rev_image_eqI)
  then have "key \<in> {''name'', ''type'', ''object_types''}"
    using k(2) by (auto simp: to_payload_def RECOVERABLE_DRIFT_KEYS_def split: if_splits option.splits)
  then show thesis using k(1) that by blast
qed

text \<open>C21: a failing run stops at one field: the fields before it have been applied and stay
  applied. What is raised is a query error, or a schema error for that field, whose stored
  shape differs in its name, type or object types, or a \<open>TypeError\<close> if the server reports
  object types that are not a sequence.\<close>

theorem schema_error_stops_at_field:
  assumes "apply_schema client specs s = (Inl e, t)"
  shows "\<exists>pre spec post report u. specs = pre @ spec # post
    \<and> apply_schema client pre s = (Inr report, u)
    \<and> ((\<exists>op msg. e = NetboxQueryError op (CauseExternal msg) None)
      \<or> (\<exists>existing drift key. e = SchemaError (spec_name spec)
            (''unrecoverable drift in field(s): '' @ repr_strs (sort drift)) existing
          \<and> fetch_existing client (spec_name spec) u = (Inr (Some existing), t)
          \<and> diff spec existing = Inr drift
          \<and> key \<in> set drift \<and> key \<in> {''name'', ''type'', ''object_types''})
      \<or> (\<exists>msg. e = TypeError msg))"
proof -
  obtain pre spec post rep u where at: "specs = pre @ spec # post"
    "apply_fields client pre empty_report s = (Inr rep, u)" "apply_field client spec rep u = (Inl e, t)"
    using apply_fields_error [OF assms [unfolded apply_schema_def]] .
  have "(\<exists>op msg. e = NetboxQueryError op (CauseExternal msg) None)
      \<or> (\<exists>existing drift key. e = SchemaError (spec_name spec)
            (''unrecoverable drift in field(s): '' @ repr_strs (sort drift)) existing
          \<and> fetch_existing client (spec_name spec) u = (Inr (Some existing), t)
          \<and> diff spec existing = Inr drift
          \<and> key \<in> set drift \<and> key \<in> {''name'', ''type'', ''object_types''})
      \<or> (\<exists>msg. e = TypeError msg)"
    using apply_field_error [OF at(3)]
  proof (elim disjE exE conjE)
    fix existing drift
    assume f: "fetch_existing client (spec_name spec) u = (Inr (Some existing), t)"
      "diff spec existing = Inr drift" "\<not> is_recoverable drift"
      and e: "e = SchemaError (spec_name spec)
        (''unrecoverable drift in field(s): '' @ repr_strs (sort drift)) existing"
    obtain k where "k \<in> set drift" "k \<in> {''name'', ''type'', ''object_types''}"
      by (rule unrecoverable_key [OF f(2,3)])
    then show ?thesis using f(1,2) e by blast
  next
    fix existing
    assume "diff spec existing = Inl e"
    then have "\<exists>msg. e = TypeError msg" unfolding diff_def by (rule diff_items_error)
    then show ?thesis by blast
  qed blast
  then show ?thesis using at(1,2) unfolding apply_schema_def by blast
qed

text \<open>A server whose \<open>roce_tc\<close> is a text field: the run fails there, after creating \<open>bf3_mode\<close>.\<close>

definition drifted_server :: "(string \<times> pydict) list" where
  "drifted_server =
     [(''roce_tc'', to_payload (plain_spec ''roce_tc'' ''RoCE traffic class'' TEXT [''dcim.interface''] ''''))]"

lemma drifted_run:
  "fst (apply_schema list_server DEFAULT_FIELDS drifted_server) =
     Inl (SchemaError ''roce_tc''
       ''unrecoverable drift in field(s): ['description', 'type', 'validation_maximum', 'validation_minimum']''
       (snd (hd drifted_server)))"
  by code_simp

theorem schema_error_stops_at_field_witness:
  "\<exists>pre spec post report u. DEFAULT_FIELDS = pre @ spec # post
    \<and> apply_schema list_server pre drifted_server = (Inr report, u)"
proof -
  have "apply_schema list_server DEFAULT_FIELDS drifted_server =
     (Inl (SchemaError ''roce_tc''
       ''unrecoverable drift in field(s): ['description', 'type', 'validation_maximum', 'validation_minimum']''
       (snd (hd drifted_server))), snd (apply_schema list_server DEFAULT_FIELDS drifted_server))"
    using drifted_run by (simp add: prod_eq_iff)
  from schema_error_stops_at_field [OF this] show ?thesis by blast
qed

text \<open>A schema error is not atomic: on that server the run raises, and yet \<open>bf3_mode\<close>, which
  was absent, has been created.\<close>

theorem schema_error_is_partial:
  "fst (apply_schema list_server DEFAULT_FIELDS drifted_server) \<in> range Inl
   \<and> map_of drifted_server ''bf3_mode'' = None
   \<and> map_of (snd (apply_schema list_server DEFAULT_FIELDS drifted_server)) ''bf3_mode''
       = Some (to_payload (hd DEFAULT_FIELDS))"
proof (intro conjI)
  show "fst (apply_schema list_server DEFAULT_FIELDS drifted_server) \<in> range Inl"
    by (simp add: drifted_run)
  show "map_of drifted_server ''bf3_mode'' = None" by code_simp
  show "map_of (snd (apply_schema list_server DEFAULT_FIELDS drifted_server)) ''bf3_mode''
       = Some (to_payload (hd DEFAULT_FIELDS))" by code_simp
qed

end
