(* ===== verification/Service.thy ===== *)
theory Service
  imports Loader Emitter
begin

text \<open>
  The HTTP service (src/host_config/service, observability/metrics.py): the metric
  registry as a state, the request-context middleware, the render, health and readiness
  handlers, the translation of exceptions to responses, and where the Netbox client comes
  from. The web framework is a parameter where it decides something: it resolves the route
  of a request and hands the inner response to the middleware. Log records are not modelled,
  and durations only as the fact that one was observed.
\<close>

section \<open>Metrics (observability/metrics.py)\<close>

text \<open>Counters by label values, the in-flight gauge, and the labels histograms observed.\<close>

record metrics =
  REQUESTS_TOTAL :: "((string \<times> string \<times> string) \<times> nat) list"
  REQUEST_DURATION :: "(string \<times> string) list"
  ACTIVE_REQUESTS :: int
  RENDERS_TOTAL :: "((string \<times> string) \<times> nat) list"
  RENDER_DURATION :: "string list"
  NETBOX_QUERY_DURATION :: "string list"

definition no_metrics :: metrics where
  "no_metrics = \<lparr>REQUESTS_TOTAL = [], REQUEST_DURATION = [], ACTIVE_REQUESTS = 0,
     RENDERS_TOTAL = [], RENDER_DURATION = [], NETBOX_QUERY_DURATION = []\<rparr>"

definition inc_requests :: "string \<Rightarrow> string \<Rightarrow> string \<Rightarrow> metrics \<Rightarrow> metrics" where
  "inc_requests method path status m =
     m\<lparr>REQUESTS_TOTAL := counter_add (method, path, status) (REQUESTS_TOTAL m)\<rparr>"

definition observe_request :: "string \<Rightarrow> string \<Rightarrow> metrics \<Rightarrow> metrics" where
  "observe_request method path m = m\<lparr>REQUEST_DURATION := REQUEST_DURATION m @ [(method, path)]\<rparr>"

definition inc_active :: "metrics \<Rightarrow> metrics" where
  "inc_active m = m\<lparr>ACTIVE_REQUESTS := ACTIVE_REQUESTS m + 1\<rparr>"

definition dec_active :: "metrics \<Rightarrow> metrics" where
  "dec_active m = m\<lparr>ACTIVE_REQUESTS := ACTIVE_REQUESTS m - 1\<rparr>"

definition inc_renders :: "string \<Rightarrow> string \<Rightarrow> metrics \<Rightarrow> metrics" where
  "inc_renders r outcome m = m\<lparr>RENDERS_TOTAL := counter_add (r, outcome) (RENDERS_TOTAL m)\<rparr>"

definition observe_render :: "string \<Rightarrow> metrics \<Rightarrow> metrics" where
  "observe_render r m = m\<lparr>RENDER_DURATION := RENDER_DURATION m @ [r]\<rparr>"

definition observe_netbox :: "string \<Rightarrow> metrics \<Rightarrow> metrics" where
  "observe_netbox endpoint m = m\<lparr>NETBOX_QUERY_DURATION := NETBOX_QUERY_DURATION m @ [endpoint]\<rparr>"

definition renders_count :: "metrics \<Rightarrow> nat" where
  "renders_count m = sum_list (map snd (RENDERS_TOTAL m))"

definition requests_count :: "metrics \<Rightarrow> nat" where
  "requests_count m = sum_list (map snd (REQUESTS_TOTAL m))"

lemma sum_counter_add: "sum_list (map snd (counter_add x c)) = Suc (sum_list (map snd c))"
  by (induction x c rule: counter_add.induct) auto


section \<open>Requests and responses\<close>

text \<open>
  \<open>req_route\<close> is the path template of the route the framework matched, if any. A response's
  content is bytes or a JSON value; \<open>resp_body_attr\<close> is its \<open>.body\<close> attribute, if it has
  one.
\<close>

record request =
  req_method :: string
  req_path :: string
  req_id_header :: "string option"
  req_route :: "string option"

datatype content = Bytes "8 word list" | Json pyval

record response =
  resp_status :: int
  resp_headers :: "(string \<times> string) list"
  resp_media_type :: string
  resp_content :: content
  resp_body_attr :: "8 word list option"

definition set_header :: "string \<Rightarrow> string \<Rightarrow> response \<Rightarrow> response" where
  "set_header name v r =
     r\<lparr>resp_headers := filter (\<lambda>(n, _). n \<noteq> name) (resp_headers r) @ [(name, v)]\<rparr>"

definition header :: "response \<Rightarrow> string \<Rightarrow> string option" where
  "header r name = map_of (resp_headers r) name"

definition REQUEST_ID_HEADER :: string where "REQUEST_ID_HEADER = ''X-Request-Id''"

definition CACHE_ROUTE_PREFIX :: string where "CACHE_ROUTE_PREFIX = ''/v1/render/''"

definition CACHE_MAX_AGE :: int where "CACHE_MAX_AGE = 300"

lemma header_set_header:
  "header (set_header name v r) n = (if n = name then Some v else header r n)"
proof -
  have f: "map_of (filter (\<lambda>(m, _). m \<noteq> name) hs) k = (if k = name then None else map_of hs k)" for hs k
    by (induction hs) auto
  show ?thesis by (simp add: header_def set_header_def f map_add_def split: option.splits)
qed

lemma set_header_simps [simp]:
  "resp_status (set_header n v r) = resp_status r" "resp_content (set_header n v r) = resp_content r"
  "resp_body_attr (set_header n v r) = resp_body_attr r"
  "resp_media_type (set_header n v r) = resp_media_type r"
  by (simp_all add: set_header_def)


section \<open>Request ids (middleware.py)\<close>

text \<open>\<open>s.replace(old, '')\<close>\<close>

fun py_remove :: "string \<Rightarrow> string \<Rightarrow> string" where
  "py_remove old [] = []"
| "py_remove old (c # s) =
     (if old \<noteq> [] \<and> starts_with old (c # s) then py_remove old (drop (length old) (c # s))
      else c # py_remove old s)"

text \<open>\<open>int(s, 16)\<close>: surrounding spaces, a sign, a prefix and single underscores are accepted.\<close>

definition hex_val :: "char \<Rightarrow> nat option" where
  "hex_val c = (let n = of_char c :: nat in
     if is_digit c then Some (n - 48)
     else if 97 \<le> n \<and> n \<le> 102 then Some (n - 87)
     else if 65 \<le> n \<and> n \<le> 70 then Some (n - 55)
     else None)"

fun hex_digits :: "bool \<Rightarrow> nat \<Rightarrow> string \<Rightarrow> nat option" where
  "hex_digits after_digit acc [] = (if after_digit then Some acc else None)"
| "hex_digits after_digit acc (c # s) =
     (if c = CHR ''_'' then (if after_digit then hex_digits False acc s else None)
      else case hex_val c of
        None \<Rightarrow> None
      | Some d \<Rightarrow> hex_digits True (acc * 16 + d) s)"

definition int_base16 :: "string \<Rightarrow> int option" where
  "int_base16 s0 =
     (let s1 = py_strip s0;
          neg = (s1 \<noteq> [] \<and> hd s1 = CHR ''-'');
          s2 = (if s1 \<noteq> [] \<and> (hd s1 = CHR ''-'' \<or> hd s1 = CHR ''+'') then tl s1 else s1);
          prefixed = starts_with ''0x'' s2 \<or> starts_with ''0X'' s2;
          s3 = (if prefixed then drop 2 s2 else s2);
          s4 = (if prefixed \<and> s3 \<noteq> [] \<and> hd s3 = CHR ''_'' then tl s3 else s3)
      in map_option (\<lambda>n. if neg then - int n else int n) (hex_digits False 0 s4))"

text \<open>\<open>uuid.UUID(raw)\<close> as its 128-bit value, and \<open>str\<close> of it.\<close>

definition strip_braces :: "string \<Rightarrow> string" where
  "strip_braces s =
     (let p = (\<lambda>c. c = CHR 0x7B \<or> c = CHR 0x7D) in rstrip_by p (dropWhile p s))"

definition parse_uuid :: "string \<Rightarrow> nat option" where
  "parse_uuid raw =
     (let h = py_remove ''-'' (strip_braces (py_remove ''uuid:'' (py_remove ''urn:'' raw)))
      in if length h \<noteq> 32 then None
         else case int_base16 h of
             None \<Rightarrow> None
           | Some i \<Rightarrow> if 0 \<le> i \<and> i < 2 ^ 128 then Some (nat i) else None)"

fun hex_text :: "nat \<Rightarrow> nat \<Rightarrow> string" where
  "hex_text 0 n = []"
| "hex_text (Suc k) n = hex_text k (n div 16) @ [hex_digit (n mod 16)]"

definition uuid_str :: "nat \<Rightarrow> string" where
  "uuid_str n =
     (let h = hex_text 32 n
      in take 8 h @ ''-'' @ take 4 (drop 8 h) @ ''-'' @ take 4 (drop 12 h) @ ''-''
         @ take 4 (drop 16 h) @ ''-'' @ drop 20 h)"

text \<open>\<open>minted\<close> is the 128-bit value of the \<open>uuid4\<close> this request would be given.\<close>

definition coerce_request_id :: "nat \<Rightarrow> string option \<Rightarrow> string" where
  "coerce_request_id minted raw = (case raw of
      None \<Rightarrow> uuid_str minted
    | Some r \<Rightarrow>
        if r = '''' then uuid_str minted
        else (case parse_uuid r of None \<Rightarrow> uuid_str minted | Some n \<Rightarrow> uuid_str n))"

definition route_template :: "request \<Rightarrow> string" where
  "route_template r = (case req_route r of Some path \<Rightarrow> path | None \<Rightarrow> ''<unmatched>'')"


section \<open>The middleware\<close>

text \<open>
  What the middleware needs of its process: the hex digest of SHA-256 and the start time
  rendered once as an HTTP date.
\<close>

record process =
  sha256_hex :: "8 word list \<Rightarrow> string"
  service_start :: string

definition inject_cache_headers :: "process \<Rightarrow> request \<Rightarrow> response \<Rightarrow> response" where
  "inject_cache_headers p req resp =
     (if \<not> starts_with CACHE_ROUTE_PREFIX (req_path req) then resp
      else if resp_status resp \<noteq> 200 then resp
      else
        let raw_body = (case resp_body_attr resp of None \<Rightarrow> [] | Some b \<Rightarrow> b);
            etag = sha256_hex p raw_body
        in set_header ''Last-Modified'' (service_start p)
             (set_header ''ETag'' ([CHR 0x22] @ etag @ [CHR 0x22])
               (set_header ''Cache-Control'' (''public, max-age='' @ str_int CACHE_MAX_AGE) resp)))"

definition finish_request :: "request \<Rightarrow> int \<Rightarrow> metrics \<Rightarrow> metrics" where
  "finish_request req status m =
     (let template = route_template req
      in observe_request (req_method req) template
           (inc_requests (req_method req) template (str_int status) (dec_active m)))"

text \<open>\<open>respond\<close> is \<open>dispatch\<close> from the call of the inner application on.\<close>

definition respond ::
  "process \<Rightarrow> nat \<Rightarrow> (request \<Rightarrow> (metrics, exn, response) act) \<Rightarrow> request
   \<Rightarrow> (metrics, exn, response) act" where
  "respond p minted call_next req m =
     (let request_id = coerce_request_id minted (req_id_header req)
      in case call_next req m of
           (Inl e, m') \<Rightarrow> (Inl e, finish_request req 500 m')
         | (Inr resp, m') \<Rightarrow>
             (Inr (inject_cache_headers p req (set_header REQUEST_ID_HEADER request_id resp)),
              finish_request req (resp_status resp) m'))"

definition dispatch ::
  "process \<Rightarrow> nat \<Rightarrow> (request \<Rightarrow> (metrics, exn, response) act) \<Rightarrow> request
   \<Rightarrow> (metrics, exn, response) act" where
  "dispatch p minted call_next req m = respond p minted call_next req (inc_active m)"


section \<open>Handlers (routes.py)\<close>

definition UNKNOWN_ROLE :: string where "UNKNOWN_ROLE = ''unknown''"

definition plain_response :: "8 word list \<Rightarrow> response" where
  "plain_response body = \<lparr>resp_status = 200, resp_headers = [],
     resp_media_type = ''text/plain; charset=utf-8'', resp_content = Bytes body,
     resp_body_attr = Some body\<rparr>"

definition json_response :: "int \<Rightarrow> pyval \<Rightarrow> response" where
  "json_response status v = \<lparr>resp_status = status, resp_headers = [],
     resp_media_type = ''application/json'', resp_content = Json v, resp_body_attr = None\<rparr>"

text \<open>A failed load is counted under the unknown role, by the class of its error.\<close>

definition load_stage :: "nb_client \<Rightarrow> string \<Rightarrow> (metrics, exn, host_intent) act" where
  "load_stage client tag m = (case load_host_intent client tag of
      Inl e \<Rightarrow>
        (Inl e,
         if is_a e ''HostNotFoundError'' \<or> is_a e ''NetboxQueryError''
         then inc_renders UNKNOWN_ROLE ''netbox_error'' m
         else if is_a e ''InvariantError'' then inc_renders UNKNOWN_ROLE ''validation_error'' m
         else m)
    | Inr intent \<Rightarrow> (Inr intent, observe_netbox ''load_host_intent'' m))"

definition render_stage ::
  "'t environment \<Rightarrow> 't \<Rightarrow> file_kind \<Rightarrow> host_intent \<Rightarrow> (metrics, exn, response) act" where
  "render_stage env clock kind intent m =
     (let r = role_value (host_role intent)
      in case render_for env clock intent (Kind kind) None of
           Inl e \<Rightarrow> (Inl e, inc_renders r ''template_error'' m)
         | Inr body \<Rightarrow> (Inr (plain_response body), inc_renders r ''success'' (observe_render r m)))"

definition render_handler ::
  "'t environment \<Rightarrow> 't \<Rightarrow> file_kind \<Rightarrow> string \<Rightarrow> nb_client \<Rightarrow> (metrics, exn, response) act" where
  "render_handler env clock kind tag client =
     abind (load_stage client tag) (\<lambda>intent. render_stage env clock kind intent)"

definition render_routes :: "(string \<times> file_kind) list" where
  "render_routes = map (\<lambda>k. (''/v1/render/{asset_tag}/'' @ kind_value k, k)) all_kinds"

definition healthz :: response where
  "healthz = json_response 200 (PyDict [(''status'', PyStr ''ok'')])"

definition readyz :: "nb_client \<Rightarrow> response" where
  "readyz client = (case nb_status client of
      Inl e \<Rightarrow> json_response 503 (PyDict [(''status'', PyStr ''unavailable'')])
    | Inr _ \<Rightarrow> json_response 200 (PyDict [(''status'', PyStr ''ready'')]))"

text \<open>The exposition of the registry and its content type are the Prometheus client's.\<close>

definition metrics_route :: "(metrics \<Rightarrow> 8 word list) \<Rightarrow> string \<Rightarrow> metrics \<Rightarrow> response" where
  "metrics_route generate_latest CONTENT_TYPE_LATEST m =
     (let content = generate_latest m
      in \<lparr>resp_status = 200, resp_headers = [], resp_media_type = CONTENT_TYPE_LATEST,
          resp_content = Bytes content, resp_body_attr = Some content\<rparr>)"


section \<open>Exception handlers (app.py)\<close>

definition error_envelope :: "string \<Rightarrow> string \<Rightarrow> pydict option \<Rightarrow> pyval" where
  "error_envelope exc_type message context =
     PyDict [(''error'', PyDict
       [(''type'', PyStr exc_type), (''message'', PyStr message),
        (''context'', PyDict (case context of None \<Rightarrow> [] | Some c \<Rightarrow> c))])]"

text \<open>The instance attributes the constructors of the program's errors set.\<close>

definition exn_attr :: "exn \<Rightarrow> string \<Rightarrow> pyval option" where
  "exn_attr e a = map_of (case e of
      InvariantError invariant detail \<Rightarrow>
        [(''invariant'', PyStr invariant), (''detail'', PyStr detail)]
    | HostNotFoundError tag \<Rightarrow> [(''asset_tag'', PyStr tag)]
    | NetboxQueryError operation c tag \<Rightarrow>
        [(''operation'', PyStr operation), (''cause'', PyStr (cause_str c)),
         (''asset_tag'', case tag of None \<Rightarrow> PyNone | Some t \<Rightarrow> PyStr t)]
    | SchemaError field_name detail observed \<Rightarrow>
        [(''field_name'', PyStr field_name), (''detail'', PyStr detail), (''observed'', PyDict observed)]
    | FixtureLoadError path detail \<Rightarrow> [(''path'', PyStr path), (''detail'', PyStr detail)]
    | FixtureConflictError kind identifier detail \<Rightarrow>
        [(''kind'', PyStr kind), (''identifier'', PyStr identifier), (''detail'', PyStr detail)]
    | _ \<Rightarrow> []) a"

definition attr_or_none :: "exn \<Rightarrow> string \<Rightarrow> pyval" where
  "attr_or_none e a = (case exn_attr e a of None \<Rightarrow> PyNone | Some v \<Rightarrow> v)"

definition message_of :: "exn \<Rightarrow> string" where
  "message_of e = (case host_config_message e of None \<Rightarrow> '''' | Some m \<Rightarrow> m)"

definition on_host_not_found :: "exn \<Rightarrow> response" where
  "on_host_not_found e = json_response 404 (error_envelope ''HostNotFoundError'' (message_of e)
     (Some [(''asset_tag'', attr_or_none e ''asset_tag'')]))"

definition on_invariant :: "exn \<Rightarrow> response" where
  "on_invariant e = json_response 422 (error_envelope ''InvariantError'' (message_of e)
     (Some [(''code'', attr_or_none e ''code'')]))"

definition on_netbox_query :: "exn \<Rightarrow> response" where
  "on_netbox_query e = json_response 502 (error_envelope ''NetboxQueryError'' (message_of e)
     (Some [(''asset_tag'', attr_or_none e ''asset_tag''), (''operation'', attr_or_none e ''operation'')]))"

definition on_host_config :: "exn \<Rightarrow> response" where
  "on_host_config e = json_response 500 (error_envelope (exn_class e) (message_of e) None)"

definition exception_handlers :: "(string \<times> (exn \<Rightarrow> response)) list" where
  "exception_handlers =
     [(''HostNotFoundError'', on_host_not_found), (''InvariantError'', on_invariant),
      (''NetboxQueryError'', on_netbox_query), (''HostConfigError'', on_host_config)]"

text \<open>The handler of the first class of the exception's resolution order that has one.\<close>

fun lookup_handler :: "string list \<Rightarrow> (exn \<Rightarrow> response) option" where
  "lookup_handler [] = None"
| "lookup_handler (cls # mro) = (case map_of exception_handlers cls of
      Some h \<Rightarrow> Some h
    | None \<Rightarrow> lookup_handler mro)"

definition handle_errors :: "('s, exn, response) act \<Rightarrow> ('s, exn, response) act" where
  "handle_errors m s = (case m s of
      (Inl e, t) \<Rightarrow> (case lookup_handler (exn_mro e) of
          Some h \<Rightarrow> (Inr (h e), t)
        | None \<Rightarrow> (Inl e, t))
    | (Inr r, t) \<Rightarrow> (Inr r, t))"

text \<open>
  A render request through the application: the middleware around the error handlers around
  the route's handler. \<open>relay\<close> is how the framework hands the inner response to the
  middleware.
\<close>

definition serve_render ::
  "process \<Rightarrow> (response \<Rightarrow> response) \<Rightarrow> nat \<Rightarrow> 't environment \<Rightarrow> 't \<Rightarrow> nb_client \<Rightarrow> file_kind
   \<Rightarrow> string \<Rightarrow> request \<Rightarrow> (metrics, exn, response) act" where
  "serve_render p relay minted env clock client kind tag =
     dispatch p minted (\<lambda>_. abind (handle_errors (render_handler env clock kind tag client))
       (\<lambda>r. aret (relay r)))"


text \<open>
  The routes of the application, as the framework has matched one, and a request to any of
  them. \<open>scrape\<close> is the Prometheus client's exposition and its content type.
\<close>

datatype service_route = RenderFile file_kind string | Healthz | Readyz | Scrape

definition endpoint_handler ::
  "'t environment \<Rightarrow> 't \<Rightarrow> nb_client \<Rightarrow> (metrics \<Rightarrow> 8 word list) \<times> string \<Rightarrow> service_route
   \<Rightarrow> (metrics, exn, response) act" where
  "endpoint_handler env clock client scrape e = (case e of
      RenderFile kind tag \<Rightarrow> render_handler env clock kind tag client
    | Healthz \<Rightarrow> aret healthz
    | Readyz \<Rightarrow> aret (readyz client)
    | Scrape \<Rightarrow> (\<lambda>m. (Inr (metrics_route (fst scrape) (snd scrape) m), m)))"

definition serve ::
  "process \<Rightarrow> (response \<Rightarrow> response) \<Rightarrow> nat \<Rightarrow> 't environment \<Rightarrow> 't \<Rightarrow> nb_client
   \<Rightarrow> (metrics \<Rightarrow> 8 word list) \<times> string \<Rightarrow> service_route \<Rightarrow> request \<Rightarrow> (metrics, exn, response) act" where
  "serve p relay minted env clock client scrape e =
     dispatch p minted (\<lambda>_. abind (handle_errors (endpoint_handler env clock client scrape e))
       (\<lambda>r. aret (relay r)))"

lemma serve_render_file:
  "serve p relay minted env clock client scrape (RenderFile kind tag)
     = serve_render p relay minted env clock client kind tag"
  by (simp add: serve_def serve_render_def endpoint_handler_def)


section \<open>Dependencies (dependencies.py, app.py)\<close>

definition DEFAULT_NETBOX_URL :: string where "DEFAULT_NETBOX_URL = ''http://127.0.0.1:8000''"

definition resolve_netbox_url :: "(string \<Rightarrow> string option) \<Rightarrow> string" where
  "resolve_netbox_url environ = (case environ ''NETBOX_URL'' of None \<Rightarrow> DEFAULT_NETBOX_URL | Some u \<Rightarrow> u)"

definition resolve_netbox_token :: "(string \<Rightarrow> string option) \<Rightarrow> string option \<Rightarrow> string option" where
  "resolve_netbox_token environ token_file =
     (case environ ''NETBOX_TOKEN'' of
        Some t \<Rightarrow> if t \<noteq> '''' then Some t else map_option py_strip token_file
      | None \<Rightarrow> map_option py_strip token_file)"

definition make_netbox_client ::
  "(string \<Rightarrow> string option \<Rightarrow> 'c) \<Rightarrow> (string \<Rightarrow> string option) \<Rightarrow> string option \<Rightarrow> 'c" where
  "make_netbox_client api environ token_file =
     api (resolve_netbox_url environ) (resolve_netbox_token environ token_file)"

text \<open>The client on \<open>app.state\<close> after startup: an injected one is kept.\<close>

definition lifespan_client ::
  "(string \<Rightarrow> string option \<Rightarrow> 'c) \<Rightarrow> (string \<Rightarrow> string option) \<Rightarrow> string option \<Rightarrow> 'c option \<Rightarrow> 'c" where
  "lifespan_client api environ token_file injected =
     (case injected of Some c \<Rightarrow> c | None \<Rightarrow> make_netbox_client api environ token_file)"

end
