(* ===== verification/Pipeline.thy ===== *)
theory Pipeline
  imports Samples
begin

text \<open>
  From the inventory to the bytes a host boots from: the properties of loading, validating
  and rendering taken together. Each property is followed by a witness on the sample cpu
  host.
\<close>

section \<open>Order of interfaces\<close>

lemma distinct_mset: "mset xs = mset ys \<Longrightarrow> distinct xs \<longleftrightarrow> distinct ys"
  by (rule mset_eq_imp_distinct_iff)

lemma filter_length_mset: "mset xs = mset ys \<Longrightarrow> length (filter P xs) = length (filter P ys)"
  by (metis mset_filter size_mset)

lemma same_up_to_order_sym: "same_up_to_order i j \<Longrightarrow> same_up_to_order j i"
  by (simp add: same_up_to_order_def)

lemma renderable_order_free:
  assumes "same_up_to_order i j" and "renderable i"
  shows "renderable j"
proof -
  have m: "mset (ns_nics i) = mset (ns_nics j)" "mset (vlans i) = mset (vlans j)"
    "mset (roce_underlays i) = mset (roce_underlays j)" "mset (ib_underlays i) = mset (ib_underlays j)"
    "mset (bond_members (host_bond i)) = mset (bond_members (host_bond j))"
    and r: "host_role i = host_role j"
    and b: "(host_bond i)\<lparr>bond_members := []\<rparr> = (host_bond j)\<lparr>bond_members := []\<rparr>"
    using assms(1) by (auto simp: same_up_to_order_def)
  have bond: "bond_name (host_bond i) = bond_name (host_bond j)" "bond_mtu (host_bond i) = bond_mtu (host_bond j)"
    using arg_cong [OF b, of bond_name] arg_cong [OF b, of bond_mtu] by simp_all
  have "mset (all_names (ns_nics i) (roce_underlays i) (vlans i) (ib_underlays i))
      = mset (all_names (ns_nics j) (roce_underlays j) (vlans j) (ib_underlays j))"
    "mset (all_ips (vlans i) (roce_underlays i) (ib_underlays i))
      = mset (all_ips (vlans j) (roce_underlays j) (ib_underlays j))"
    unfolding all_names_def all_ips_def mset_append mset_map m by simp_all
  note d = this [THEN distinct_mset]
  note s = m [THEN mset_eq_setD] and l = m [THEN mset_eq_length]
  have "mset (map vlan_role (vlans i)) = mset (map vlan_role (vlans j))"
    unfolding mset_map m ..
  then show ?thesis
    using assms(2) filter_length_mset [OF m(2), of "\<lambda>v. vlan_gateway v \<noteq> None"]
    unfolding renderable_unfold by (simp add: s l r bond d)
qed

text \<open>Two views of one inventory: the same answers, with the interfaces listed in another order.\<close>

definition reordered :: "nb_client \<Rightarrow> nb_client \<Rightarrow> string \<Rightarrow> bool" where
  "reordered c d tag \<longleftrightarrow>
     nb_get_device c tag = nb_get_device d tag \<and> nb_list_ips c = nb_list_ips d
     \<and> (\<forall>device ifs. nb_get_device c tag = Inr (Some device) \<longrightarrow>
          nb_list_interfaces c (nbd_id device) = Inr ifs \<longrightarrow>
          distinct (map nbi_name ifs)
          \<and> (\<exists>jfs. nb_list_interfaces d (nbd_id device) = Inr jfs \<and> mset jfs = mset ifs))"

lemma build_same_ips:
  assumes "nb_list_ips c = nb_list_ips d"
  shows "build_vlan c tag = build_vlan d tag" "build_roce c tag = build_roce d tag"
    "build_ib c tag = build_ib d tag"
  using assms by (auto simp: fun_eq_iff build_vlan_def build_roce_def build_ib_def fetch_single_ip_def)

lemma underlays_reordered:
  assumes ips: "nb_list_ips c = nb_list_ips d" and "mset jfs = mset ifs" and "distinct (map nbi_name ifs)"
  shows "build_roce_underlays c ifs tag = Inr us \<Longrightarrow> build_roce_underlays d jfs tag = Inr us"
    and "build_ib_underlays c ifs tag = Inr vs \<Longrightarrow> build_ib_underlays d jfs tag = Inr vs"
proof -
  have pm: "mset (filter P jfs) = mset (filter P ifs)" for P using assms(2) by simp
  have df: "distinct (map nbi_name (filter P ifs))" for P using assms(3) by (simp add: distinct_map_filter)
  show "build_roce_underlays d jfs tag = Inr us" if "build_roce_underlays c ifs tag = Inr us"
    using that roce_builder.sorted_perm [OF _ pm df, of c tag is_roce_iface]
    by (auto simp: build_roce_underlays_def build_same_ips(2) [OF ips] rbind_eq_Inr)
  show "build_ib_underlays d jfs tag = Inr vs" if "build_ib_underlays c ifs tag = Inr vs"
    using that ib_builder.sorted_perm [OF _ pm df, of c tag is_ib_iface]
    by (auto simp: build_ib_underlays_def build_same_ips(3) [OF ips] rbind_eq_Inr)
qed

lemma load_reordered:
  assumes r: "reordered c d tag" and load: "load_host_intent c tag = Inr i"
  shows "\<exists>j. load_host_intent d tag = Inr j \<and> same_up_to_order i j"
  using load
proof (rule load_host_intentE)
  fix device ifs
  assume parts: "fetch_device c tag = Inr device" "fetch_interfaces c device tag = Inr ifs"
    "parse_role device tag = Inr (host_role i)"
    "build_ns_nics ifs tag = Inr (ns_nics i)" "build_bond ifs (ns_nics i) tag = Inr (host_bond i)"
    "build_vlans c ifs tag = Inr (vlans i)"
    "build_roce_underlays c ifs tag = Inr (roce_underlays i)"
    "build_ib_underlays c ifs tag = Inr (ib_underlays i)"
    and rest: "asset_tag i = tag" "hostname i = str_opt (nbd_name device)"
      "len_in 1 64 (asset_tag i)" "len_in 1 253 (hostname i)" "renderable i"
  have ips: "nb_list_ips c = nb_list_ips d" using r by (simp add: reordered_def)
  obtain jfs where dist: "distinct (map nbi_name ifs)" and jfs: "mset jfs = mset ifs"
    and f: "fetch_device d tag = Inr device" "fetch_interfaces d device tag = Inr jfs"
    using r parts(1,2)
    by (auto simp: reordered_def fetch_device_def fetch_interfaces_def
        split: sum.splits option.splits)
  have pm: "mset (filter P jfs) = mset (filter P ifs)" for P using jfs by simp
  have "iface_named jfs = iface_named ifs" using dist jfs by (rule iface_named_perm)
  then have ns: "build_ns_nics jfs tag = Inr (ns_nics i)"
      "build_bond jfs (ns_nics i) tag = Inr (host_bond i)"
    using parts(4,5) by (simp_all add: build_ns_nics_def build_bond_def build_ns_nic_def [abs_def])
  obtain vs where vs: "build_vlans d jfs tag = Inr vs" "mset vs = mset (vlans i)"
    using vlan_builder.perm [OF parts(6) [unfolded build_vlans_def] pm]
    by (metis build_vlans_def build_same_ips(1) [OF ips])
  note under = underlays_reordered(1) [OF ips jfs dist parts(7)] underlays_reordered(2) [OF ips jfs dist parts(8)]
  have same: "same_up_to_order i (i\<lparr>vlans := vs\<rparr>)"
    using vs(2) by (simp add: same_up_to_order_def)
  have "mk_host_intent tag (str_opt (nbd_name device)) (host_role i) (ns_nics i) (host_bond i) vs
      (roce_underlays i) (ib_underlays i) = Inr (i\<lparr>vlans := vs\<rparr>)"
    using renderable_order_free [OF same rest(5)] rest by (simp add: mk_host_intent_Inr)
  then show ?thesis
    using load_host_intentI [OF f parts(3) ns vs(1) under] same by auto
qed


section \<open>Properties of the load\<close>

text \<open>C1: whatever an inventory holds, an intent that \<open>load_host_intent\<close> returns is the one
  of the requested asset and satisfies every field constraint of the models and every
  cross-field rule.\<close>

theorem load_well_formed:
  assumes "load_host_intent client tag = Inr i"
  shows "wf_intent i \<and> asset_tag i = tag"
  using load_wf_intent [OF assms] assms by (auto elim: load_host_intentE)

theorem load_well_formed_witness: "wf_intent cpu_intent \<and> asset_tag cpu_intent = ''SN-CPU-001''"
  by (rule load_well_formed [OF cpu_load])

text \<open>
  What Netbox says of an interface, as the host should have it. The last of several interfaces
  of one name is the one that counts.
\<close>

definition listed :: "nb_iface list \<Rightarrow> string \<Rightarrow> nb_iface option" where
  "listed ifs name = find (\<lambda>i. nbi_name i = name) (rev ifs)"

definition mtu_or :: "int \<Rightarrow> nb_iface \<Rightarrow> int" where
  "mtu_or dflt iface = (case nbi_mtu iface of None \<Rightarrow> dflt | Some n \<Rightarrow> n)"

definition mac_text :: "nb_mac \<Rightarrow> string" where
  "mac_text p = (if nbm_mac_address p \<in> {None, Some ''''} then nbm_text p else the (nbm_mac_address p))"

definition mirrors_nic :: "int \<Rightarrow> nb_iface \<Rightarrow> 'a phys_iface_scheme \<Rightarrow> bool" where
  "mirrors_nic dflt iface m \<longleftrightarrow> nic_name m = nbi_name iface \<and> nic_mtu m = mtu_or dflt iface
     \<and> (\<exists>p. nbi_primary_mac iface = Some p \<and> validate_mac (PyStr (py_lower (mac_text p))) = Inr (nic_mac m))"

definition mirrors_address :: "nb_client \<Rightarrow> nb_iface \<Rightarrow> ipv4_interface \<Rightarrow> bool" where
  "mirrors_address client iface a \<longleftrightarrow> (\<exists>s. nb_list_ips client (nbi_id iface) = Inr [s] \<and> parse_interface s = Inr a)"

text \<open>A VLAN child has no name servers, and the gateway of its network if it is the management VLAN.\<close>

definition mirrors_vlan :: "nb_client \<Rightarrow> nb_iface \<Rightarrow> vlan_child \<Rightarrow> bool" where
  "mirrors_vlan client iface v \<longleftrightarrow> vlan_name v = nbi_name iface \<and> vlan_parent v = ''bond0''
     \<and> nbi_untagged_vlan iface = Some \<lparr>nbv_vid = vlan_id v, nbv_name = Some (vlan_role_value (vlan_role v))\<rparr>
     \<and> vlan_mtu v = mtu_or 1500 iface \<and> mirrors_address client iface (vlan_address v)
     \<and> vlan_gateway v = (if vlan_role v = MGMT then Some (word_of_nat (fst (hosts_range (vlan_address v)))) else None)
     \<and> vlan_dns v = [] \<and> vlan_search_domain v = None"

lemma listed_named: "iface_named ifs name = listed ifs name"
proof -
  have "map_of (map (\<lambda>i. (nbi_name i, i)) is) name = find (\<lambda>i. nbi_name i = name) is" for "is"
    by (induction "is") auto
  then show ?thesis by (simp add: iface_named_def listed_def rev_map)
qed

lemma read_mtu_or: "read_mtu iface dflt = mtu_or dflt iface"
  by (simp add: read_mtu_def mtu_or_def)

lemma read_mac_text: "read_mac iface tag = Inr mac \<longleftrightarrow>
    (\<exists>p. nbi_primary_mac iface = Some p \<and> mac = py_lower (mac_text p))"
  by (auto simp: read_mac_def mac_text_def split: option.splits)

lemma mirrors_ns_nic: "build_ns_nic ifs tag name = Inr m \<Longrightarrow>
    \<exists>iface. listed ifs name = Some iface \<and> mirrors_nic 9000 iface m"
  by (auto simp: mirrors_nic_def listed_named read_mtu_or read_mac_text dest!: build_ns_nic_Inr
      iface_named_Some [unfolded listed_named])

lemma mirrors_built_vlan: "build_vlan client tag iface = Inr v \<Longrightarrow> mirrors_vlan client iface v"
  by (frule build_vlan_Inr)
     (auto simp: mirrors_vlan_def mirrors_address_def BOND_NAME_def read_mtu_or build_vlan_def Let_def
       rbind_eq_Inr mk_vlan_child_Inr intro: nb_vlan.equality)

lemma mirrors_built_roce: "build_roce client tag iface = Inr u \<Longrightarrow>
    mirrors_nic 9000 iface u \<and> mirrors_address client iface (roce_address u)
    \<and> read_sriov_vfs iface 16 = Inr (nic_sriov_vfs u)"
  by (auto simp: build_roce_def Let_def rbind_eq_Inr mirrors_nic_def mirrors_address_def read_mtu_or
      read_mac_text fetch_single_ip_Inr dest!: mk_roce_underlay_Inr)

lemma mirrors_built_ib: "build_ib client tag iface = Inr u \<Longrightarrow>
    mirrors_nic 2044 iface u \<and> mirrors_address client iface (ib_address u)"
  by (auto simp: build_ib_def Let_def rbind_eq_Inr mirrors_nic_def mirrors_address_def read_mtu_or
      read_mac_text fetch_single_ip_Inr dest!: mk_infiniband_underlay_Inr)

lemma mirrors_underlays:
  "build_roce_underlays client ifs tag = Inr us \<Longrightarrow> \<exists>vs. us = sort_key nic_name vs
     \<and> list_all2 (\<lambda>iface u. mirrors_nic 9000 iface u \<and> mirrors_address client iface (roce_address u)
         \<and> read_sriov_vfs iface 16 = Inr (nic_sriov_vfs u)) (filter is_roce_iface ifs) vs"
  "build_ib_underlays client ifs tag = Inr ws \<Longrightarrow> \<exists>vs. ws = sort_key nic_name vs
     \<and> list_all2 (\<lambda>iface u. mirrors_nic 2044 iface u \<and> mirrors_address client iface (ib_address u))
         (filter is_ib_iface ifs) vs"
  by (auto simp: build_roce_underlays_def build_ib_underlays_def rbind_eq_Inr
      intro!: mirrors_built_roce mirrors_built_ib elim!: rmap_list_all2)

text \<open>C2: the intent is the host's inventory, field by field: the N-S NICs \<open>nsa\<close> and \<open>nsb\<close> with the MAC
  address and MTU of the interfaces of those names, the LACP bond over exactly them with the MTU
  of \<open>bond0\<close>, one VLAN child per \<open>bond0.\<close> interface in inventory order with its VLAN id, role,
  address, MTU and gateway, and one underlay per \<open>gpuN\<close> or \<open>ibN\<close> interface, ordered by name, with
  its MAC address, MTU, address and number of virtual functions. An MTU that is not set is 9000
  for N-S and RoCE NICs and the bond, 1500 for VLANs and 2044 for InfiniBand.\<close>

theorem load_reflects_inventory:
  assumes "nb_get_device client tag = Inr (Some device)"
    and "nb_list_interfaces client (nbd_id device) = Inr ifs"
    and "load_host_intent client tag = Inr i"
  shows "hostname i = str_opt (nbd_name device)
    \<and> nbd_role device = Some (Some (role_value (host_role i)))
    \<and> list_all2 (\<lambda>name m. \<exists>iface. listed ifs name = Some iface \<and> mirrors_nic 9000 iface m) [''nsa'', ''nsb''] (ns_nics i)
    \<and> (\<exists>iface. listed ifs ''bond0'' = Some iface
        \<and> host_bond i = \<lparr>bond_name = ''bond0'', bond_members = [''nsa'', ''nsb''], bond_mode = Mode_802_3ad,
            bond_lacp_rate = LacpFast, bond_hash_policy = Layer3_4, bond_mtu = mtu_or 9000 iface\<rparr>)
    \<and> list_all2 (mirrors_vlan client) (filter is_vlan_iface ifs) (vlans i)
    \<and> (\<exists>us. roce_underlays i = sort_key nic_name us
        \<and> list_all2 (\<lambda>iface u. mirrors_nic 9000 iface u \<and> mirrors_address client iface (roce_address u)
            \<and> read_sriov_vfs iface 16 = Inr (nic_sriov_vfs u)) (filter is_roce_iface ifs) us)
    \<and> (\<exists>us. ib_underlays i = sort_key nic_name us
        \<and> list_all2 (\<lambda>iface u. mirrors_nic 2044 iface u \<and> mirrors_address client iface (ib_address u))
            (filter is_ib_iface ifs) us)"
  using assms(3)
proof (rule load_host_intentE)
  fix device' ifs'
  assume parts: "fetch_device client tag = Inr device'" "fetch_interfaces client device' tag = Inr ifs'"
    "parse_role device' tag = Inr (host_role i)"
    "build_ns_nics ifs' tag = Inr (ns_nics i)" "build_bond ifs' (ns_nics i) tag = Inr (host_bond i)"
    "build_vlans client ifs' tag = Inr (vlans i)"
    "build_roce_underlays client ifs' tag = Inr (roce_underlays i)"
    "build_ib_underlays client ifs' tag = Inr (ib_underlays i)" "hostname i = str_opt (nbd_name device')"
  have eq: "device' = device" "ifs' = ifs"
    using parts(1,2) assms(1,2) by (auto simp: fetch_device_def fetch_interfaces_def)
  have "nbd_role device = Some (Some (role_value (host_role i)))"
    using parts(3) unfolding eq
    by (auto simp: parse_role_def split: option.splits if_splits dest: role_of_Some)
  moreover have "list_all2 (\<lambda>name m. \<exists>iface. listed ifs name = Some iface \<and> mirrors_nic 9000 iface m)
      [''nsa'', ''nsb''] (ns_nics i)"
    using parts(4) unfolding eq build_ns_nics_def NS_NIC_NAMES_def
    by (rule rmap_list_all2) (rule mirrors_ns_nic)
  moreover have "list_all2 (mirrors_vlan client) (filter is_vlan_iface ifs) (vlans i)"
    using parts(6) unfolding eq build_vlans_def by (rule rmap_list_all2) (rule mirrors_built_vlan)
  moreover have "\<exists>iface. listed ifs ''bond0'' = Some iface
      \<and> host_bond i = \<lparr>bond_name = ''bond0'', bond_members = [''nsa'', ''nsb''], bond_mode = Mode_802_3ad,
          bond_lacp_rate = LacpFast, bond_hash_policy = Layer3_4, bond_mtu = mtu_or 9000 iface\<rparr>"
    using build_bond_Inr [OF parts(5)] build_ns_nics_Inr(1) [OF parts(4)] unfolding eq
    by (cases "host_bond i") (simp add: NS_NIC_NAMES_def BOND_NAME_def listed_named read_mtu_or)
  ultimately show ?thesis
    using parts(9) mirrors_underlays(1) [OF parts(7)] mirrors_underlays(2) [OF parts(8)]
    unfolding eq by (intro conjI) (simp_all only:)
qed

text \<open>C7: when every interface's fields are within the declared bounds and its address strings
  parse, a failing load raises one of the program's own errors: the host is not found, a
  query error that names the asset, or a violated cross-field rule. Missing NICs, a missing
  bond, missing VLANs, MACs or addresses are all covered.\<close>

theorem load_errors_typed:
  assumes "netbox_fields_ok client tag" and "load_host_intent client tag = Inl e"
  shows "typed_load_error tag e \<and> is_host_config_error e"
  using load_typed_error [OF assms] typed_is_host_config_error by blast

text \<open>C4: the order in which Netbox lists the interfaces does not decide anything: a reordered
  inventory loads to the same host up to the order of its VLANs, and renders to the same
  bytes as long as VLAN ids differ.\<close>

theorem load_and_render_order_free:
  assumes "reordered c d tag" and "load_host_intent c tag = Inr i"
    and "inj_on vlan_id (set (vlans i))"
  shows "\<exists>j. load_host_intent d tag = Inr j \<and> same_up_to_order i j
    \<and> (\<forall>(env :: 't environment) clock k now.
         render_for env clock i k now = render_for env clock j k now)"
proof -
  obtain j where "load_host_intent d tag = Inr j" "same_up_to_order i j"
    using load_reordered [OF assms(1,2)] by blast
  moreover have "renderable i" using load_wf_intent [OF assms(2)] by (simp add: wf_intent_def)
  moreover have "render_for env clock i k now = render_for env clock j k now"
    if "same_up_to_order i j" "renderable i" for env :: "'t environment" and clock k now
    using that assms(3) by (rule render_for_order_free)
  ultimately show ?thesis by blast
qed


lemma cpu_view:
  "nb_get_device (inventory ifs) ''SN-CPU-001'' = Inr (Some cpu_device)"
  "nb_list_interfaces (inventory ifs) n = Inr ifs"
  by (simp_all add: inventory_def)

theorem load_reflects_inventory_witness:
  "map nic_name (ns_nics cpu_intent) = [''nsa'', ''nsb''] \<and>
   list_all2 (\<lambda>iface v. vlan_name v = nbi_name iface) cpu_virtual (vlans cpu_intent)"
proof -
  have f: "filter is_vlan_iface cpu_ifaces = cpu_virtual" by code_simp
  have named: "listed cpu_ifaces name = Some iface \<Longrightarrow> nbi_name iface = name" for name iface
    using iface_named_Some [of cpu_ifaces name iface] by (simp add: listed_named)
  show ?thesis
    using load_reflects_inventory [OF cpu_view [of cpu_ifaces, folded cpu_client_def] cpu_load]
    unfolding f by (auto simp: list_all2_Cons1 mirrors_nic_def mirrors_vlan_def dest: named elim: list_all2_mono)
qed

text \<open>A host without its second N-S NIC.\<close>

definition one_nic_client :: nb_client where
  "one_nic_client = inventory [nic_iface 10 ''nsa'' ''AA:BB:CC:00:01:01'' 9000]"

lemma one_nic_load: "load_host_intent one_nic_client ''SN-CPU-001'' =
    Inl (query_value_error ''find_ns_nic'' (''missing N-S interface '' @ repr_str ''nsb'') ''SN-CPU-001'')"
proof -
  have "build_ns_nics [nic_iface 10 ''nsa'' ''AA:BB:CC:00:01:01'' 9000] ''SN-CPU-001'' =
      Inl (query_value_error ''find_ns_nic'' (''missing N-S interface '' @ repr_str ''nsb'') ''SN-CPU-001'')"
    by code_simp
  then show ?thesis
    by (simp add: load_host_intent_def one_nic_client_def cpu_fetch)
qed

lemma one_nic_fields: "netbox_fields_ok one_nic_client ''SN-CPU-001''"
proof -
  let ?i = "nic_iface 10 ''nsa'' ''AA:BB:CC:00:01:01'' 9000"
  have "is_ok (validate_mac (PyStr ''aa:bb:cc:00:01:01''))" by code_simp
  moreover have "py_lower ''AA:BB:CC:00:01:01'' = ''aa:bb:cc:00:01:01''" by code_simp
  then have "read_mac ?i t = Inr ''aa:bb:cc:00:01:01''" for t
    by (simp add: read_mac_def nic_iface_def)
  moreover have "read_sriov_vfs ?i 16 = Inr 16" by code_simp
  ultimately have "iface_fields_ok one_nic_client ?i"
    by (simp add: iface_fields_ok_def one_nic_client_def inventory_def cpu_ips_def len_in_def
        int_in_def MIN_MTU_def MAX_MTU_def nic_iface_def)
  then show ?thesis
    by (simp add: netbox_fields_ok_def one_nic_client_def inventory_def len_in_def cpu_device_def
        str_opt_def)
qed

theorem load_errors_typed_witness:
  "is_host_config_error
     (query_value_error ''find_ns_nic'' (''missing N-S interface '' @ repr_str ''nsb'') ''SN-CPU-001'')"
  using load_errors_typed [OF one_nic_fields one_nic_load] by simp

lemma cpu_reordered: "reordered cpu_client (inventory (rev cpu_ifaces)) ''SN-CPU-001''"
  by (simp add: reordered_def cpu_client_def inventory_def cpu_ifaces_def cpu_nics_def cpu_virtual_def
      nic_iface_def virtual_iface_def)

lemma cpu_vlan_ids: "inj_on vlan_id (set (vlans cpu_intent))"
  by (simp add: cpu_intent_def cpu_vlans_def)

theorem load_and_render_order_free_witness:
  "\<exists>j. load_host_intent (inventory (rev cpu_ifaces)) ''SN-CPU-001'' = Inr j
     \<and> same_up_to_order cpu_intent j"
  using load_and_render_order_free [OF cpu_reordered cpu_load cpu_vlan_ids, where 't = unit] by blast

lemma loaded_plain_names:
  assumes "load_host_intent client tag = Inr i"
  shows "plain_names i"
  using assms
proof (rule load_host_intentE)
  fix device ifs
  assume parts: "build_ns_nics ifs tag = Inr (ns_nics i)"
    "build_bond ifs (ns_nics i) tag = Inr (host_bond i)"
    "build_vlans client ifs tag = Inr (vlans i)"
    "build_roce_underlays client ifs tag = Inr (roce_underlays i)"
    "build_ib_underlays client ifs tag = Inr (ib_underlays i)"
  have pre: "plain_name (nbi_name f)" if "is_vlan_iface f \<or> is_roce_iface f \<or> is_ib_iface f" for f
    using that by (auto simp: plain_name_def is_vlan_iface_def is_roce_iface_def is_ib_iface_def
        VLAN_NAME_PREFIX_def ROCE_NIC_PREFIX_def IB_NIC_PREFIX_def starts_with_iff)
  have "map vlan_name (vlans i) = map nbi_name (filter is_vlan_iface ifs)"
    using vlan_builder.names [OF parts(3) [unfolded build_vlans_def]] .
  then show ?thesis
    using pre build_ns_nics_Inr(1) [OF parts(1)] build_bond_Inr [OF parts(2)]
      build_roce_underlays_Inr(2) [OF parts(4)] build_ib_underlays_Inr(2) [OF parts(5)]
    by (auto simp: plain_names_def list_all_iff NS_NIC_NAMES_def BOND_NAME_def plain_name_def)
qed

lemma concat_gateways:
  "concat (map (\<lambda>v. case vlan_gateway v of None \<Rightarrow> [] | Some g \<Rightarrow> [f g]) vs) =
   map (\<lambda>v. f (the (vlan_gateway v))) (filter (\<lambda>v. vlan_gateway v \<noteq> None) vs)"
  by (induction vs) (auto split: option.splits)

lemma renderable_gateway_list:
  assumes "renderable i" and "mset vs = mset (vlans i)"
  obtains v where "filter (\<lambda>v. vlan_gateway v \<noteq> None) vs = [v]" "v \<in> set (vlans i)" "vlan_role v = MGMT"
proof -
  have "length (filter (\<lambda>v. vlan_gateway v \<noteq> None) vs) = 1"
    using assms filter_length_mset [OF assms(2), of "\<lambda>v. vlan_gateway v \<noteq> None"]
    by (simp add: renderable_unfold)
  then obtain v where v: "filter (\<lambda>v. vlan_gateway v \<noteq> None) vs = [v]"
    by (cases "filter (\<lambda>v. vlan_gateway v \<noteq> None) vs") auto
  then have "v \<in> set vs \<and> vlan_gateway v \<noteq> None"
    by (metis (mono_tags, lifting) filter_eq_ConsD in_set_conv_decomp)
  then have "v \<in> set (vlans i)" "vlan_gateway v \<noteq> None" using mset_eq_setD [OF assms(2)] by auto
  then show thesis using that v renderable_gateway_iff [OF assms(1)] by blast
qed

lemma loaded_vlan:
  assumes "load_host_intent client tag = Inr i" and "v \<in> set (vlans i)"
  obtains iface where "build_vlan client tag iface = Inr v"
  using assms by (elim load_host_intentE) (auto simp: build_vlans_def dest: rmap_set)

lemma built_gateway:
  assumes "build_vlan client tag iface = Inr v" and "vlan_role v = MGMT"
  shows "\<exists>g. vlan_gateway v = Some g \<and> derive_gateway (vlan_address v) = Inr g
    \<and> in_network (vlan_address v) g"
proof -
  have b: "vlan_gateway v = Some (word_of_nat (fst (hosts_range (vlan_address v))))"
    and p: "if_plen (vlan_address v) \<le> 32"
    using build_vlan_Inr [OF assms(1)] assms(2) by (auto dest: parse_interface_plen)
  show ?thesis
    using b derive_gateway_total [OF p] hosts_in_network [OF p order_refl hosts_range_nonempty [OF p]]
    by simp
qed

lemma loaded_via_line:
  assumes "load_host_intent client tag = Inr i"
  shows "\<exists>v \<in> set (vlans i). \<exists>g. vlan_role v = MGMT \<and> vlan_gateway v = Some g
    \<and> derive_gateway (vlan_address v) = Inr g \<and> in_network (vlan_address v) g
    \<and> filter via_line (network_config_lines (canonicalize i)) = [''          via: '' @ ipv4_str g]"
proof -
  have r: "renderable i" using load_wf_intent [OF assms] by (simp add: wf_intent_def)
  obtain v where v: "filter (\<lambda>v. vlan_gateway v \<noteq> None) (sort_key vlan_id (vlans i)) = [v]"
      "v \<in> set (vlans i)" "vlan_role v = MGMT"
    using renderable_gateway_list [OF r, of "sort_key vlan_id (vlans i)"] by auto
  obtain iface where "build_vlan client tag iface = Inr v" using loaded_vlan [OF assms v(2)] .
  then obtain g where g: "vlan_gateway v = Some g" "derive_gateway (vlan_address v) = Inr g"
      "in_network (vlan_address v) g" using built_gateway v(3) by blast
  have "plain_names (canonicalize i)"
    using loaded_plain_names [OF assms] by (simp add: plain_names_def list_all_iff)
  then have "filter via_line (network_config_lines (canonicalize i)) = [''          via: '' @ ipv4_str g]"
    using v(1) g(1) by (simp add: via_network_config concat_gateways)
  then show ?thesis
    using v(2,3) g by blast
qed



text \<open>C14: cloud-init reads the network configuration from the \<open>network-config\<close> file or from the
  copy inside user-data, depending on its version; for every role the copy is the same document,
  indented by six columns and without its blank lines, in a file of mode 0600, and a later
  command applies it.\<close>

theorem user_data_embeds_network_config:
  "\<exists>pre post. user_data_lines ctx = pre @ plain
       ([''  - path: /etc/netplan/60-lab.yaml'',
         ''    permissions: '' @ [CHR 0x27] @ ''0600'' @ [CHR 0x27],
         ''    owner: root:root'', ''    content: |'']
        @ map (\<lambda>l. ''      '' @ l) (filter (\<lambda>l. l \<noteq> '''') (network_config_lines ctx)))
      @ [[]] @ post
    \<and> utext_of ''  - netplan apply'' \<in> set post"
proof -
  have copy: "netplan_file_lines ctx = [''  - path: /etc/netplan/60-lab.yaml'',
         ''    permissions: '' @ [CHR 0x27] @ ''0600'' @ [CHR 0x27],
         ''    owner: root:root'', ''    content: |'']
        @ map (\<lambda>l. ''      '' @ l) (filter (\<lambda>l. l \<noteq> '''') (network_config_lines ctx))"
    by (simp add: netplan_file_lines_def embedded_network_config embedded_def)
  show ?thesis
    unfolding copy [symmetric] by (rule user_data_netplan_file)
qed

text \<open>The cpu golden: what is rendered for the sample host is the committed file
  render/golden/cpu/network-config, line by line.\<close>

theorem cpu_golden_network_config:
  "network_config_lines (canonicalize cpu_intent) =
   [''network:'',
    ''  version: 2'',
    ''  renderer: networkd'',
    '''',
    ''  ethernets:'',
    ''    nsa:'',
    ''      match:'',
    ''        macaddress: aa:bb:cc:00:01:01'',
    ''      set-name: nsa'',
    ''      mtu: 9000'',
    ''    nsb:'',
    ''      match:'',
    ''        macaddress: aa:bb:cc:00:01:02'',
    ''      set-name: nsb'',
    ''      mtu: 9000'',
    '''',
    ''  bonds:'',
    ''    bond0:'',
    ''      interfaces:'',
    ''        - nsa'',
    ''        - nsb'',
    ''      mtu: 9000'',
    ''      parameters:'',
    ''        mode: 802.3ad'',
    ''        lacp-rate: fast'',
    ''        transmit-hash-policy: layer3+4'',
    '''',
    ''  vlans:'',
    ''    bond0.100:'',
    ''      id: 100'',
    ''      link: bond0'',
    ''      mtu: 1500'',
    ''      addresses:'',
    ''        - 10.42.10.11/24'',
    ''      routes:'',
    ''        - to: default'',
    ''          via: 10.42.10.1'',
    ''    bond0.200:'',
    ''      id: 200'',
    ''      link: bond0'',
    ''      mtu: 9000'',
    ''      addresses:'',
    ''        - 10.42.20.11/24'',
    ''    bond0.300:'',
    ''      id: 300'',
    ''      link: bond0'',
    ''      mtu: 1500'',
    ''      addresses:'',
    ''        - 10.42.30.11/24'']"
  by code_simp

text \<open>A host without one of its N-S NICs is refused with a query error that names the missing
  interface, before any cross-field rule is looked at.\<close>

theorem missing_ns_nic_error:
  assumes "nb_get_device client tag = Inr (Some device)"
    and "nb_list_interfaces client (nbd_id device) = Inr ifs" and "parse_role device tag = Inr r"
    and "''nsa'' \<notin> nbi_name ` set ifs"
  shows "load_host_intent client tag = Inl (NetboxQueryError ''find_ns_nic''
    (CauseValueError (''missing N-S interface '' @ repr_str ''nsa'')) (Some tag))"
proof -
  have "iface_named ifs ''nsa'' = None" using assms(4) by (simp add: iface_named_None)
  then have "build_ns_nics ifs tag = Inl (query_value_error ''find_ns_nic''
      (''missing N-S interface '' @ repr_str ''nsa'') tag)"
    by (simp add: build_ns_nics_def NS_NIC_NAMES_def build_ns_nic_def)
  then show ?thesis
    using assms(1-3)
    by (simp add: load_host_intent_def fetch_device_def fetch_interfaces_def query_value_error_def)
qed

theorem missing_ns_nic_error_witness:
  "load_host_intent (inventory cpu_virtual) ''SN-CPU-001'' = Inl (NetboxQueryError ''find_ns_nic''
    (CauseValueError (''missing N-S interface '' @ repr_str ''nsa'')) (Some ''SN-CPU-001''))"
  by (rule missing_ns_nic_error [OF cpu_view cpu_fetch(3)])
     (simp add: cpu_virtual_def virtual_iface_def)

end
