(* ===== verification/Service_Props.thy ===== *)
theory Service_Props
  imports Service Pipeline
begin

text \<open>
  Properties of the service: request ids, what a render request answers, and what it leaves
  in the metrics, also when requests overlap.
\<close>

section \<open>UUID texts\<close>

definition uuid_shape :: "string \<Rightarrow> bool" where
  "uuid_shape s \<longleftrightarrow> map length (split_char CHR ''-'' s) = [8, 4, 4, 4, 12]
     \<and> list_all (list_all is_hex_lower) (split_char CHR ''-'' s)"

lemma hex_digit_lower: "n < 16 \<Longrightarrow> is_hex_lower (hex_digit n)"
  and hex_val_digit: "n < 16 \<Longrightarrow> hex_val (hex_digit n) = Some n"
proof -
  have "list_all (\<lambda>n. is_hex_lower (hex_digit n) \<and> hex_val (hex_digit n) = Some n) [0..<16]"
    by code_simp
  then show "n < 16 \<Longrightarrow> is_hex_lower (hex_digit n)" "n < 16 \<Longrightarrow> hex_val (hex_digit n) = Some n"
    by (simp_all add: list_all_iff)
qed

lemma hex_text_length [simp]: "length (hex_text k n) = k"
  by (induction k n rule: hex_text.induct) auto

lemma hex_text_lower: "list_all is_hex_lower (hex_text k n)"
  by (induction k n rule: hex_text.induct) (auto simp: hex_digit_lower)

lemma hex_lower_chars:
  assumes "is_hex_lower c"
  shows "c \<noteq> CHR ''-''" "c \<noteq> CHR ''u''" "c \<noteq> CHR ''x''" "c \<noteq> CHR ''X''" "c \<noteq> CHR ''_''"
    "c \<noteq> CHR ''+''" "c \<noteq> CHR 0x7B" "c \<noteq> CHR 0x7D" "\<not> is_space c"
  using assms by (auto simp: is_hex_lower_def is_digit_def is_space_def)

definition uuid_parts :: "nat \<Rightarrow> string list" where
  "uuid_parts n = (let h = hex_text 32 n
     in [take 8 h, take 4 (drop 8 h), take 4 (drop 12 h), take 4 (drop 16 h), drop 20 h])"

lemma uuid_str_parts: "uuid_str n = join_str ''-'' (uuid_parts n)"
  by (simp add: uuid_str_def uuid_parts_def Let_def)

lemma hex_text_chars: "c \<in> set (hex_text k n) \<Longrightarrow> is_hex_lower c"
  using hex_text_lower [of k n] by (simp add: list_all_iff)

lemma uuid_parts_lower: "p \<in> set (uuid_parts n) \<Longrightarrow> c \<in> set p \<Longrightarrow> is_hex_lower c"
  by (auto simp: uuid_parts_def Let_def intro: hex_text_chars [of _ 32 n]
      dest!: in_set_takeD in_set_dropD)

lemma uuid_str_shape: "uuid_shape (uuid_str n)"
proof -
  have "split_char CHR ''-'' (uuid_str n) = uuid_parts n"
    unfolding uuid_str_parts
  proof (rule split_join)
    show "uuid_parts n \<noteq> []" by (simp add: uuid_parts_def Let_def)
    show "CHR ''-'' \<notin> set w" if "w \<in> set (uuid_parts n)" for w
      using uuid_parts_lower [OF that] hex_lower_chars(1) by blast
  qed
  moreover have "map length (uuid_parts n) = [8, 4, 4, 4, 12]" by (simp add: uuid_parts_def Let_def)
  ultimately show ?thesis using uuid_parts_lower by (auto simp: uuid_shape_def list_all_iff)
qed

lemma py_remove_none: "old \<noteq> [] \<Longrightarrow> hd old \<notin> set s \<Longrightarrow> py_remove old s = s"
  by (induction old s rule: py_remove.induct) (auto simp: starts_with_def neq_Nil_conv)

lemma py_remove_char: "py_remove [d] s = filter (\<lambda>c. c \<noteq> d) s"
  by (induction "[d]" s rule: py_remove.induct) (auto simp: starts_with_def)

lemma uuid_str_chars: "c \<in> set (uuid_str n) \<Longrightarrow> c = CHR ''-'' \<or> is_hex_lower c"
  by (auto simp: uuid_str_def Let_def dest!: in_set_takeD in_set_dropD hex_text_chars)

lemma uuid_str_hex: "filter (\<lambda>c. c \<noteq> CHR ''-'') (uuid_str n) = hex_text 32 n"
proof -
  have none: "filter (\<lambda>c. c \<noteq> CHR ''-'') p = p" if "set p \<subseteq> set (hex_text 32 n)" for p
    using that by (auto simp: filter_id_conv dest!: hex_text_chars hex_lower_chars(1))
  have parts: "set (take k (drop j (hex_text 32 n))) \<subseteq> set (hex_text 32 n)" for k j
    by (auto dest!: in_set_takeD in_set_dropD)
  have sub: "filter (\<lambda>c. c \<noteq> CHR ''-'') (take k (drop j (hex_text 32 n))) = take k (drop j (hex_text 32 n))" for k j
    by (rule none [OF parts])
  have "filter (\<lambda>c. c \<noteq> CHR ''-'') (uuid_str n)
      = take 8 (hex_text 32 n) @ take 4 (drop 8 (hex_text 32 n)) @ take 4 (drop 12 (hex_text 32 n))
        @ take 4 (drop 16 (hex_text 32 n)) @ drop 20 (hex_text 32 n)"
    using sub [of 8 0] sub [of 4 8] sub [of 4 12] sub [of 4 16] sub [of 12 20]
    by (simp add: uuid_str_def Let_def)
  also have "\<dots> = hex_text 32 n"
  proof -
    have cut: "take a (drop b xs) @ drop (a + b) xs = drop b xs" for a b and xs :: string
      by (metis append_take_drop_id drop_drop)
    show ?thesis
      using cut [of 4 16 "hex_text 32 n"] cut [of 4 12 "hex_text 32 n"] cut [of 4 8 "hex_text 32 n"]
        cut [of 8 0 "hex_text 32 n"] by simp
  qed
  finally show ?thesis .
qed

lemma hex_digits_lower:
  assumes "list_all is_hex_lower s"
  shows "hex_digits b acc s
    = (if s = [] \<and> \<not> b then None else Some (foldl (\<lambda>a c. a * 16 + the (hex_val c)) acc s))"
proof -
  have val: "\<exists>d. hex_val c = Some d" if "is_hex_lower c" for c
    using that by (auto simp: hex_val_def is_hex_lower_def Let_def)
  show ?thesis using assms
    by (induction b acc s rule: hex_digits.induct)
       (auto simp: hex_lower_chars dest!: val split: option.splits)
qed

lemma foldl_hex_text:
  "foldl (\<lambda>a c. a * 16 + the (hex_val c)) acc (hex_text k n) = acc * 16 ^ k + n mod 16 ^ k"
proof (induction k arbitrary: n)
  case 0
  then show ?case by simp
next
  case (Suc k)
  have "n mod 16 ^ Suc k = (n div 16) mod 16 ^ k * 16 + n mod 16"
    by (simp add: mod_mult2_eq)
  then show ?case by (simp add: Suc hex_val_digit)
qed

lemma int_base16_hex_text: "0 < k \<Longrightarrow> int_base16 (hex_text k n) = Some (int (n mod 16 ^ k))"
proof -
  assume k: "0 < k"
  let ?h = "hex_text k n"
  have ne: "?h \<noteq> []" using k by (metis hex_text_length length_greater_0_conv)
  have strip: "py_strip ?h = ?h"
    by (rule py_strip_none) (auto simp: list_all_iff dest!: hex_text_chars hex_lower_chars(9))
  have hd: "is_hex_lower (hd ?h)" using ne by (intro hex_text_chars [of _ k n]) simp
  have "\<not> starts_with (CHR ''0'' # [x]) ?h" if "x \<in> {CHR ''x'', CHR ''X''}" for x
  proof
    assume "starts_with (CHR ''0'' # [x]) ?h"
    then have "x \<in> set ?h" by (auto simp: starts_with_iff)
    then show False using that hex_text_chars [of x k n] hex_lower_chars(3,4) [of x] by auto
  qed
  then have "\<not> starts_with ''0x'' ?h" "\<not> starts_with ''0X'' ?h" by simp_all
  then show ?thesis
    using ne hd hex_text_lower [of k n]
    by (simp add: int_base16_def Let_def strip hex_lower_chars hex_digits_lower foldl_hex_text)
qed

lemma parse_uuid_str: "n < 2 ^ 128 \<Longrightarrow> parse_uuid (uuid_str n) = Some n"
proof -
  assume n: "n < 2 ^ 128"
  have no: "c \<notin> set (uuid_str n)" if "c \<in> {CHR ''u'', CHR 0x7B, CHR 0x7D}" for c
    using that uuid_str_chars [of c n] hex_lower_chars(2,7,8) [of c] by auto
  have r: "py_remove ''urn:'' (uuid_str n) = uuid_str n" "py_remove ''uuid:'' (uuid_str n) = uuid_str n"
    by (rule py_remove_none; simp add: no)+
  have "\<forall>c \<in> set (uuid_str n). \<not> (c = CHR 0x7B \<or> c = CHR 0x7D)" using no by blast
  then have b: "strip_braces (uuid_str n) = uuid_str n"
    by (auto simp: strip_braces_def Let_def rstrip_by_def dropWhile_none list_all_iff)
  have "(16::nat) ^ 32 = 2 ^ 128" by (simp add: power_mult [symmetric])
  then show ?thesis
    using n by (simp add: parse_uuid_def r b py_remove_char uuid_str_hex int_base16_hex_text Let_def)
qed


lemma request_id_shape_lemma: "uuid_shape (coerce_request_id minted raw)"
  by (auto simp: coerce_request_id_def uuid_str_shape split: option.splits)

text \<open>C28: whatever a caller sends as \<open>X-Request-Id\<close>, the id used in logs and in the response
  has the shape of a UUID; an inbound id in canonical form is kept.\<close>

theorem request_id_shape:
  "uuid_shape (coerce_request_id minted raw)
   \<and> (\<forall>n < 2 ^ 128. coerce_request_id minted (Some (uuid_str n)) = uuid_str n)"
proof -
  have "uuid_str n \<noteq> ''''" for n
    using uuid_str_shape [of n] by (auto simp: uuid_shape_def)
  then show ?thesis
    by (auto simp: coerce_request_id_def uuid_str_shape parse_uuid_str split: option.splits)
qed

theorem request_id_shape_witness:
  "coerce_request_id 7 (Some (uuid_str 12)) = uuid_str 12"
  using request_id_shape [of 7 None] by auto


section \<open>The answer to a render request\<close>

text \<open>Headers aside, the framework relays the response of the route unchanged.\<close>

definition faithful_relay :: "(response \<Rightarrow> response) \<Rightarrow> bool" where
  "faithful_relay relay \<longleftrightarrow> (\<forall>r. resp_status (relay r) = resp_status r
     \<and> resp_content (relay r) = resp_content r \<and> resp_headers (relay r) = resp_headers r)"

text \<open>The status code an exception is answered with, if a handler covers it.\<close>

definition error_status :: "exn \<Rightarrow> int option" where
  "error_status e = (case e of
      HostNotFoundError _ \<Rightarrow> Some 404
    | InvariantError _ _ \<Rightarrow> Some 422
    | NetboxQueryError _ _ _ \<Rightarrow> Some 502
    | _ \<Rightarrow> if is_host_config_error e then Some 500 else None)"

definition render_result ::
  "'t environment \<Rightarrow> 't \<Rightarrow> file_kind \<Rightarrow> string \<Rightarrow> nb_client \<Rightarrow> exn + 8 word list" where
  "render_result env clock kind tag client =
     rbind (load_host_intent client tag) (\<lambda>i. render_for env clock i (Kind kind) None)"

lemma lookup_handler_mro: "case lookup_handler (exn_mro e) of
    None \<Rightarrow> error_status e = None
  | Some h \<Rightarrow> error_status e = Some (resp_status (h e)) \<and> resp_headers (h e) = []
      \<and> resp_status (h e) \<noteq> 200
      \<and> (\<exists>context. resp_content (h e) = Json (error_envelope (exn_class e) (message_of e) context)
          \<and> (resp_status (h e) = 422 \<longrightarrow> context = Some [(''code'', PyNone)]))"
  by (cases e) (auto simp: exn_mro_def exn_class_def exn_bases_def exception_handlers_def
      error_status_def is_host_config_error_def is_a_def on_host_not_found_def on_invariant_def
      on_netbox_query_def on_host_config_def json_response_def attr_or_none_def exn_attr_def)

lemma render_handler_result:
  "fst (render_handler env clock kind tag client m)
     = (case render_result env clock kind tag client of
          Inl e \<Rightarrow> Inl e | Inr body \<Rightarrow> Inr (plain_response body))"
  by (auto simp: render_handler_def render_result_def abind_def load_stage_def render_stage_def
      rbind_def Let_def split: sum.splits)

lemma handle_errors_result: "fst (handle_errors act m) = (case fst (act m) of
    Inr r \<Rightarrow> Inr r
  | Inl e \<Rightarrow> (case lookup_handler (exn_mro e) of Some h \<Rightarrow> Inr (h e) | None \<Rightarrow> Inl e))"
  by (auto simp: handle_errors_def split: prod.splits sum.splits option.splits)

lemma handle_errors_state: "snd (handle_errors act m) = snd (act m)"
  by (auto simp: handle_errors_def split: prod.splits sum.splits option.splits)

lemma dispatch_result: "fst (dispatch p minted next req m) = (case fst (next req (inc_active m)) of
    Inl e \<Rightarrow> Inl e
  | Inr r \<Rightarrow> Inr (inject_cache_headers p req (set_header REQUEST_ID_HEADER
      (coerce_request_id minted (req_id_header req)) r)))"
  by (auto simp: dispatch_def respond_def Let_def split: prod.splits sum.splits)

lemma serve_render_result: "fst (serve_render p relay minted env clock client kind tag req m) =
   (let finish = (\<lambda>r. inject_cache_headers p req (set_header REQUEST_ID_HEADER
          (coerce_request_id minted (req_id_header req)) (relay r)))
    in case render_result env clock kind tag client of
      Inr body \<Rightarrow> Inr (finish (plain_response body))
    | Inl e \<Rightarrow> (case lookup_handler (exn_mro e) of Some h \<Rightarrow> Inr (finish (h e)) | None \<Rightarrow> Inl e))"
proof -
  have "fst (abind a (\<lambda>r. aret (relay r)) m') = (case fst (a m') of Inl e \<Rightarrow> Inl e | Inr r \<Rightarrow> Inr (relay r))"
    for a :: "(metrics, exn, response) act" and m'
    by (auto simp: abind_def split: prod.splits sum.splits)
  then show ?thesis
    by (auto simp: serve_render_def dispatch_result handle_errors_result render_handler_result Let_def
        split: sum.splits option.splits)
qed

lemma inject_simps [simp]:
  "resp_status (inject_cache_headers p req r) = resp_status r"
  "resp_content (inject_cache_headers p req r) = resp_content r"
  by (simp_all add: inject_cache_headers_def Let_def)

lemma inject_header: "header (inject_cache_headers p req r) n =
   (if starts_with CACHE_ROUTE_PREFIX (req_path req) \<and> resp_status r = 200
    then (if n = ''Last-Modified'' then Some (service_start p)
          else if n = ''ETag'' then Some ([CHR 0x22] @ sha256_hex p
            (case resp_body_attr r of None \<Rightarrow> [] | Some b \<Rightarrow> b) @ [CHR 0x22])
          else if n = ''Cache-Control'' then Some ''public, max-age=300''
          else header r n)
    else header r n)"
proof -
  have "str_int CACHE_MAX_AGE = ''300''" by code_simp
  then show ?thesis by (simp add: inject_cache_headers_def Let_def header_set_header)
qed

lemma faithful_simps:
  assumes "faithful_relay relay"
  shows "resp_status (relay r) = resp_status r" "resp_content (relay r) = resp_content r"
    "header (relay r) n = header r n"
  using assms by (simp_all add: faithful_relay_def header_def)

lemma render_request_answer_lemma:
  assumes "faithful_relay relay"
  shows "case render_result env clock kind tag client of
     Inr body \<Rightarrow> \<exists>r. fst (serve_render p relay minted env clock client kind tag req m) = Inr r
        \<and> resp_status r = 200 \<and> resp_content r = Bytes body
   | Inl e \<Rightarrow> (case error_status e of
        Some status \<Rightarrow> \<exists>r context. fst (serve_render p relay minted env clock client kind tag req m) = Inr r
          \<and> resp_status r = status
          \<and> resp_content r = Json (error_envelope (exn_class e) (message_of e) context)
          \<and> (status = 422 \<longrightarrow> context = Some [(''code'', PyNone)])
      | None \<Rightarrow> fst (serve_render p relay minted env clock client kind tag req m) = Inl e)"
proof (cases "render_result env clock kind tag client")
  case (Inr body)
  then show ?thesis
    by (simp add: serve_render_result Let_def faithful_simps [OF assms] plain_response_def)
next
  case (Inl e)
  show ?thesis
  proof (cases "lookup_handler (exn_mro e)")
    case None
    then show ?thesis using Inl lookup_handler_mro [of e] by (simp add: serve_render_result Let_def)
  next
    case (Some h)
    then show ?thesis using Inl lookup_handler_mro [of e]
      by (auto simp: serve_render_result Let_def faithful_simps [OF assms])
  qed
qed

text \<open>C24: the answer to a render request is decided by loading and rendering alone: 200 with the
  rendered bytes; otherwise the status of the error's class (404 for an unknown host, 422 for
  a violated rule, 502 for a Netbox failure, 500 for other errors of the program) with an
  envelope naming the class and its message, which for a violated rule never has the rule in
  its context: the handler reads an attribute \<open>code\<close> that the exception does not have. An exception that is none of the program's
  own is not answered at all but raised to the server.\<close>

theorem render_request_answer:
  assumes "faithful_relay relay"
  shows "case render_result env clock kind tag client of
     Inr body \<Rightarrow> \<exists>r. fst (serve_render p relay minted env clock client kind tag req m) = Inr r
        \<and> resp_status r = 200 \<and> resp_content r = Bytes body
   | Inl e \<Rightarrow> (case error_status e of
        Some status \<Rightarrow> \<exists>r context. fst (serve_render p relay minted env clock client kind tag req m) = Inr r
          \<and> resp_status r = status
          \<and> resp_content r = Json (error_envelope (exn_class e) (message_of e) context)
          \<and> (status = 422 \<longrightarrow> context = Some [(''code'', PyNone)])
      | None \<Rightarrow> fst (serve_render p relay minted env clock client kind tag req m) = Inl e)"
  using assms by (rule render_request_answer_lemma)

lemma cpu_render_result:
  "render_result template_tree clock kind ''SN-CPU-001'' cpu_client = Inr (rendered kind cpu_intent)"
  by (simp add: render_result_def cpu_load render_for_tree)

lemma faithful_id: "faithful_relay (\<lambda>r. r)"
  by (simp add: faithful_relay_def)

text \<open>A process, and a request for the sample host's network configuration.\<close>

definition sample_process :: process where
  "sample_process = \<lparr>sha256_hex = (\<lambda>b. if b = [] then ''e3b0'' else ''9f86''),
     service_start = ''Thu, 01 Jan 2026 00:00:00 GMT''\<rparr>"

definition sample_request :: request where
  "sample_request = \<lparr>req_method = ''GET'', req_path = ''/v1/render/SN-CPU-001/network-config'',
     req_id_header = None, req_route = Some ''/v1/render/{asset_tag}/network-config''\<rparr>"

definition sample_serve ::
  "(response \<Rightarrow> response) \<Rightarrow> nb_client \<Rightarrow> metrics \<Rightarrow> (exn + response) \<times> metrics" where
  "sample_serve relay client = serve_render sample_process relay 5 template_tree () client
     NETWORK_CONFIG ''SN-CPU-001'' sample_request"

theorem render_request_answer_witness:
  "\<exists>r. fst (sample_serve (\<lambda>r. r) cpu_client no_metrics) = Inr r \<and> resp_status r = 200"
  using render_request_answer [OF faithful_id, where env = template_tree and clock = "()"
      and kind = NETWORK_CONFIG and tag = "''SN-CPU-001''" and client = cpu_client
      and p = sample_process and minted = 5 and req = sample_request and m = no_metrics]
  by (auto simp: cpu_render_result sample_serve_def)

lemma served_response:
  assumes "fst (serve_render p relay minted env clock client kind tag req m) = Inr r"
  obtains r0 where "r = inject_cache_headers p req (set_header REQUEST_ID_HEADER
        (coerce_request_id minted (req_id_header req)) (relay r0))" "resp_headers r0 = []"
proof (cases "render_result env clock kind tag client")
  case (Inr body)
  then show thesis
    using assms that [of "plain_response body"]
    by (simp add: serve_render_result Let_def plain_response_def)
next
  case (Inl e)
  then obtain h where "lookup_handler (exn_mro e) = Some h"
    using assms by (auto simp: serve_render_result Let_def split: option.splits)
  then show thesis
    using assms Inl that [of "h e"] lookup_handler_mro [of e] by (simp add: serve_render_result Let_def)
qed

text \<open>C25: every answer to a render request carries a request id of UUID shape; it may be cached,
  for 300 seconds, exactly if its status is 200, so an error is never cached. Behind a relay that drops the
  \<open>.body\<close> attribute, as streaming responses do, the entity tag is the digest of no bytes
  whatever was rendered.\<close>

theorem render_request_headers:
  assumes "faithful_relay relay" and "starts_with ''/v1/render/'' (req_path req)"
    and "fst (serve_render p relay minted env clock client kind tag req m) = Inr r"
  shows "(\<exists>request_id. header r ''X-Request-Id'' = Some request_id \<and> uuid_shape request_id)
    \<and> header r ''Cache-Control'' = (if resp_status r = 200 then Some ''public, max-age=300'' else None)
    \<and> (header r ''ETag'' = None \<longleftrightarrow> resp_status r \<noteq> 200)
    \<and> (header r ''Last-Modified'' = None \<longleftrightarrow> resp_status r \<noteq> 200)
    \<and> (resp_status r = 200 \<and> (\<forall>x. resp_body_attr (relay x) = None)
         \<longrightarrow> header r ''ETag'' = Some ([CHR 0x22] @ sha256_hex p [] @ [CHR 0x22]))"
proof -
  obtain r0 where r: "r = inject_cache_headers p req (set_header REQUEST_ID_HEADER
        (coerce_request_id minted (req_id_header req)) (relay r0))" and none: "resp_headers r0 = []"
    using assms(3) by (rule served_response)
  have "header (relay r0) n = None" for n
    unfolding faithful_simps(3) [OF assms(1)] using none by (simp add: header_def)
  then show ?thesis
    using assms(2) request_id_shape_lemma
    by (simp add: r inject_header header_set_header CACHE_ROUTE_PREFIX_def REQUEST_ID_HEADER_def)
qed

definition streaming :: "response \<Rightarrow> response" where
  "streaming r = r\<lparr>resp_body_attr := None\<rparr>"

lemma faithful_streaming: "faithful_relay streaming" "resp_body_attr (streaming r) = None"
  by (simp_all add: faithful_relay_def streaming_def)

theorem render_request_headers_witness:
  "\<exists>r. fst (sample_serve streaming cpu_client no_metrics) = Inr r
     \<and> header r ''Cache-Control'' = Some ''public, max-age=300''
     \<and> header r ''ETag'' = Some ([CHR 0x22] @ ''e3b0'' @ [CHR 0x22])"
proof -
  obtain r where r: "fst (sample_serve streaming cpu_client no_metrics) = Inr r" "resp_status r = 200"
    by (simp add: sample_serve_def serve_render_result Let_def cpu_render_result plain_response_def
        faithful_simps [OF faithful_streaming(1)])
  have "starts_with ''/v1/render/'' (req_path sample_request)"
    by (simp add: sample_request_def starts_with_def)
  from render_request_headers [OF faithful_streaming(1) this r(1) [unfolded sample_serve_def]] r
  show ?thesis by (auto simp: faithful_streaming(2) sample_process_def)
qed


section \<open>Metrics, also when requests overlap\<close>

lemma metrics_frame [simp]:
  "ACTIVE_REQUESTS (inc_renders r o1 m) = ACTIVE_REQUESTS m"
  "ACTIVE_REQUESTS (observe_render r m) = ACTIVE_REQUESTS m"
  "ACTIVE_REQUESTS (observe_netbox ep m) = ACTIVE_REQUESTS m"
  "ACTIVE_REQUESTS (inc_active m) = ACTIVE_REQUESTS m + 1"
  "requests_count (inc_renders r o1 m) = requests_count m"
  "requests_count (observe_render r m) = requests_count m"
  "requests_count (observe_netbox ep m) = requests_count m"
  "requests_count (inc_active m) = requests_count m"
  "renders_count (inc_renders r o1 m) = Suc (renders_count m)"
  "renders_count (observe_render r m) = renders_count m"
  "renders_count (observe_netbox ep m) = renders_count m"
  "renders_count (inc_active m) = renders_count m"
  by (simp_all add: inc_renders_def observe_render_def observe_netbox_def inc_active_def
      requests_count_def renders_count_def sum_counter_add)

lemma finish_frame [simp]:
  "ACTIVE_REQUESTS (finish_request req status m) = ACTIVE_REQUESTS m - 1"
  "requests_count (finish_request req status m) = Suc (requests_count m)"
  "renders_count (finish_request req status m) = renders_count m"
  by (simp_all add: finish_request_def Let_def observe_request_def inc_requests_def dec_active_def
      requests_count_def renders_count_def sum_counter_add)

text \<open>A load error that the handler counts: one of the three classes it catches.\<close>

definition counted_error :: "exn \<Rightarrow> bool" where
  "counted_error e \<longleftrightarrow> (case e of
      HostNotFoundError _ \<Rightarrow> True | NetboxQueryError _ _ _ \<Rightarrow> True | InvariantError _ _ \<Rightarrow> True
    | _ \<Rightarrow> False)"

definition counted_renders :: "nb_client \<Rightarrow> string \<Rightarrow> nat" where
  "counted_renders client tag = (case load_host_intent client tag of
      Inr _ \<Rightarrow> 1 | Inl e \<Rightarrow> (if counted_error e then 1 else 0))"

lemma load_stage_state:
  "ACTIVE_REQUESTS (snd (load_stage client tag m)) = ACTIVE_REQUESTS m"
  "requests_count (snd (load_stage client tag m)) = requests_count m"
  "renders_count (snd (load_stage client tag m)) = renders_count m
     + (case load_host_intent client tag of Inr _ \<Rightarrow> 0 | Inl e \<Rightarrow> if counted_error e then 1 else 0)"
  by (auto simp: load_stage_def counted_error_def exn_class_defs split: sum.splits exn.splits)

lemma render_stage_state:
  "ACTIVE_REQUESTS (snd (render_stage env clock kind i m)) = ACTIVE_REQUESTS m"
  "requests_count (snd (render_stage env clock kind i m)) = requests_count m"
  "renders_count (snd (render_stage env clock kind i m)) = Suc (renders_count m)"
  by (auto simp: render_stage_def Let_def split: sum.splits)

lemma load_stage_result: "fst (load_stage client tag m) = load_host_intent client tag"
  by (auto simp: load_stage_def split: sum.splits)

lemma abind_state: "snd (abind a f m) = (case fst (a m) of
    Inl e \<Rightarrow> snd (a m) | Inr x \<Rightarrow> snd (f x (snd (a m))))"
  by (auto simp: abind_def split: prod.splits sum.splits)

lemma render_handler_state:
  "ACTIVE_REQUESTS (snd (render_handler env clock kind tag client m)) = ACTIVE_REQUESTS m"
  "requests_count (snd (render_handler env clock kind tag client m)) = requests_count m"
  "renders_count (snd (render_handler env clock kind tag client m))
     = renders_count m + counted_renders client tag"
  using load_stage_state [of client tag m]
  by (auto simp: render_handler_def abind_state load_stage_result render_stage_state
      counted_renders_def split: sum.splits)

text \<open>The route's part of a render request: what runs between arrival and response.\<close>

definition render_call ::
  "(response \<Rightarrow> response) \<Rightarrow> 't environment \<Rightarrow> 't \<Rightarrow> nb_client \<Rightarrow> file_kind \<Rightarrow> string
   \<Rightarrow> request \<Rightarrow> (metrics, exn, response) act" where
  "render_call relay env clock client kind tag req =
     abind (handle_errors (render_handler env clock kind tag client)) (\<lambda>r. aret (relay r))"

lemma serve_render_call:
  "serve_render p relay minted env clock client kind tag
     = dispatch p minted (render_call relay env clock client kind tag)"
  by (simp add: serve_render_def render_call_def [abs_def])

lemma render_call_state: "snd (render_call relay env clock client kind tag req m)
    = snd (render_handler env clock kind tag client m)"
  by (auto simp: render_call_def abind_state handle_errors_state split: sum.splits)

lemma dispatch_state: "\<exists>status. snd (dispatch p minted next req m)
    = finish_request req status (snd (next req (inc_active m)))"
  by (auto simp: dispatch_def respond_def Let_def split: prod.splits sum.splits)

lemma render_request_metrics_lemma:
  "ACTIVE_REQUESTS (snd (serve_render p relay minted env clock client kind tag req m)) = ACTIVE_REQUESTS m
   \<and> requests_count (snd (serve_render p relay minted env clock client kind tag req m))
       = Suc (requests_count m)
   \<and> renders_count (snd (serve_render p relay minted env clock client kind tag req m))
       = renders_count m + (case load_host_intent client tag of
           Inr _ \<Rightarrow> 1
         | Inl e \<Rightarrow> if is_a e ''HostNotFoundError'' \<or> is_a e ''NetboxQueryError'' \<or> is_a e ''InvariantError''
             then 1 else 0)"
proof -
  obtain status where s: "snd (serve_render p relay minted env clock client kind tag req m)
      = finish_request req status (snd (render_handler env clock kind tag client (inc_active m)))"
    using dispatch_state [of p minted "render_call relay env clock client kind tag" req m]
    by (auto simp: serve_render_call render_call_state)
  have "counted_error e \<longleftrightarrow> is_a e ''HostNotFoundError'' \<or> is_a e ''NetboxQueryError''
      \<or> is_a e ''InvariantError''" for e
    by (cases e) (simp_all add: counted_error_def exn_class_defs)
  then show ?thesis
    by (simp add: s render_handler_state counted_renders_def split: sum.splits)
qed

text \<open>The outcome a request is counted under, and the roles whose rendering took measurable time.\<close>

definition render_outcome :: "'t environment \<Rightarrow> 't \<Rightarrow> file_kind \<Rightarrow> string \<Rightarrow> nb_client \<Rightarrow> (string \<times> string) option" where
  "render_outcome env clock kind tag client = (case load_host_intent client tag of
      Inr i \<Rightarrow> Some (role_value (host_role i),
        case render_for env clock i (Kind kind) None of Inr _ \<Rightarrow> ''success'' | Inl _ \<Rightarrow> ''template_error'')
    | Inl e \<Rightarrow> (case e of
          HostNotFoundError _ \<Rightarrow> Some (''unknown'', ''netbox_error'')
        | NetboxQueryError _ _ _ \<Rightarrow> Some (''unknown'', ''netbox_error'')
        | InvariantError _ _ \<Rightarrow> Some (''unknown'', ''validation_error'')
        | _ \<Rightarrow> None))"

definition rendered_roles :: "'t environment \<Rightarrow> 't \<Rightarrow> file_kind \<Rightarrow> string \<Rightarrow> nb_client \<Rightarrow> string list" where
  "rendered_roles env clock kind tag client = (case render_outcome env clock kind tag client of
      Some (r, outcome) \<Rightarrow> if outcome = ''success'' then [r] else [] | None \<Rightarrow> [])"

definition queried :: "nb_client \<Rightarrow> string \<Rightarrow> string list" where
  "queried client tag = (case load_host_intent client tag of Inr _ \<Rightarrow> [''load_host_intent''] | Inl _ \<Rightarrow> [])"

lemma render_handler_metrics:
  "snd (render_handler env clock kind tag client m) = m
    \<lparr>RENDERS_TOTAL := (case render_outcome env clock kind tag client of
        Some label \<Rightarrow> counter_add label (RENDERS_TOTAL m) | None \<Rightarrow> RENDERS_TOTAL m),
     RENDER_DURATION := RENDER_DURATION m @ rendered_roles env clock kind tag client,
     NETBOX_QUERY_DURATION := NETBOX_QUERY_DURATION m @ queried client tag\<rparr>"
proof (cases "load_host_intent client tag")
  case (Inl e)
  then show ?thesis
    by (cases e) (simp_all add: render_handler_def abind_state load_stage_def render_outcome_def rendered_roles_def
        queried_def exn_class_defs inc_renders_def UNKNOWN_ROLE_def)
next
  case (Inr i)
  then show ?thesis
    by (cases "render_for env clock i (Kind kind) None")
       (simp_all add: render_handler_def abind_state load_stage_def render_stage_def Let_def render_outcome_def
        rendered_roles_def queried_def inc_renders_def observe_render_def observe_netbox_def)
qed

lemma dispatch_metrics: "snd (dispatch p minted next req m) = finish_request req
    (case fst (dispatch p minted next req m) of Inr r \<Rightarrow> resp_status r | Inl _ \<Rightarrow> 500) (snd (next req (inc_active m)))"
  by (auto simp: dispatch_def respond_def Let_def split: prod.splits sum.splits)

text \<open>C26: what serving a render request leaves in the metrics, series by series: the gauge is where it
  was; the request counter goes up by one under the method, the route and the status that is
  answered, 500 when an exception leaves the application, and under no other labels; the render
  counter goes up by one under the role and outcome, \<open>netbox_error\<close> and \<open>validation_error\<close> under
  the role \<open>unknown\<close>, and not at all when the load fails with an error the handler does not
  know; one duration is observed for the request, one for the load if it succeeds, and one for
  the rendering if it succeeds.\<close>

theorem render_request_metrics:
  "case serve_render p relay minted env clock client kind tag req m of (answer, t) \<Rightarrow>
     ACTIVE_REQUESTS t = ACTIVE_REQUESTS m
   \<and> counter_get (REQUESTS_TOTAL t) = (\<lambda>k. counter_get (REQUESTS_TOTAL m) k
       + (if k = (req_method req, route_template req,
                  str_int (case answer of Inr r \<Rightarrow> resp_status r | Inl _ \<Rightarrow> 500)) then 1 else 0))
   \<and> counter_get (RENDERS_TOTAL t) = (\<lambda>k. counter_get (RENDERS_TOTAL m) k
       + (if render_outcome env clock kind tag client = Some k then 1 else 0))
   \<and> REQUEST_DURATION t = REQUEST_DURATION m @ [(req_method req, route_template req)]
   \<and> NETBOX_QUERY_DURATION t = NETBOX_QUERY_DURATION m @ queried client tag
   \<and> RENDER_DURATION t = RENDER_DURATION m @ rendered_roles env clock kind tag client"
proof -
  let ?serve = "serve_render p relay minted env clock client kind tag req m"
  have t: "snd ?serve = finish_request req (case fst ?serve of Inr r \<Rightarrow> resp_status r | Inl _ \<Rightarrow> 500)
      (snd (render_handler env clock kind tag client (inc_active m)))"
    using dispatch_metrics [of p minted "render_call relay env clock client kind tag" req m]
    by (simp only: serve_render_call render_call_state)
  obtain answer u where run: "?serve = (answer, u)" by fastforce
  show ?thesis
    using t unfolding run render_handler_metrics
    by (simp add: finish_request_def Let_def observe_request_def inc_requests_def dec_active_def inc_active_def
        counter_get_add fun_eq_iff split: option.splits)
qed


text \<open>
  Requests overlap: while one waits for Netbox, others arrive and finish. A state is the
  registry with the requests in flight and the number answered; a step is an arrival or an
  answer.
\<close>

record service_state =
  registry :: metrics
  in_flight :: "request multiset"
  answered :: nat

definition idle :: service_state where
  "idle = \<lparr>registry = no_metrics, in_flight = {#}, answered = 0\<rparr>"

inductive service_step ::
  "process \<Rightarrow> (request \<Rightarrow> (metrics, exn, response) act) \<Rightarrow> service_state \<Rightarrow> service_state \<Rightarrow> bool"
  for p :: process and call_next :: "request \<Rightarrow> (metrics, exn, response) act"
where
  arrive: "service_step p call_next s
     (s\<lparr>registry := inc_active (registry s), in_flight := add_mset req (in_flight s)\<rparr>)"
| answer: "req \<in># in_flight s \<Longrightarrow> respond p minted call_next req (registry s) = (res, m) \<Longrightarrow>
     service_step p call_next s
       (s\<lparr>registry := m, in_flight := in_flight s - {#req#}, answered := Suc (answered s)\<rparr>)"

inductive_cases service_stepE: "service_step p call_next s t"

text \<open>The interface of a route: it leaves the two request-level metrics to the middleware.\<close>

locale http_route =
  fixes call_next :: "request \<Rightarrow> (metrics, exn, response) act"
  assumes keeps_active: "ACTIVE_REQUESTS (snd (call_next req m)) = ACTIVE_REQUESTS m"
    and keeps_requests: "requests_count (snd (call_next req m)) = requests_count m"
begin

lemma respond_metrics:
  assumes "respond p minted call_next req m = (res, m')"
  shows "ACTIVE_REQUESTS m' = ACTIVE_REQUESTS m - 1" "requests_count m' = Suc (requests_count m)"
  using assms keeps_active [of req m] keeps_requests [of req m]
  by (auto simp: respond_def Let_def split: prod.splits sum.splits)

lemma step_invariant:
  assumes "service_step p call_next s t"
    and "ACTIVE_REQUESTS (registry s) = int (size (in_flight s))
      \<and> requests_count (registry s) = answered s"
  shows "ACTIVE_REQUESTS (registry t) = int (size (in_flight t))
    \<and> requests_count (registry t) = answered t"
  using assms
proof cases
  case (arrive req)
  then show ?thesis using assms(2) by simp
next
  case (answer req minted res m)
  have "size (in_flight s) = Suc (size (in_flight s - {#req#}))"
    using answer(2) by (metis insert_DiffM size_add_mset)
  then show ?thesis using answer assms(2) respond_metrics [OF answer(3)] by simp
qed

lemma reachable_metrics:
  assumes "(service_step p call_next)\<^sup>*\<^sup>* idle s"
  shows "ACTIVE_REQUESTS (registry s) = int (size (in_flight s))
    \<and> requests_count (registry s) = answered s"
  using assms
proof (induction rule: rtranclp_induct)
  case base
  then show ?case by (simp add: idle_def no_metrics_def requests_count_def)
next
  case (step s t)
  then show ?case using step_invariant by blast
qed

end

text \<open>The route's part of a request to any endpoint.\<close>

definition endpoint_call ::
  "(response \<Rightarrow> response) \<Rightarrow> 't environment \<Rightarrow> 't \<Rightarrow> nb_client \<Rightarrow> (metrics \<Rightarrow> 8 word list) \<times> string
   \<Rightarrow> service_route \<Rightarrow> request \<Rightarrow> (metrics, exn, response) act" where
  "endpoint_call relay env clock client scrape e req =
     abind (handle_errors (endpoint_handler env clock client scrape e)) (\<lambda>r. aret (relay r))"

lemma serve_endpoint_call:
  "serve p relay minted env clock client scrape e
     = dispatch p minted (endpoint_call relay env clock client scrape e)"
  by (simp add: serve_def endpoint_call_def [abs_def])

lemma endpoint_call_state: "snd (endpoint_call relay env clock client scrape e req m)
    = snd (endpoint_handler env clock client scrape e m)"
  by (auto simp: endpoint_call_def abind_state handle_errors_state split: sum.splits)

lemma endpoint_handler_state:
  "ACTIVE_REQUESTS (snd (endpoint_handler env clock client scrape e m)) = ACTIVE_REQUESTS m"
  "requests_count (snd (endpoint_handler env clock client scrape e m)) = requests_count m"
  by (cases e; simp add: endpoint_handler_def render_handler_state)+

text \<open>Every endpoint of the application is one.\<close>

interpretation endpoints: http_route
  "\<lambda>req. endpoint_call relay env clock client scrape (route req) req"
  for relay env clock client scrape route
  by unfold_locales (simp_all add: endpoint_call_state endpoint_handler_state)

text \<open>C23: however requests to the endpoints overlap, the in-flight gauge is at every moment the
  number of requests that have arrived and are not answered yet, so it is never negative and
  returns to zero, and the request counter is the number of requests answered.\<close>

theorem overlapping_requests_metrics:
  assumes "(service_step p (\<lambda>req. endpoint_call relay env clock client scrape (route req) req))\<^sup>*\<^sup>* idle s"
  shows "ACTIVE_REQUESTS (registry s) = int (size (in_flight s))
    \<and> requests_count (registry s) = answered s"
  using assms by (rule endpoints.reachable_metrics)

text \<open>A request for the sample host's network configuration waits while a scrape arrives.\<close>

definition two_routes :: "request \<Rightarrow> service_route" where
  "two_routes req = (if req = sample_request then RenderFile NETWORK_CONFIG ''SN-CPU-001'' else Scrape)"

definition scrape_request :: request where
  "scrape_request = \<lparr>req_method = ''GET'', req_path = ''/metrics'', req_id_header = None,
     req_route = Some ''/metrics''\<rparr>"

theorem overlapping_requests_metrics_witness:
  "ACTIVE_REQUESTS (inc_active (inc_active no_metrics)) = 2"
proof -
  let ?next = "\<lambda>req. endpoint_call streaming template_tree () cpu_client (\<lambda>_. [], ''text/plain'')
    (two_routes req) req"
  let ?one = "idle\<lparr>registry := inc_active (registry idle),
      in_flight := add_mset sample_request (in_flight idle)\<rparr>"
  let ?two = "?one\<lparr>registry := inc_active (registry ?one),
      in_flight := add_mset scrape_request (in_flight ?one)\<rparr>"
  have "(service_step sample_process ?next)\<^sup>*\<^sup>* idle ?one"
    using service_step.arrive by (rule r_into_rtranclp)
  moreover have "service_step sample_process ?next ?one ?two" by (rule service_step.arrive)
  ultimately have "(service_step sample_process ?next)\<^sup>*\<^sup>* idle ?two"
    by (rule rtranclp.rtrancl_into_rtrancl)
  from overlapping_requests_metrics [OF this] show ?thesis by (simp add: idle_def)
qed

definition operational_status :: "nb_client \<Rightarrow> service_route \<Rightarrow> int" where
  "operational_status client e =
     (case e of Readyz \<Rightarrow> (case nb_status client of Inl _ \<Rightarrow> 503 | Inr _ \<Rightarrow> 200) | _ \<Rightarrow> 200)"

lemma operational_handler:
  assumes "\<forall>kind tag. e \<noteq> RenderFile kind tag"
  shows "\<exists>r. endpoint_handler env clock client scrape e m = (Inr r, m)
    \<and> resp_status r = operational_status client e \<and> resp_headers r = []
    \<and> (e = Scrape \<longrightarrow> resp_content r = Bytes (fst scrape m))"
  using assms
  by (cases e) (simp_all add: endpoint_handler_def operational_status_def healthz_def readyz_def
      json_response_def metrics_route_def Let_def split: sum.splits)

lemma renders_finish: "renders_count (finish_request req status (inc_active m)) = renders_count m"
  by (simp add: renders_count_def finish_request_def Let_def observe_request_def inc_requests_def
      dec_active_def inc_active_def)



text \<open>C22: end to end: for an inventory whose field values are in bounds, a request for any of the
  three files of any host is answered, with 200, 404, 422 or 502, and counted once as a render;
  the templates never fail.\<close>

theorem render_request_total:
  assumes "faithful_relay relay" and "netbox_fields_ok client tag"
  shows "\<exists>r m'. serve_render p relay minted template_tree clock client kind tag req m = (Inr r, m')
    \<and> resp_status r \<in> {200, 404, 422, 502} \<and> renders_count m' = Suc (renders_count m)"
proof -
  let ?serve = "serve_render p relay minted template_tree clock client kind tag req m"
  note answer = render_request_answer_lemma [OF assms(1), where env = template_tree and clock = clock
      and kind = kind and tag = tag and client = client and p = p and minted = minted
      and req = req and m = m]
  have counts: "renders_count (snd ?serve) = Suc (renders_count m)"
    if "\<forall>e. load_host_intent client tag = Inl e \<longrightarrow> is_a e ''HostNotFoundError''
      \<or> is_a e ''NetboxQueryError'' \<or> is_a e ''InvariantError''"
    using that render_request_metrics_lemma [of p relay minted template_tree clock client kind tag req m]
    by (auto split: sum.splits)
  have typed: "(\<exists>s \<in> {404, 422, 502}. error_status e = Some s) \<and> (is_a e ''HostNotFoundError''
      \<or> is_a e ''NetboxQueryError'' \<or> is_a e ''InvariantError'')"
    if "load_host_intent client tag = Inl e" for e
    using load_typed_error [OF assms(2) that]
    by (cases e) (auto simp: typed_load_error_def error_status_def exn_class_defs)
  have "\<exists>r. fst ?serve = Inr r \<and> resp_status r \<in> {200, 404, 422, 502}"
  proof (cases "load_host_intent client tag")
    case (Inr i)
    then have "render_result template_tree clock kind tag client = Inr (rendered kind i)"
      by (simp add: render_result_def render_for_tree)
    then show ?thesis using answer by auto
  next
    case (Inl e)
    then have "render_result template_tree clock kind tag client = Inl e"
      by (simp add: render_result_def)
    then show ?thesis using answer typed [OF Inl] by auto
  qed
  then show ?thesis using counts typed by (metis prod.collapse)
qed

theorem render_request_total_witness:
  "\<exists>r m'. sample_serve (\<lambda>r. r) one_nic_client no_metrics = (Inr r, m') \<and> renders_count m' = 1"
  using render_request_total [OF faithful_id one_nic_fields, where p = sample_process
      and minted = 5 and kind = NETWORK_CONFIG and clock = "()" and req = sample_request and m = no_metrics]
  by (auto simp: sample_serve_def renders_count_def no_metrics_def)

end
