(* ===== verification/Validate.thy ===== *)
theory Validate
  imports Pyval
begin

text \<open>
  The post-provision validator (scripts/validate_h200_host.py): twelve checks over a probe of
  the host, the roll-up, the report and the exit status. The probe is the script's own seam
  over the host (running a command, looking for a tool, reading a file); \<open>json_loads\<close>, the
  decoder of \<open>ip -j addr\<close> output, stands beside it. Output is UTF-8 text, so a dash or an
  arrow outside ASCII is its bytes.
\<close>

datatype status = PASS | WARN | SKIP | FAIL

text \<open>Outcomes are ordered worst last, as the enumeration declares them.\<close>

definition status_rank :: "status \<Rightarrow> nat" where
  "status_rank s = (case s of PASS \<Rightarrow> 0 | WARN \<Rightarrow> 1 | SKIP \<Rightarrow> 2 | FAIL \<Rightarrow> 3)"

lemma status_rank_inj [simp]: "status_rank s = status_rank t \<longleftrightarrow> s = t"
  by (cases s; cases t) (simp_all add: status_rank_def)

instantiation status :: linorder
begin

definition less_eq_status :: "status \<Rightarrow> status \<Rightarrow> bool" where
  "less_eq_status s t \<longleftrightarrow> status_rank s \<le> status_rank t"

definition less_status :: "status \<Rightarrow> status \<Rightarrow> bool" where
  "less_status s t \<longleftrightarrow> status_rank s < status_rank t"

instance
  by standard (auto simp: less_eq_status_def less_status_def)

end

definition all_statuses :: "status list" where
  "all_statuses = [PASS, WARN, SKIP, FAIL]"

definition status_value :: "status \<Rightarrow> string" where
  "status_value s = (case s of PASS \<Rightarrow> ''PASS'' | WARN \<Rightarrow> ''WARN'' | SKIP \<Rightarrow> ''SKIP'' | FAIL \<Rightarrow> ''FAIL'')"

record check_result =
  check_name :: string
  check_status :: status
  check_detail :: string

record config =
  rails :: int
  ipoib_mtu :: int
  vlan_count :: int
  cfg_bond_name :: string
  netplan_path :: string
  rdma_limits_path :: string

definition default_config :: config where
  "default_config = \<lparr>rails = 8, ipoib_mtu = 2044, vlan_count = 3, cfg_bond_name = ''bond0'',
     netplan_path = ''/etc/netplan/60-lab.yaml'',
     rdma_limits_path = ''/etc/security/limits.d/rdma.conf''\<rparr>"

record proc =
  proc_rc :: int
  proc_out :: string
  proc_err :: string

record probe =
  probe_run :: "string list \<Rightarrow> proc"
  probe_have :: "string \<Rightarrow> bool"
  probe_read_text :: "string \<Rightarrow> string option"
  json_loads :: "string \<Rightarrow> pyval option"

definition result :: "string \<Rightarrow> status \<Rightarrow> string \<Rightarrow> check_result" where
  "result name s detail = \<lparr>check_name = name, check_status = s, check_detail = detail\<rparr>"


section \<open>The real probe (SystemProbe)\<close>

text \<open>
  \<open>subprocess.run(\<dots>)\<close> completes with a status and two texts, or raises \<open>OSError\<close> (no such
  program) or \<open>SubprocessError\<close> (the 20 seconds are over), given by its message. \<open>which\<close> is
  \<open>shutil.which\<close>; \<open>read_file\<close> fails with the message of an \<open>OSError\<close>, and undecodable bytes
  are replaced. Command output is taken to be decodable.
\<close>

datatype run_outcome = Completed int string string | RunRaised string

definition system_run :: "(string list \<Rightarrow> run_outcome) \<Rightarrow> string list \<Rightarrow> proc" where
  "system_run run args = (case run args of
      Completed rc out err \<Rightarrow> \<lparr>proc_rc = rc, proc_out = out, proc_err = err\<rparr>
    | RunRaised exc \<Rightarrow> \<lparr>proc_rc = 127, proc_out = '''', proc_err = exc\<rparr>)"

definition system_have :: "(string \<Rightarrow> string option) \<Rightarrow> string \<Rightarrow> bool" where
  "system_have which tool = (which tool \<noteq> None)"

definition system_read_text :: "(string \<Rightarrow> string + string) \<Rightarrow> string \<Rightarrow> string option" where
  "system_read_text read_file path = (case read_file path of Inl exc \<Rightarrow> None | Inr text \<Rightarrow> Some text)"

definition system_probe ::
  "(string list \<Rightarrow> run_outcome) \<Rightarrow> (string \<Rightarrow> string option) \<Rightarrow> (string \<Rightarrow> string + string)
   \<Rightarrow> (string \<Rightarrow> pyval option) \<Rightarrow> probe" where
  "system_probe run which read_file loads =
     \<lparr>probe_run = system_run run, probe_have = system_have which,
      probe_read_text = system_read_text read_file, json_loads = loads\<rparr>"


section \<open>Helpers\<close>

definition dicts_of :: "pyval list \<Rightarrow> pydict list" where
  "dicts_of vs = concat (map (\<lambda>v. case v of PyDict d \<Rightarrow> [d] | _ \<Rightarrow> []) vs)"

definition ip_addr_json :: "probe \<Rightarrow> exn + pydict list" where
  "ip_addr_json probe =
     (let p = probe_run probe [''ip'', ''-j'', ''addr''] in
      if proc_rc p \<noteq> 0 \<or> py_strip (proc_out p) = '''' then Inr []
      else case json_loads probe (proc_out p) of
          None \<Rightarrow> Inr []
        | Some data \<Rightarrow> rbind (py_iter data) (\<lambda>vs. Inr (dicts_of vs)))"

definition iface_record :: "pydict list \<Rightarrow> string \<Rightarrow> pydict option" where
  "iface_record records name = find (\<lambda>r. py_eq (dict_get r ''ifname'') (PyStr name)) records"

definition is_up :: "pydict \<Rightarrow> exn + bool" where
  "is_up r =
     (if py_eq (dict_get r ''operstate'') (PyStr ''UP'') then Inr True
      else
        let flags = get_default r ''flags'' (PyList []) in
        rbind (py_contains ''UP'' flags) (\<lambda>up.
        if up then py_contains ''LOWER_UP'' flags else Inr False))"

text \<open>The comprehension of \<open>_ipv4s\<close>, one entry at a time.\<close>

fun inet_locals :: "pyval list \<Rightarrow> exn + pyval list" where
  "inet_locals [] = Inr []"
| "inet_locals (a # rest) =
     rbind (py_get a ''family'' PyNone) (\<lambda>family.
     if py_eq family (PyStr ''inet'') then
       rbind (py_get a ''local'' (PyStr '''')) (\<lambda>local.
       rbind (inet_locals rest) (\<lambda>ls. Inr (local # ls)))
     else inet_locals rest)"

definition ipv4s :: "pydict \<Rightarrow> exn + pyval list" where
  "ipv4s r = rbind (py_iter (get_default r ''addr_info'' (PyList []))) inet_locals"

text \<open>\<open>is_up(r) and ipv4s(r)\<close>\<close>

definition up_with_ip :: "pydict \<Rightarrow> exn + bool" where
  "up_with_ip r = rbind (is_up r) (\<lambda>up. if up then rbind (ipv4s r) (\<lambda>ips. Inr (ips \<noteq> [])) else Inr False)"

fun rfilter :: "('a \<Rightarrow> exn + bool) \<Rightarrow> 'a list \<Rightarrow> exn + 'a list" where
  "rfilter p [] = Inr []"
| "rfilter p (x # xs) = rbind (p x) (\<lambda>b. rbind (rfilter p xs) (\<lambda>ys. Inr (if b then x # ys else ys)))"


section \<open>The checks\<close>

definition check_cloud_init :: "probe \<Rightarrow> config \<Rightarrow> exn + check_result" where
  "check_cloud_init probe cfg = Inr (
     let name = ''cloud-init'' in
     if \<not> probe_have probe ''cloud-init'' then result name SKIP ''cloud-init not installed''
     else
       let p = probe_run probe [''cloud-init'', ''status''];
           text = py_lower (proc_out p @ proc_err p) in
       if contains_str ''error'' text then result name FAIL ''cloud-init status: error''
       else if contains_str ''degraded'' text
       then result name WARN ''done with recoverable errors (degraded)''
       else if contains_str ''done'' text then result name PASS ''status: done''
       else if contains_str ''running'' text then result name WARN ''still running''
       else result name WARN (''unrecognized status: '' @ repr_str (py_strip (proc_out p))))"

definition check_netplan_config :: "probe \<Rightarrow> config \<Rightarrow> exn + check_result" where
  "check_netplan_config probe cfg = Inr (
     if probe_read_text probe (netplan_path cfg) \<noteq> None
     then result ''netplan-config'' PASS (netplan_path cfg @ '' present'')
     else result ''netplan-config'' FAIL (netplan_path cfg @ '' missing''))"

definition check_bond_up :: "probe \<Rightarrow> config \<Rightarrow> exn + check_result" where
  "check_bond_up probe cfg =
     rbind (ip_addr_json probe) (\<lambda>records.
     case iface_record records (cfg_bond_name cfg) of
       None \<Rightarrow> Inr (result ''bond0'' FAIL (cfg_bond_name cfg @ '' does not exist''))
     | Some r \<Rightarrow>
         rbind (is_up r) (\<lambda>up.
         Inr (if \<not> up then result ''bond0'' FAIL (cfg_bond_name cfg @ '' exists but is not UP'')
              else result ''bond0'' PASS (cfg_bond_name cfg @ '' UP''))))"

definition check_bond_lacp :: "probe \<Rightarrow> config \<Rightarrow> exn + check_result" where
  "check_bond_lacp probe cfg = Inr (
     let name = ''bond0-lacp''; path = ''/proc/net/bonding/'' @ cfg_bond_name cfg in
     case probe_read_text probe path of
       None \<Rightarrow> result name FAIL (path @ '' absent'')
     | Some text \<Rightarrow>
         let members = count_str ''Slave Interface:'' text;
             is_lacp = contains_str ''802.3ad'' text in
         if is_lacp \<and> members = 2 then result name PASS ''802.3ad with 2 members''
         else if \<not> is_lacp then result name WARN ''bond is not 802.3ad mode''
         else result name WARN (''802.3ad but '' @ str_nat members @ '' member(s), expected 2''))"

definition check_vlans :: "probe \<Rightarrow> config \<Rightarrow> exn + check_result" where
  "check_vlans probe cfg =
     rbind (ip_addr_json probe) (\<lambda>records.
     let vlan_ifaces = filter (\<lambda>r. starts_with (cfg_bond_name cfg @ ''.'')
           (py_str (get_default r ''ifname'' (PyStr '''')))) records in
     rbind (rfilter up_with_ip vlan_ifaces) (\<lambda>good.
     Inr (if int (length good) = vlan_count cfg then
            (let names = join_str '','' (sort (map (\<lambda>r. py_str (dict_get r ''ifname'')) good))
             in result ''vlans'' PASS (str_int (vlan_count cfg) @ '' VLANs up w/ IPv4 ('' @ names @ '')''))
          else result ''vlans'' FAIL (''expected '' @ str_int (vlan_count cfg)
                 @ '' VLAN children up with IPv4, found '' @ str_nat (length good)))))"

definition check_default_route :: "probe \<Rightarrow> config \<Rightarrow> exn + check_result" where
  "check_default_route probe cfg = Inr (
     let p = probe_run probe [''ip'', ''route'', ''show'', ''default''] in
     if proc_rc p = 0 \<and> py_strip (proc_out p) \<noteq> ''''
     then result ''default-route'' PASS (hd (splitlines (py_strip (proc_out p))))
     else result ''default-route'' FAIL ''no default route'')"

text \<open>The four problem lists of \<open>check_ipoib_rails\<close>, as the loop accumulates them.\<close>

record rail_problems =
  missing :: "string list"
  down :: "string list"
  no_ip :: "string list"
  bad_mtu :: "string list"

definition check_rail :: "pydict list \<Rightarrow> int \<Rightarrow> string \<Rightarrow> rail_problems \<Rightarrow> exn + rail_problems" where
  "check_rail records mtu ib p = (case iface_record records ib of
      None \<Rightarrow> Inr (p\<lparr>missing := missing p @ [ib]\<rparr>)
    | Some r \<Rightarrow>
        rbind (is_up r) (\<lambda>up.
        rbind (ipv4s r) (\<lambda>ips.
        let p1 = (if up then p else p\<lparr>down := down p @ [ib]\<rparr>);
            p2 = (if ips = [] then p1\<lparr>no_ip := no_ip p1 @ [ib]\<rparr> else p1);
            p3 = (if py_eq (dict_get r ''mtu'') (PyInt mtu) then p2
                  else p2\<lparr>bad_mtu := bad_mtu p2 @ [ib @ ''(mtu='' @ py_str (dict_get r ''mtu'') @ '')'']\<rparr>)
        in Inr p3)))"

fun check_rails :: "pydict list \<Rightarrow> int \<Rightarrow> string list \<Rightarrow> rail_problems \<Rightarrow> exn + rail_problems" where
  "check_rails records mtu [] p = Inr p"
| "check_rails records mtu (ib # ibs) p =
     rbind (check_rail records mtu ib p) (\<lambda>p'. check_rails records mtu ibs p')"

definition no_problems :: rail_problems where
  "no_problems = \<lparr>missing = [], down = [], no_ip = [], bad_mtu = []\<rparr>"

definition rail_names :: "int \<Rightarrow> string list" where
  "rail_names n = map (\<lambda>i. ''ib'' @ str_nat i) [0..<nat n]"

definition problem_lines :: "int \<Rightarrow> rail_problems \<Rightarrow> string list" where
  "problem_lines mtu p =
     (if missing p = [] then [] else [''missing: '' @ join_str '','' (missing p)])
     @ (if down p = [] then [] else [''down: '' @ join_str '','' (down p)])
     @ (if no_ip p = [] then [] else [''no-ip: '' @ join_str '','' (no_ip p)])
     @ (if bad_mtu p = [] then []
        else [''wrong-mtu (want '' @ str_int mtu @ ''): '' @ join_str '','' (bad_mtu p)])"

definition check_ipoib_rails :: "probe \<Rightarrow> config \<Rightarrow> exn + check_result" where
  "check_ipoib_rails probe cfg =
     rbind (ip_addr_json probe) (\<lambda>records.
     rbind (check_rails records (ipoib_mtu cfg) (rail_names (rails cfg)) no_problems) (\<lambda>p.
     let problems = problem_lines (ipoib_mtu cfg) p in
     Inr (if problems = []
          then result ''ipoib-rails'' PASS (str_int (rails cfg) @ '' IPoIB rails up, addressed, MTU ''
                 @ str_int (ipoib_mtu cfg))
          else result ''ipoib-rails'' FAIL (join_str ''; '' problems))))"

text \<open>The first word of each \<open>lsmod\<close> line after the heading.\<close>

definition loaded_modules :: "string \<Rightarrow> string list" where
  "loaded_modules out =
     map (\<lambda>l. hd (split_words l)) (filter (\<lambda>l. split_words l \<noteq> []) (drop 1 (splitlines out)))"

definition check_ib_modules :: "probe \<Rightarrow> config \<Rightarrow> exn + check_result" where
  "check_ib_modules probe cfg = Inr (
     let p = probe_run probe [''lsmod''] in
     if proc_rc p \<noteq> 0 then result ''ib-modules'' SKIP ''lsmod unavailable''
     else
       let loaded = loaded_modules (proc_out p);
           missing = filter (\<lambda>m. m \<notin> set loaded) [''ib_ipoib'', ''mlx5_ib''] in
       if missing = [] then result ''ib-modules'' PASS ''mlx5_ib + ib_ipoib loaded''
       else result ''ib-modules'' FAIL (''missing kernel module(s): '' @ join_str '','' missing))"

definition check_no_soft_roce :: "probe \<Rightarrow> config \<Rightarrow> exn + check_result" where
  "check_no_soft_roce probe cfg = Inr (
     let p = probe_run probe [''lsmod''] in
     if proc_rc p \<noteq> 0 then result ''no-soft-roce'' SKIP ''lsmod unavailable''
     else if ''rdma_rxe'' \<in> set (loaded_modules (proc_out p))
     then result ''no-soft-roce'' WARN (''rdma_rxe loaded '' @ [CHR 0xE2, CHR 0x80, CHR 0x94]
            @ '' H200 should use native IB, not Soft-RoCE'')
     else result ''no-soft-roce'' PASS ''rdma_rxe not loaded (native IB)'')"

definition after_colon :: "string \<Rightarrow> string" where
  "after_colon line = py_strip (drop 1 (dropWhile (\<lambda>c. c \<noteq> CHR '':'') line))"

definition check_ib_ports :: "probe \<Rightarrow> config \<Rightarrow> exn + check_result" where
  "check_ib_ports probe cfg = Inr (
     let name = ''ib-ports'' in
     if \<not> probe_have probe ''ibstat'' then result name SKIP ''ibstat not installed (infiniband-diags)''
     else
       let p = probe_run probe [''ibstat''] in
       if proc_rc p \<noteq> 0 then result name WARN ''ibstat returned non-zero (no HCA?)''
       else
         let states = map after_colon
               (filter (\<lambda>l. starts_with ''State:'' (py_strip l)) (splitlines (proc_out p)));
             active = length (filter (\<lambda>s. starts_with ''active'' (py_lower s)) states);
             tally = str_nat active @ ''/'' @ str_nat (length states) @ '' ports Active'' in
         if states = [] then result name WARN ''no IB ports reported''
         else if active = length states then result name PASS tally
         else result name WARN (tally @ '' (rest Initializing '' @ [CHR 0xE2, CHR 0x86, CHR 0x92]
                @ '' no subnet manager?)''))"

definition check_verbs_devices :: "probe \<Rightarrow> config \<Rightarrow> exn + check_result" where
  "check_verbs_devices probe cfg = Inr (
     let name = ''verbs-devices'' in
     if \<not> probe_have probe ''ibv_devinfo'' then result name SKIP ''ibv_devinfo not installed (ibverbs-utils)''
     else
       let p = probe_run probe [''ibv_devinfo'', ''-l'']; text = py_strip (proc_out p) in
       if proc_rc p \<noteq> 0 \<or> text = '''' then result name WARN ''no verbs devices found''
       else if contains_str ''rxe'' (py_lower text)
       then result name WARN ''verbs device is rxe (Soft-RoCE), expected mlx5''
       else if contains_str ''mlx5'' (py_lower text)
       then result name PASS ''mlx5 HCA verbs device(s) present''
       else result name PASS ''verbs device(s) present'')"

definition check_memlock :: "probe \<Rightarrow> config \<Rightarrow> exn + check_result" where
  "check_memlock probe cfg = Inr (
     let name = ''memlock'' in
     if (case probe_read_text probe (rdma_limits_path cfg) of
           None \<Rightarrow> False
         | Some text \<Rightarrow> text \<noteq> '''' \<and> contains_str ''memlock'' text \<and> contains_str ''unlimited'' text)
     then result name PASS ''memlock unlimited configured''
     else if py_strip (proc_out (probe_run probe [''sh'', ''-c'', ''ulimit -l''])) = ''unlimited''
     then result name PASS ''ulimit -l unlimited''
     else result name WARN ''memlock not unlimited (RDMA reg may fail on large buffers)'')"

definition CHECKS :: "(probe \<Rightarrow> config \<Rightarrow> exn + check_result) list" where
  "CHECKS = [check_cloud_init, check_netplan_config, check_bond_up, check_bond_lacp, check_vlans,
     check_default_route, check_ipoib_rails, check_ib_modules, check_no_soft_roce, check_ib_ports,
     check_verbs_devices, check_memlock]"


section \<open>Roll-up and exit status\<close>

definition run_all :: "probe \<Rightarrow> config \<Rightarrow> exn + check_result list" where
  "run_all probe cfg = rmap (\<lambda>check. check probe cfg) CHECKS"

definition bump :: "status \<Rightarrow> (status \<times> nat) list \<Rightarrow> (status \<times> nat) list" where
  "bump s counts = map (\<lambda>(t, n). if t = s then (t, Suc n) else (t, n)) counts"

definition summarize :: "check_result list \<Rightarrow> (status \<times> nat) list" where
  "summarize results = fold (\<lambda>r counts. bump (check_status r) counts) results
     (map (\<lambda>s. (s, 0)) all_statuses)"

definition count_of :: "(status \<times> nat) list \<Rightarrow> status \<Rightarrow> nat" where
  "count_of counts s = (case map_of counts s of None \<Rightarrow> 0 | Some n \<Rightarrow> n)"

definition failed :: "(status \<times> nat) list \<Rightarrow> nat" where
  "failed counts = count_of counts FAIL"

definition verdict :: "check_result list \<Rightarrow> string" where
  "verdict results = (if failed (summarize results) \<noteq> 0 then ''FAIL'' else ''OK'')"

definition mark :: "status \<Rightarrow> string" where
  "mark s = ''['' @ status_value s @ '']''"

definition render_report :: "check_result list \<Rightarrow> string \<Rightarrow> string" where
  "render_report results host =
     (let width = fold max (map (\<lambda>r. length (check_name r)) results) 0;
          counts = summarize results
      in join_str [CHR 0x0A] (
           ['''',
            ''H200 host validation'' @ (if host = '''' then ''''
               else '' '' @ [CHR 0xE2, CHR 0x80, CHR 0x94] @ '' '' @ host),
            replicate 60 CHR ''='']
           @ map (\<lambda>r. mark (check_status r) @ ''  '' @ ljust (check_name r) width @ ''  '' @ check_detail r) results
           @ [replicate 60 CHR ''-'',
              str_nat (count_of counts PASS) @ '' passed, '' @ str_nat (count_of counts WARN) @ '' warned, ''
              @ str_nat (count_of counts SKIP) @ '' skipped, '' @ str_nat (count_of counts FAIL) @ '' failed'',
              ''verdict: '' @ verdict results,
              '''']))"

definition json_payload :: "check_result list \<Rightarrow> pyval" where
  "json_payload results =
     PyDict [(''checks'', PyList (map (\<lambda>r. PyDict [(''name'', PyStr (check_name r)),
                (''status'', PyStr (status_value (check_status r))), (''detail'', PyStr (check_detail r))]) results)),
             (''summary'', PyDict (map (\<lambda>s. (status_value s, PyInt (int (count_of (summarize results) s)))) all_statuses)),
             (''verdict'', PyStr (verdict results))]"

text \<open>\<open>main\<close> after argument parsing: what it prints and the exit status it returns.\<close>

datatype report = Text string | JsonReport pyval

definition validate_main :: "probe \<Rightarrow> int \<Rightarrow> int \<Rightarrow> int \<Rightarrow> bool \<Rightarrow> exn + report \<times> int" where
  "validate_main probe n_rails mtu n_vlans as_json =
     (let cfg = default_config\<lparr>rails := n_rails, ipoib_mtu := mtu, vlan_count := n_vlans\<rparr> in
      rbind (run_all probe cfg) (\<lambda>results.
      Inr (if as_json then JsonReport (json_payload results) else Text (render_report results ''''),
           if failed (summarize results) \<noteq> 0 then 1 else 0)))"

end
