(* ===== verification/Validate_Props.thy ===== *)
theory Validate_Props
  imports Validate "HOL-Library.Code_Target_Nat"
begin

text \<open>
  Properties of the post-provision validator: what its exit status means and what a host
  that passes it looks like, with a sample host that does.
\<close>

section \<open>Roll-up\<close>

lemma map_of_bump: "map_of (bump s counts) t = map_option (\<lambda>n. if t = s then Suc n else n) (map_of counts t)"
  by (induction counts) (auto simp: bump_def)

lemma map_of_fold_bump: "map_of (fold (\<lambda>r counts. bump (check_status r) counts) results counts) t
    = map_option (\<lambda>n. n + length (filter (\<lambda>r. check_status r = t) results)) (map_of counts t)"
  by (induction results arbitrary: counts) (auto simp: map_of_bump option.map_comp comp_def option.map_ident)

lemma count_of_summarize: "count_of (summarize results) s = length (filter (\<lambda>r. check_status r = s) results)"
proof -
  have "map_of (map (\<lambda>s. (s, 0::nat)) all_statuses) s = Some 0"
    by (cases s) (simp_all add: all_statuses_def)
  then show ?thesis by (simp add: count_of_def summarize_def map_of_fold_bump)
qed

lemma failed_iff: "failed (summarize results) = 0 \<longleftrightarrow> (\<forall>r \<in> set results. check_status r \<noteq> FAIL)"
  by (simp add: failed_def count_of_summarize filter_empty_conv)

lemma status_le_fail: "s \<le> FAIL"
  by (cases s) (simp_all add: less_eq_status_def status_rank_def)

lemma Max_status_fail:
  "results \<noteq> [] \<Longrightarrow> Max (check_status ` set results) = FAIL \<longleftrightarrow> (\<exists>r \<in> set results. check_status r = FAIL)"
proof -
  assume "results \<noteq> []"
  then have "Max (check_status ` set results) = FAIL \<longleftrightarrow> FAIL \<in> check_status ` set results"
    using Max_eq_iff [of "check_status ` set results" FAIL] status_le_fail by simp
  also have "\<dots> \<longleftrightarrow> (\<exists>r \<in> set results. check_status r = FAIL)" by force
  finally show ?thesis .
qed

lemma counts_total: "(\<Sum>s\<leftarrow>all_statuses. count_of (summarize results) s) = length results"
proof (induction results)
  case Nil
  then show ?case by (simp add: all_statuses_def count_of_summarize)
next
  case (Cons r results)
  then show ?case by (cases "check_status r") (simp_all add: all_statuses_def count_of_summarize)
qed

lemma run_all_length: "run_all probe cfg = Inr results \<Longrightarrow> length results = 12"
  unfolding run_all_def by (drule rmap_length) (simp add: CHECKS_def)

text \<open>The exit status gates on failures alone: it is 1 if the worst outcome of the twelve checks
  is FAIL and 0 otherwise, the verdict in either report agrees with it, and every check is
  counted under exactly one outcome.\<close>

theorem exit_status:
  assumes "validate_main probe n mtu k as_json = Inr (report, code)"
  shows "\<exists>results. run_all probe (default_config\<lparr>rails := n, ipoib_mtu := mtu, vlan_count := k\<rparr>) = Inr results
    \<and> length results = 12
    \<and> code = (if Max (check_status ` set results) = FAIL then 1 else 0)
    \<and> verdict results = (if code = 1 then ''FAIL'' else ''OK'')
    \<and> (\<Sum>s\<leftarrow>all_statuses. count_of (summarize results) s) = 12"
proof -
  obtain results where run: "run_all probe (default_config\<lparr>rails := n, ipoib_mtu := mtu, vlan_count := k\<rparr>) = Inr results"
    and code: "code = (if failed (summarize results) \<noteq> 0 then 1 else 0)"
    using assms by (auto simp: validate_main_def Let_def rbind_eq_Inr)
  have len: "length results = 12" using run by (rule run_all_length)
  then have "results \<noteq> []" by auto
  then show ?thesis
    using run code len Max_status_fail [of results] failed_iff [of results] counts_total [of results]
    by (auto simp: verdict_def)
qed


section \<open>What passing means\<close>

definition rail_ok :: "pydict list \<Rightarrow> int \<Rightarrow> string \<Rightarrow> bool" where
  "rail_ok records mtu ib \<longleftrightarrow> (case iface_record records ib of
      None \<Rightarrow> False
    | Some r \<Rightarrow> is_up r = Inr True \<and> (\<exists>a as. ipv4s r = Inr (a # as)) \<and> py_eq (dict_get r ''mtu'') (PyInt mtu))"

definition problem_count :: "rail_problems \<Rightarrow> nat" where
  "problem_count p = length (missing p) + length (down p) + length (no_ip p) + length (bad_mtu p)"

lemma check_rail_step:
  assumes "check_rail records mtu ib p = Inr p'"
  shows "problem_count p \<le> problem_count p'
    \<and> (problem_count p' = problem_count p \<longleftrightarrow> rail_ok records mtu ib)"
proof (cases "iface_record records ib")
  case None
  then show ?thesis using assms by (auto simp: check_rail_def rail_ok_def problem_count_def)
next
  case (Some r)
  then obtain up ips where u: "is_up r = Inr up" "ipv4s r = Inr ips"
    using assms by (auto simp: check_rail_def rbind_eq_Inr)
  have ok: "rail_ok records mtu ib \<longleftrightarrow> up \<and> ips \<noteq> [] \<and> py_eq (dict_get r ''mtu'') (PyInt mtu)"
    using u Some by (cases ips) (simp_all add: rail_ok_def)
  have "problem_count p' = problem_count p + (if up then 0 else 1) + (if ips = [] then 1 else 0)
      + (if py_eq (dict_get r ''mtu'') (PyInt mtu) then 0 else 1)"
    using assms Some u by (auto simp: check_rail_def Let_def problem_count_def)
  then show ?thesis by (simp add: ok)
qed

lemma check_rails_count:
  "check_rails records mtu ibs p = Inr p' \<Longrightarrow> problem_count p \<le> problem_count p'
   \<and> (problem_count p' = problem_count p \<longleftrightarrow> (\<forall>ib \<in> set ibs. rail_ok records mtu ib))"
proof (induction ibs arbitrary: p)
  case Nil
  then show ?case by simp
next
  case (Cons ib ibs)
  then obtain q where q: "check_rail records mtu ib p = Inr q" "check_rails records mtu ibs q = Inr p'"
    by (auto simp: rbind_eq_Inr)
  show ?case using Cons.IH [OF q(2)] check_rail_step [OF q(1)] by auto
qed

lemma problem_lines_empty: "problem_lines mtu p = [] \<longleftrightarrow> problem_count p = 0"
  by (auto simp: problem_lines_def problem_count_def)

lemma ipoib_status:
  assumes "check_ipoib_rails probe cfg = Inr r" and "ip_addr_json probe = Inr records"
  shows "check_status r = PASS \<longleftrightarrow> (\<forall>ib \<in> set (rail_names (rails cfg)). rail_ok records (ipoib_mtu cfg) ib)"
    and "check_status r \<in> {PASS, FAIL}"
proof -
  obtain p where p: "check_rails records (ipoib_mtu cfg) (rail_names (rails cfg)) no_problems = Inr p"
    and r: "check_status r = (if problem_lines (ipoib_mtu cfg) p = [] then PASS else FAIL)"
    using assms by (auto simp: check_ipoib_rails_def rbind_eq_Inr Let_def result_def)
  have "problem_count no_problems = 0" by (simp add: problem_count_def no_problems_def)
  then show "check_status r = PASS \<longleftrightarrow> (\<forall>ib \<in> set (rail_names (rails cfg)). rail_ok records (ipoib_mtu cfg) ib)"
    "check_status r \<in> {PASS, FAIL}"
    using check_rails_count [OF p] by (auto simp: r problem_lines_empty)
qed

lemma rfilter_Inr: "rfilter p xs = Inr ys \<Longrightarrow> ys = filter (\<lambda>x. p x = Inr True) xs"
  by (induction xs arbitrary: ys) (auto simp: rbind_eq_Inr)

text \<open>What a host looks like that no check fails on.\<close>

definition host_in_effect :: "probe \<Rightarrow> config \<Rightarrow> pydict list \<Rightarrow> bool" where
  "host_in_effect probe cfg records \<longleftrightarrow>
     probe_read_text probe (netplan_path cfg) \<noteq> None
     \<and> probe_read_text probe (''/proc/net/bonding/'' @ cfg_bond_name cfg) \<noteq> None
     \<and> (\<exists>r. iface_record records (cfg_bond_name cfg) = Some r \<and> is_up r = Inr True)
     \<and> int (length (filter (\<lambda>r. starts_with (cfg_bond_name cfg @ ''.'') (py_str (get_default r ''ifname'' (PyStr '''')))
          \<and> up_with_ip r = Inr True) records)) = vlan_count cfg
     \<and> proc_rc (probe_run probe [''ip'', ''route'', ''show'', ''default'']) = 0
     \<and> py_strip (proc_out (probe_run probe [''ip'', ''route'', ''show'', ''default''])) \<noteq> ''''
     \<and> (\<forall>i. int i < rails cfg \<longrightarrow> rail_ok records (ipoib_mtu cfg) (''ib'' @ str_nat i))
     \<and> (proc_rc (probe_run probe [''lsmod'']) = 0 \<longrightarrow>
          {''mlx5_ib'', ''ib_ipoib''} \<subseteq> set (loaded_modules (proc_out (probe_run probe [''lsmod'']))))
     \<and> (probe_have probe ''cloud-init'' \<longrightarrow> \<not> contains_str ''error''
          (py_lower (proc_out (probe_run probe [''cloud-init'', ''status''])
             @ proc_err (probe_run probe [''cloud-init'', ''status'']))))"

lemma set_rail_names: "set (rail_names n) = (\<lambda>i. ''ib'' @ str_nat i) ` {i. int i < n}"
  by (auto simp: rail_names_def)

lemma no_fail_in_effect:
  assumes run: "run_all probe cfg = Inr results" and ok: "\<forall>r \<in> set results. check_status r \<noteq> FAIL"
  shows "\<exists>records. ip_addr_json probe = Inr records \<and> host_in_effect probe cfg records"
proof -
  have each: "\<exists>r. c probe cfg = Inr r \<and> check_status r \<noteq> FAIL" if "c \<in> set CHECKS" for c
    using run ok that unfolding run_all_def by (auto dest: rmap_Inr_all)
  obtain records where recs: "ip_addr_json probe = Inr records"
    using each [of check_bond_up] by (auto simp: CHECKS_def check_bond_up_def rbind_eq_Inr)
  have e: "\<exists>r. check_cloud_init probe cfg = Inr r \<and> check_status r \<noteq> FAIL"
    "\<exists>r. check_netplan_config probe cfg = Inr r \<and> check_status r \<noteq> FAIL"
    "\<exists>r. check_bond_up probe cfg = Inr r \<and> check_status r \<noteq> FAIL"
    "\<exists>r. check_bond_lacp probe cfg = Inr r \<and> check_status r \<noteq> FAIL"
    "\<exists>r. check_vlans probe cfg = Inr r \<and> check_status r \<noteq> FAIL"
    "\<exists>r. check_default_route probe cfg = Inr r \<and> check_status r \<noteq> FAIL"
    "\<exists>r. check_ipoib_rails probe cfg = Inr r \<and> check_status r \<noteq> FAIL"
    "\<exists>r. check_ib_modules probe cfg = Inr r \<and> check_status r \<noteq> FAIL"
    by (rule each; simp add: CHECKS_def)+
  have "\<forall>ib \<in> set (rail_names (rails cfg)). rail_ok records (ipoib_mtu cfg) ib"
    using e(7) ipoib_status [OF _ recs] by blast
  moreover have "\<exists>r. iface_record records (cfg_bond_name cfg) = Some r \<and> is_up r = Inr True"
    using e(3) by (auto simp: check_bond_up_def recs rbind_eq_Inr result_def split: option.splits if_splits)
  moreover have "int (length (filter (\<lambda>r. starts_with (cfg_bond_name cfg @ ''.'')
      (py_str (get_default r ''ifname'' (PyStr ''''))) \<and> up_with_ip r = Inr True) records)) = vlan_count cfg"
    using e(5) by (auto simp: check_vlans_def recs rbind_eq_Inr result_def Let_def
        filter_filter conj_commute dest!: rfilter_Inr split: if_splits)
  ultimately show ?thesis
    using recs e(1,2,4,6,8)
    by (auto simp: host_in_effect_def set_rail_names check_cloud_init_def check_netplan_config_def
        check_bond_lacp_def check_default_route_def check_ib_modules_def result_def Let_def
        filter_empty_conv split: if_splits option.splits)
qed

text \<open>C29: a host the validator accepts (exit status 0) has the promised configuration in effect:
  the Netplan file, the bond up, the expected number of VLAN children up with an IPv4
  address, a default route, every IPoIB rail up, addressed and at the expected MTU, the
  InfiniBand modules loaded as far as \<open>lsmod\<close> can tell, and no cloud-init error.\<close>

theorem accepted_host_in_effect:
  assumes "validate_main probe n mtu k as_json = Inr (report, 0)"
  shows "\<exists>records. ip_addr_json probe = Inr records
    \<and> host_in_effect probe (default_config\<lparr>rails := n, ipoib_mtu := mtu, vlan_count := k\<rparr>) records"
proof -
  obtain results where run: "run_all probe (default_config\<lparr>rails := n, ipoib_mtu := mtu, vlan_count := k\<rparr>) = Inr results"
    and "failed (summarize results) = 0"
    using assms by (auto simp: validate_main_def Let_def rbind_eq_Inr split: if_splits)
  then show ?thesis using no_fail_in_effect [OF run] by (simp add: failed_iff)
qed

section \<open>Without its tools\<close>

definition outcome :: "check_result list \<Rightarrow> string \<Rightarrow> status option" where
  "outcome results name = map_of (map (\<lambda>r. (check_name r, check_status r)) results) name"

lemma outcome_fail: "outcome results name = Some FAIL \<Longrightarrow> failed (summarize results) \<noteq> 0"
  by (auto simp: failed_iff outcome_def dest!: map_of_SomeD) (metis)

lemma check_rails_none: "check_rails [] mtu ibs p = Inr (p\<lparr>missing := missing p @ ibs\<rparr>)"
  by (induction ibs arbitrary: p) (simp_all add: check_rail_def iface_record_def)

text \<open>Under which name the checks that never raise report.\<close>

lemma check_name_total:
  "\<exists>r. check_cloud_init probe cfg = Inr r \<and> check_name r = ''cloud-init''"
  "\<exists>r. check_netplan_config probe cfg = Inr r \<and> check_name r = ''netplan-config''"
  "\<exists>r. check_bond_lacp probe cfg = Inr r \<and> check_name r = ''bond0-lacp''"
  "\<exists>r. check_default_route probe cfg = Inr r \<and> check_name r = ''default-route''"
  "\<exists>r. check_ib_modules probe cfg = Inr r \<and> check_name r = ''ib-modules''"
  "\<exists>r. check_no_soft_roce probe cfg = Inr r \<and> check_name r = ''no-soft-roce''"
  "\<exists>r. check_ib_ports probe cfg = Inr r \<and> check_name r = ''ib-ports''"
  "\<exists>r. check_verbs_devices probe cfg = Inr r \<and> check_name r = ''verbs-devices''"
  "\<exists>r. check_memlock probe cfg = Inr r \<and> check_name r = ''memlock''"
  by (simp_all add: check_cloud_init_def check_netplan_config_def check_bond_lacp_def
      check_default_route_def check_ib_modules_def check_no_soft_roce_def check_ib_ports_def
      check_verbs_devices_def check_memlock_def result_def Let_def split: option.split)

text \<open>With no records of \<open>ip -j addr\<close> all checks return, whatever else the probe says.\<close>

lemma run_all_no_records:
  assumes "ip_addr_json probe = Inr []"
  shows "\<exists>results. run_all probe cfg = Inr results \<and> outcome results ''bond0'' = Some FAIL
    \<and> outcome results ''vlans'' = Some (if vlan_count cfg = 0 then PASS else FAIL)
    \<and> outcome results ''ipoib-rails'' = Some (if rails cfg \<le> 0 then PASS else FAIL)
    \<and> (\<forall>r. check_default_route probe cfg = Inr r \<longrightarrow> outcome results ''default-route'' = Some (check_status r))"
proof -
  have "\<exists>r. check_bond_up probe cfg = Inr r \<and> check_name r = ''bond0'' \<and> check_status r = FAIL"
    by (simp add: check_bond_up_def assms iface_record_def result_def)
  moreover have "\<exists>r. check_vlans probe cfg = Inr r \<and> check_name r = ''vlans''
      \<and> check_status r = (if vlan_count cfg = 0 then PASS else FAIL)"
    by (simp add: check_vlans_def assms result_def Let_def)
  moreover have "\<exists>r. check_ipoib_rails probe cfg = Inr r \<and> check_name r = ''ipoib-rails''
      \<and> check_status r = (if rails cfg \<le> 0 then PASS else FAIL)"
    by (simp add: check_ipoib_rails_def assms check_rails_none problem_lines_def no_problems_def
        rail_names_def result_def Let_def)
  ultimately show ?thesis
    using check_name_total [of probe cfg]
    by (elim exE conjE) (simp add: run_all_def CHECKS_def outcome_def)
qed

text \<open>C35: on a host without the \<open>ip\<close> tool, or where it hangs or cannot be started, the validator still
  completes and reports: the bond and the default route as failed, the VLANs and the rails as
  failed unless none are expected, and its exit status is 1.\<close>

theorem validate_without_ip:
  assumes "\<forall>args. \<exists>exc. run (''ip'' # args) = RunRaised exc"
  shows "\<exists>results report.
      run_all (system_probe run which read_file loads) (default_config\<lparr>rails := n, ipoib_mtu := mtu, vlan_count := k\<rparr>)
        = Inr results
    \<and> validate_main (system_probe run which read_file loads) n mtu k as_json = Inr (report, 1)
    \<and> outcome results ''bond0'' = Some FAIL \<and> outcome results ''default-route'' = Some FAIL
    \<and> outcome results ''vlans'' = Some (if k = 0 then PASS else FAIL)
    \<and> outcome results ''ipoib-rails'' = Some (if n \<le> 0 then PASS else FAIL)"
proof -
  let ?probe = "system_probe run which read_file loads"
  let ?cfg = "default_config\<lparr>rails := n, ipoib_mtu := mtu, vlan_count := k\<rparr>"
  have ip: "proc_rc (probe_run ?probe (''ip'' # args)) = 127" for args
    using assms [rule_format, of args] by (auto simp: system_probe_def system_run_def)
  have "ip_addr_json ?probe = Inr []" by (simp add: ip_addr_json_def Let_def ip)
  then obtain results where run: "run_all ?probe ?cfg = Inr results" "outcome results ''bond0'' = Some FAIL"
      "outcome results ''vlans'' = Some (if k = 0 then PASS else FAIL)"
      "outcome results ''ipoib-rails'' = Some (if n \<le> 0 then PASS else FAIL)"
      "\<forall>r. check_default_route ?probe ?cfg = Inr r \<longrightarrow> outcome results ''default-route'' = Some (check_status r)"
    using run_all_no_records [of ?probe ?cfg] by auto
  have "outcome results ''default-route'' = Some FAIL"
    using run(5) by (simp add: check_default_route_def Let_def ip result_def)
  then show ?thesis using run(1-4) outcome_fail [OF run(2)] by (simp add: validate_main_def Let_def)
qed

theorem validate_without_ip_witness:
  "\<exists>report. validate_main (system_probe (\<lambda>args. RunRaised ''No such file or directory'') (\<lambda>_. None)
     (\<lambda>_. Inl ''No such file or directory'') (\<lambda>_. None)) 8 2044 3 False = Inr (report, 1)"
  using validate_without_ip [where run = "\<lambda>args. RunRaised ''No such file or directory''" and which = "\<lambda>_. None"
      and read_file = "\<lambda>_. Inl ''No such file or directory''" and loads = "\<lambda>_. None"
      and n = 8 and mtu = 2044 and k = 3 and as_json = False]
  by auto


section \<open>A sample host\<close>

text \<open>A host with two rails and one VLAN, as its tools report it.\<close>

definition link :: "string \<Rightarrow> string \<Rightarrow> int \<Rightarrow> pyval" where
  "link name ip mtu = PyDict [(''ifname'', PyStr name), (''operstate'', PyStr ''UP''), (''mtu'', PyInt mtu),
     (''addr_info'', PyList [PyDict [(''family'', PyStr ''inet''), (''local'', PyStr ip)]])]"

definition healthy_probe :: probe where
  "healthy_probe =
     \<lparr>probe_run = (\<lambda>args. \<lparr>proc_rc = 0,
        proc_out = (if args = [''ip'', ''-j'', ''addr''] then ''links''
          else if args = [''ip'', ''route'', ''show'', ''default''] then ''default via 10.42.10.1 dev bond0.100''
          else if args = [''lsmod'']
          then ''Module'' @ [CHR 0x0A] @ ''mlx5_ib 1 0'' @ [CHR 0x0A] @ ''ib_ipoib 1 0''
          else ''status: done''), proc_err = ''''\<rparr>),
      probe_have = (\<lambda>t. t = ''cloud-init''),
      probe_read_text = (\<lambda>p. Some (if p = ''/proc/net/bonding/bond0''
        then ''802.3ad'' else ''memlock unlimited'')),
      json_loads = (\<lambda>s. if s = ''links'' then Some (PyList [link ''bond0'' '''' 9000,
        link ''bond0.100'' ''10.42.10.30'' 1500, link ''ib0'' ''10.42.100.10'' 2044,
        link ''ib1'' ''10.42.101.10'' 2044]) else None)\<rparr>"

lemma healthy_run: "rbind (validate_main healthy_probe 2 2044 1 True) (\<lambda>(r, code). Inr code) = Inr 0"
  by code_simp

lemma healthy_main: "\<exists>report. validate_main healthy_probe 2 2044 1 True = Inr (report, 0)"
  using healthy_run by (auto simp: rbind_eq_Inr)

theorem exit_status_witness:
  "\<exists>results. length results = 12 \<and> Max (check_status ` set results) \<noteq> FAIL \<and> verdict results = ''OK''"
proof -
  obtain report where "validate_main healthy_probe 2 2044 1 True = Inr (report, 0)"
    using healthy_main by blast
  from exit_status [OF this] show ?thesis by (auto split: if_splits)
qed

theorem accepted_host_in_effect_witness:
  "\<exists>records. ip_addr_json healthy_probe = Inr records \<and> rail_ok records 2044 ''ib1''"
proof -
  obtain report where "validate_main healthy_probe 2 2044 1 True = Inr (report, 0)"
    using healthy_main by blast
  from accepted_host_in_effect [OF this] obtain records where
    r: "ip_addr_json healthy_probe = Inr records"
      "\<forall>i. int i < 2 \<longrightarrow> rail_ok records 2044 (''ib'' @ str_nat i)"
    by (auto simp: host_in_effect_def default_config_def)
  have "str_nat 1 = ''1''" by code_simp
  then show ?thesis using r(1) r(2) [rule_format, of 1] by auto
qed

end
