(* ===== verification/Paths.thy ===== *)
theory Paths
  imports Prelude
begin

text \<open>
  Path texts: what \<open>str(pathlib.Path(s))\<close> makes of a text on a POSIX system. A path is its root and
  its components; empty ones and single dots are dropped, \<open>..\<close> is kept. The programs' path
  options have \<open>type=Path\<close>, so this is the text they go on with.
\<close>

definition path_root :: "string \<Rightarrow> string" where
  "path_root s = (if starts_with ''//'' s \<and> \<not> starts_with ''///'' s then ''//''
     else if starts_with ''/'' s then ''/'' else '''')"

definition path_parts :: "string \<Rightarrow> string list" where
  "path_parts s = filter (\<lambda>p. p \<noteq> '''' \<and> p \<noteq> ''.'') (split_char CHR ''/'' s)"

definition path_text :: "string \<Rightarrow> string" where
  "path_text s = (let t = path_root s @ join_str ''/'' (path_parts s) in if t = '''' then ''.'' else t)"

text \<open>\<open>Path(a) / b\<close> for a relative \<open>b\<close>\<close>

definition path_join :: "string \<Rightarrow> string \<Rightarrow> string" where
  "path_join a b = path_text (if a \<noteq> '''' \<and> last a = CHR ''/'' then a @ b else a @ ''/'' @ b)"

text \<open>\<open>Path.name\<close> of a path text is empty for the roots and for the current directory.\<close>

definition nameless :: "string \<Rightarrow> bool" where
  "nameless path \<longleftrightarrow> path \<in> {''.'', ''/'', ''//''}"


section \<open>Normal forms\<close>

lemma split_char_parts: "w \<in> set (split_char d s) \<Longrightarrow> d \<notin> set w"
  by (induction s arbitrary: w) (auto split: if_splits list.splits)

lemma path_parts_proper: "p \<in> set (path_parts s) \<Longrightarrow> p \<noteq> '''' \<and> p \<noteq> ''.'' \<and> CHR ''/'' \<notin> set p"
  using split_char_parts [where d = "CHR ''/''" and s = s] by (auto simp: path_parts_def)

lemma path_parts_join:
  assumes "\<forall>p \<in> set ps. p \<noteq> '''' \<and> p \<noteq> ''.'' \<and> CHR ''/'' \<notin> set p"
  shows "path_parts (join_str ''/'' ps) = ps"
proof (cases "ps = []")
  case False
  then show ?thesis using assms by (simp add: path_parts_def split_join filter_id_conv)
qed (simp add: path_parts_def)

lemma path_parts_root: "path_parts (path_root s @ t) = path_parts t"
  by (simp add: path_root_def path_parts_def)

lemma join_cases [case_names none one more_than_one]:
  obtains "ps = []" | p where "ps = [p]" | p q r where "ps = p # q # r"
  by (cases ps; cases "tl ps") auto

lemma join_no_slash:
  assumes "\<forall>p \<in> set ps. p \<noteq> '''' \<and> p \<noteq> ''.'' \<and> CHR ''/'' \<notin> set p"
  shows "\<not> starts_with ''/'' (join_str ''/'' ps)" and "join_str ''/'' ps = '''' \<longleftrightarrow> ps = []"
proof -
  show "\<not> starts_with ''/'' (join_str ''/'' ps)"
    using assms by (cases ps rule: join_cases) (auto simp: starts_with_def neq_Nil_conv)
  show "join_str ''/'' ps = '''' \<longleftrightarrow> ps = []"
    using assms by (cases ps rule: join_cases) auto
qed

lemma path_root_join:
  assumes "\<not> starts_with ''/'' t" shows "path_root (path_root s @ t) = path_root s"
  using assms by (auto simp: path_root_def starts_with_def) (cases t; simp)+

text \<open>A path text is its own path text.\<close>

lemma path_text_idem [simp]: "path_text (path_text s) = path_text s"
proof (cases "path_root s @ join_str ''/'' (path_parts s) = ''''")
  case True
  then have "path_text s = ''.''" by (simp add: path_text_def)
  moreover have "path_text ''.'' = ''.''" by code_simp
  ultimately show ?thesis by simp
next
  case False
  let ?t = "join_str ''/'' (path_parts s)"
  have proper: "\<forall>p \<in> set (path_parts s). p \<noteq> '''' \<and> p \<noteq> ''.'' \<and> CHR ''/'' \<notin> set p"
    using path_parts_proper by blast
  have t: "path_text s = path_root s @ ?t" using False by (simp add: path_text_def)
  then show ?thesis
    using False path_root_join [OF join_no_slash(1) [OF proper]] path_parts_root [of s ?t] path_parts_join [OF proper]
    by (simp add: path_text_def [of "path_root s @ ?t"])
qed

end
