(* ===== verification/Launch.thy ===== *)
theory Launch
  imports Loader Paths
begin

text \<open>
  The QEMU launcher of the lab harness (fixtures/vms/launch.py): where the guest finds the
  seed server, the command line built for a host's intent, starting the process, and
  stopping it. \<open>urlparse\<close> is modelled as far as the launcher reads it (scheme, host name and
  port). Starting a process and signalling it are actions on an abstract system state.
\<close>

section \<open>URLs\<close>

record parsed_url =
  url_scheme :: string
  url_hostname :: "string option"
  url_port :: "nat option"

definition before :: "char \<Rightarrow> string \<Rightarrow> string" where
  "before d s = takeWhile (\<lambda>c. c \<noteq> d) s"

definition after :: "char \<Rightarrow> string \<Rightarrow> string" where
  "after d s = drop 1 (dropWhile (\<lambda>c. c \<noteq> d) s)"

definition is_alpha :: "char \<Rightarrow> bool" where
  "is_alpha c \<longleftrightarrow> 97 \<le> (of_char (lower_char c) :: nat) \<and> (of_char (lower_char c) :: nat) \<le> 122"

definition is_scheme_char :: "char \<Rightarrow> bool" where
  "is_scheme_char c \<longleftrightarrow> is_alpha c \<or> is_digit c \<or> c \<in> {CHR ''+'', CHR ''-'', CHR ''.''}"

definition split_scheme :: "string \<Rightarrow> string \<times> string" where
  "split_scheme url =
     (let s = before CHR '':'' url in
      if CHR '':'' \<in> set url \<and> s \<noteq> '''' \<and> is_alpha (hd s) \<and> list_all is_scheme_char s
      then (py_lower s, after CHR '':'' url) else ('''', url))"

definition netloc_of :: "string \<Rightarrow> string" where
  "netloc_of rest =
     (if starts_with ''//'' rest
      then takeWhile (\<lambda>c. c \<notin> {CHR ''/'', CHR ''?'', CHR ''#''}) (drop 2 rest) else '''')"

text \<open>\<open>netloc.rpartition('@')[2]\<close>\<close>

definition hostinfo_of :: "string \<Rightarrow> string" where
  "hostinfo_of netloc = rev (takeWhile (\<lambda>c. c \<noteq> CHR 0x40) (rev netloc))"

definition host_and_port :: "string \<Rightarrow> string \<times> string" where
  "host_and_port info =
     (if CHR ''['' \<in> set info
      then (let bracketed = after CHR ''['' info
            in (before CHR '']'' bracketed, after CHR '':'' (after CHR '']'' bracketed)))
      else (before CHR '':'' info, after CHR '':'' info))"

definition parse_port :: "string \<Rightarrow> exn + nat option" where
  "parse_port p =
     (if p = '''' then Inr None
      else if \<not> list_all is_digit p
      then Inl (ValueError (''Port could not be cast to integer value as '' @ repr_str p))
      else if 65535 < nat_of_digits p then Inl (ValueError ''Port out of range 0-65535'')
      else Inr (Some (nat_of_digits p)))"

definition url_chars :: "string \<Rightarrow> string" where
  "url_chars url = filter (\<lambda>c. c \<notin> {CHR 0x09, CHR 0x0A, CHR 0x0D})
     (dropWhile (\<lambda>c. (of_char c :: nat) \<le> 32) url)"

definition urlparse :: "string \<Rightarrow> exn + parsed_url" where
  "urlparse url0 =
     (let (scheme, rest) = split_scheme (url_chars url0);
          netloc = netloc_of rest in
      if (CHR ''['' \<in> set netloc) \<noteq> (CHR '']'' \<in> set netloc) then Inl (ValueError ''Invalid IPv6 URL'')
      else
        let (host, port) = host_and_port (hostinfo_of netloc);
            name = py_lower (before CHR ''%'' host) @ dropWhile (\<lambda>c. c \<noteq> CHR ''%'') host in
        rbind (parse_port port) (\<lambda>p.
        Inr \<lparr>url_scheme = scheme, url_hostname = (if host = '''' then None else Some name),
             url_port = p\<rparr>))"


section \<open>The seed server as the guest sees it\<close>

definition SLIRP_GUESTFWD_IP :: string where "SLIRP_GUESTFWD_IP = ''10.0.2.100''"

definition LOCAL_HOSTNAMES :: "string list" where
  "LOCAL_HOSTNAMES = [''127.0.0.1'', ''localhost'', ''::1'']"

definition slirp_hostfwd_suffix :: "int option \<Rightarrow> string" where
  "slirp_hostfwd_suffix ssh_host_port = (case ssh_host_port of
      None \<Rightarrow> ''''
    | Some p \<Rightarrow> '',hostfwd=tcp::'' @ str_int p @ ''-:22'')"

definition seed_host :: "parsed_url \<Rightarrow> string" where
  "seed_host u = (case url_hostname u of None \<Rightarrow> ''127.0.0.1'' | Some h \<Rightarrow> if h = '''' then ''127.0.0.1'' else h)"

definition seed_port :: "parsed_url \<Rightarrow> nat" where
  "seed_port u = (let dflt = (if url_scheme u = ''https'' then 443 else 80)
     in case url_port u of None \<Rightarrow> dflt | Some p \<Rightarrow> if p = 0 then dflt else p)"

definition slirp_guestfwd_suffix :: "string \<Rightarrow> exn + string" where
  "slirp_guestfwd_suffix seed_server =
     rbind (urlparse seed_server) (\<lambda>u.
     let host = seed_host u; port = str_nat (seed_port u) in
     Inr (if host \<notin> set LOCAL_HOSTNAMES then ''''
          else '',guestfwd=tcp:'' @ SLIRP_GUESTFWD_IP @ '':'' @ port @ ''-tcp:'' @ host @ '':'' @ port))"

definition slirp_seed_url :: "string \<Rightarrow> string \<Rightarrow> exn + string" where
  "slirp_seed_url seed_server tag =
     rbind (urlparse seed_server) (\<lambda>u.
     let base = (if seed_host u \<in> set LOCAL_HOSTNAMES
                 then url_scheme u @ ''://'' @ SLIRP_GUESTFWD_IP @ '':'' @ str_nat (seed_port u)
                 else rstrip_by (\<lambda>c. c = CHR ''/'') seed_server) in
     Inr (base @ ''/v1/render/'' @ tag @ ''/''))"


section \<open>The command line\<close>

record vm_params =
  seed_server :: string
  image_path :: string
  tap_nsa :: string
  tap_nsb :: string
  memory_mib :: int
  vcpus :: int
  ssh_host_port :: "int option"
  extra_args :: "string list"

text \<open>The defaults of \<open>launch_host\<close>.\<close>

definition VM_MEMORY_MIB :: int where "VM_MEMORY_MIB = 2048"
definition VM_VCPUS :: int where "VM_VCPUS = 2"
definition TAP_NSA :: string where "TAP_NSA = ''tap-nsa''"
definition TAP_NSB :: string where "TAP_NSB = ''tap-nsb''"

definition tap_gpu :: "string \<Rightarrow> string" where
  "tap_gpu name = ''tap-'' @ name"

definition default_params :: "string \<Rightarrow> string \<Rightarrow> vm_params" where
  "default_params server img = \<lparr>seed_server = server, image_path = img,
     tap_nsa = TAP_NSA, tap_nsb = TAP_NSB, memory_mib = VM_MEMORY_MIB, vcpus = VM_VCPUS,
     ssh_host_port = None, extra_args = []\<rparr>"

definition tap_netdev :: "string \<Rightarrow> string \<Rightarrow> string \<Rightarrow> string list" where
  "tap_netdev netdev_id tap mac =
     [''-netdev'', ''tap,id='' @ netdev_id @ '',ifname='' @ tap @ '',script=no,downscript=no'',
      ''-device'', ''virtio-net-pci,netdev='' @ netdev_id @ '',mac='' @ mac]"

definition build_cmdline ::
  "string \<Rightarrow> vm_params \<Rightarrow> string \<Rightarrow> string \<Rightarrow> (string \<times> string \<times> string) list \<Rightarrow> exn + string list" where
  "build_cmdline tag p nsa_mac nsb_mac roce_nics =
     rbind (slirp_seed_url (seed_server p) tag) (\<lambda>seed_url.
     rbind (slirp_guestfwd_suffix (seed_server p)) (\<lambda>guestfwd.
     let slirp_opts = ''user,id=mgmt0'' @ guestfwd @ slirp_hostfwd_suffix (ssh_host_port p) in
     Inr ([''qemu-system-x86_64'', ''-enable-kvm'', ''-m'', str_int (memory_mib p),
           ''-smp'', str_int (vcpus p), ''-cpu'', ''host'',
           ''-drive'', ''file='' @ image_path p @ '',format=qcow2,if=virtio,snapshot=on'',
           ''-smbios'', ''type=1,serial=ds=nocloud-net;s='' @ seed_url,
           ''-smbios'', ''type=3,asset='' @ tag,
           ''-netdev'', slirp_opts, ''-device'', ''virtio-net-pci,netdev=mgmt0'']
          @ tap_netdev ''nsa0'' (tap_nsa p) nsa_mac
          @ tap_netdev ''nsb0'' (tap_nsb p) nsb_mac
          @ concat (map (\<lambda>(nic_name, mac, tap). tap_netdev (nic_name @ ''0'') tap mac) roce_nics)
          @ [''-display'', ''none'']
          @ extra_args p)))"

definition find_mac :: "host_intent \<Rightarrow> string \<Rightarrow> exn + string" where
  "find_mac intent name = (case find (\<lambda>n. nic_name n = name) (ns_nics intent) of
      Some nic \<Rightarrow> Inr (nic_mac nic)
    | None \<Rightarrow> Inl (KeyError (''NIC '' @ repr_str name @ '' not found in intent for ''
               @ repr_str (asset_tag intent))))"

definition roce_nics_of :: "host_intent \<Rightarrow> (string \<times> string \<times> string) list" where
  "roce_nics_of intent =
     map (\<lambda>n. (nic_name n, nic_mac n, tap_gpu (nic_name n))) (sort_key nic_name (roce_underlays intent))"

text \<open>What is started, and the MAC addresses the handle reports.\<close>

definition launch_plan :: "nb_client \<Rightarrow> string \<Rightarrow> vm_params \<Rightarrow> exn + string list \<times> string list" where
  "launch_plan client tag p =
     rbind (load_host_intent client tag) (\<lambda>intent.
     rbind (find_mac intent ''nsa'') (\<lambda>nsa_mac.
     rbind (find_mac intent ''nsb'') (\<lambda>nsb_mac.
     let roce_nics = roce_nics_of intent in
     rbind (build_cmdline tag (p\<lparr>image_path := path_text (image_path p)\<rparr>) nsa_mac nsb_mac roce_nics) (\<lambda>cmdline.
     Inr (cmdline, [nsa_mac, nsb_mac] @ map (\<lambda>(_, mac, _). mac) roce_nics)))))"


section \<open>The process\<close>

text \<open>\<open>subprocess.Popen\<close> and its object, on a system state: \<open>wait\<close> may time out.\<close>

datatype proc_error = TimeoutExpired | ProcessLookupError | OSError string

record 's process_api =
  popen :: "string list \<Rightarrow> ('s, proc_error, int) act"
  terminate :: "int \<Rightarrow> ('s, proc_error, unit) act"
  kill_proc :: "int \<Rightarrow> ('s, proc_error, unit) act"
  wait_proc :: "int \<Rightarrow> int \<Rightarrow> ('s, proc_error, unit) act"

record vm_handle =
  vm_asset_tag :: string
  vm_pid :: int
  vm_macs :: "string list"

text \<open>An error of the load or of starting the process.\<close>

definition launch_host ::
  "'s process_api \<Rightarrow> nb_client \<Rightarrow> string \<Rightarrow> vm_params \<Rightarrow> ('s, exn + proc_error, vm_handle) act" where
  "launch_host api client tag p s = (case launch_plan client tag p of
      Inl e \<Rightarrow> (Inl (Inl e), s)
    | Inr (cmdline, macs) \<Rightarrow> (case popen api cmdline s of
          (Inl e, t) \<Rightarrow> (Inl (Inr e), t)
        | (Inr pid, t) \<Rightarrow> (Inr \<lparr>vm_asset_tag = tag, vm_pid = pid, vm_macs = macs\<rparr>, t)))"

definition destroy :: "'s process_api \<Rightarrow> vm_handle \<Rightarrow> ('s, proc_error, unit) act" where
  "destroy api h s =
     (case abind (kill_proc api (vm_pid h)) (\<lambda>_. wait_proc api (vm_pid h) 5) s of
        (Inl e, t) \<Rightarrow> (if e = ProcessLookupError then (Inr (), t) else (Inl e, t))
      | (Inr u, t) \<Rightarrow> (Inr u, t))"

definition shutdown :: "'s process_api \<Rightarrow> vm_handle \<Rightarrow> int \<Rightarrow> ('s, proc_error, unit) act" where
  "shutdown api h timeout s =
     (case abind (terminate api (vm_pid h)) (\<lambda>_. wait_proc api (vm_pid h) timeout) s of
        (Inl e, t) \<Rightarrow> (if e = TimeoutExpired then destroy api h t else (Inl e, t))
      | (Inr u, t) \<Rightarrow> (Inr u, t))"

end
