(* ===== verification/Launch_Props.thy ===== *)
theory Launch_Props
  imports Launch Pipeline
begin

text \<open>
  Properties of the launcher: the network devices of the command line are those of the
  host's intent, and the command does not depend on the order in which Netbox lists them.
\<close>

section \<open>Finding a MAC\<close>

lemma find_by_name:
  assumes "inj_on f (set xs)" and "x \<in> set xs"
  shows "find (\<lambda>y. f y = f x) xs = Some x"
proof -
  obtain y where y: "find (\<lambda>y. f y = f x) xs = Some y"
    using assms(2) by (cases "find (\<lambda>y. f y = f x) xs") (auto simp: find_None_iff)
  then have "y \<in> set xs \<and> f y = f x" by (auto simp: find_Some_iff)
  then have "y = x" using assms by (auto dest: inj_onD)
  then show ?thesis using y by simp
qed

lemma loaded_find_mac:
  assumes "load_host_intent client tag = Inr i" and "name \<in> {''nsa'', ''nsb''}"
  shows "\<exists>n \<in> set (ns_nics i). nic_name n = name \<and> find_mac i name = Inr (nic_mac n)"
proof -
  have "map nic_name (ns_nics i) = NS_NIC_NAMES"
    using assms(1) by (elim load_host_intentE) (rule build_ns_nics_Inr(1))
  then have "name \<in> nic_name ` set (ns_nics i)"
    using assms(2) by (metis NS_NIC_NAMES_def empty_iff insert_iff list.set(1) list.simps(15) set_map)
  then obtain n where n: "n \<in> set (ns_nics i)" "nic_name n = name" by auto
  have "inj_on nic_name (set (ns_nics i))"
    using load_wf_intent [OF assms(1)] renderable_inj_names(1) by (simp add: wf_intent_def)
  from find_by_name [OF this n(1)] show ?thesis using n by (auto simp: find_mac_def)
qed

lemma find_mac_order_free:
  assumes "mset (ns_nics i) = mset (ns_nics j)" and "inj_on nic_name (set (ns_nics i))"
    and "asset_tag i = asset_tag j"
  shows "find_mac i name = find_mac j name"
proof -
  have sets: "set (ns_nics i) = set (ns_nics j)" using assms(1) by (rule mset_eq_setD)
  show ?thesis
  proof (cases "name \<in> nic_name ` set (ns_nics i)")
    case True
    then obtain n where n: "n \<in> set (ns_nics i)" "name = nic_name n" by auto
    have "find (\<lambda>y. nic_name y = nic_name n) (ns_nics j) = Some n"
      using assms(2) n(1) unfolding sets by (rule find_by_name)
    then show ?thesis using find_by_name [OF assms(2) n(1)] n(2) by (simp add: find_mac_def)
  next
    case False
    have "find (\<lambda>n. nic_name n = name) (ns_nics i) = None" "find (\<lambda>n. nic_name n = name) (ns_nics j) = None"
      using False sets by (auto simp: find_None_iff)
    then show ?thesis by (simp add: find_mac_def assms(3))
  qed
qed


section \<open>The devices of a command line\<close>

definition is_nic_device :: "string \<Rightarrow> bool" where
  "is_nic_device arg \<longleftrightarrow> starts_with ''virtio-net-pci,'' arg"

definition nic_device :: "string \<Rightarrow> string \<Rightarrow> string" where
  "nic_device netdev_id mac = ''virtio-net-pci,netdev='' @ netdev_id @ '',mac='' @ mac"

lemma str_int_not_device: "\<not> is_nic_device (str_int n)"
proof -
  have "CHR ''v'' \<notin> set (str_int n)"
    using str_nat_no_char [of "CHR ''v''"] by (simp add: str_int_def is_digit_def)
  then show ?thesis by (auto simp: is_nic_device_def starts_with_iff)
qed

lemma tap_netdev_devices:
  "filter is_nic_device (tap_netdev netdev_id tap mac) = [nic_device netdev_id mac]"
  by (simp add: tap_netdev_def is_nic_device_def nic_device_def starts_with_def)

lemma roce_devices: "filter is_nic_device (concat (map (\<lambda>(name, mac, tap). tap_netdev (name @ ''0'') tap mac) ts))
    = map (\<lambda>(name, mac, tap). nic_device (name @ ''0'') mac) ts"
  by (induction ts) (auto simp: tap_netdev_devices simp del: filter_concat)

lemma cmdline_devices:
  assumes "build_cmdline tag p nsa nsb ts = Inr cmd"
  shows "filter is_nic_device cmd = [''virtio-net-pci,netdev=mgmt0'', nic_device ''nsa0'' nsa,
      nic_device ''nsb0'' nsb] @ map (\<lambda>(name, mac, tap). nic_device (name @ ''0'') mac) ts
      @ filter is_nic_device (extra_args p)"
proof -
  obtain url fwd where cmd: "cmd = [''qemu-system-x86_64'', ''-enable-kvm'', ''-m'', str_int (memory_mib p),
           ''-smp'', str_int (vcpus p), ''-cpu'', ''host'',
           ''-drive'', ''file='' @ image_path p @ '',format=qcow2,if=virtio,snapshot=on'',
           ''-smbios'', ''type=1,serial=ds=nocloud-net;s='' @ url,
           ''-smbios'', ''type=3,asset='' @ tag,
           ''-netdev'', ''user,id=mgmt0'' @ fwd @ slirp_hostfwd_suffix (ssh_host_port p),
           ''-device'', ''virtio-net-pci,netdev=mgmt0'']
          @ tap_netdev ''nsa0'' (tap_nsa p) nsa @ tap_netdev ''nsb0'' (tap_nsb p) nsb
          @ concat (map (\<lambda>(nic_name, mac, tap). tap_netdev (nic_name @ ''0'') tap mac) ts)
          @ [''-display'', ''none''] @ extra_args p"
    using assms by (auto simp: build_cmdline_def rbind_eq_Inr Let_def)
  have lit: "is_nic_device ''virtio-net-pci,netdev=mgmt0''" "\<not> is_nic_device ''qemu-system-x86_64''"
    "\<not> is_nic_device (CHR ''-'' # s)" "\<not> is_nic_device ''host''" "\<not> is_nic_device ''none''"
    "\<not> is_nic_device (CHR ''f'' # s)" "\<not> is_nic_device (CHR ''t'' # s)" "\<not> is_nic_device (CHR ''u'' # s)" for s
    by (simp_all add: is_nic_device_def starts_with_def)
  show ?thesis
    unfolding cmd filter_append tap_netdev_devices roce_devices
    by (simp add: lit str_int_not_device)
qed

lemma netdev_ids_distinct:
  assumes "load_host_intent client tag = Inr i"
  shows "distinct ([''mgmt0'', ''nsa0'', ''nsb0''] @ map (\<lambda>n. nic_name n @ ''0'') (sort_key nic_name (roce_underlays i)))"
proof -
  have "distinct (map nic_name (roce_underlays i))"
    using renderable_names load_wf_intent [OF assms] by (auto simp: wf_intent_def)
  then have "distinct (map nic_name (sort_key nic_name (roce_underlays i)))"
    unfolding map_sort_key by simp
  moreover have gpu: "starts_with ''gpu'' (nic_name n)" if "n \<in> set (roce_underlays i)" for n
  proof -
    obtain ifs where "map nic_name (roce_underlays i) = sort (map nbi_name (filter is_roce_iface ifs))"
      using assms by (elim load_host_intentE) (metis build_roce_underlays_Inr(2))
    then have "nic_name n \<in> set (sort (map nbi_name (filter is_roce_iface ifs)))"
      using that by (metis imageI set_map)
    then show ?thesis by (auto simp: is_roce_iface_def ROCE_NIC_PREFIX_def)
  qed
  moreover have "\<forall>n \<in> set (roce_underlays i). nic_name n \<notin> {''mgmt'', ''nsa'', ''nsb''}"
    using gpu by (fastforce simp: starts_with_def)
  ultimately show ?thesis
    by (auto simp: distinct_map inj_on_def dest: sym)
qed

lemma roce_count_of:
  assumes "load_host_intent client tag = Inr i"
  shows "length (roce_underlays i) = (if host_role i \<in> {GPU_B300, GPU_B200} then 8 else 0)"
proof -
  have "length (roce_underlays i) = count_for_role ROCE_COUNT_BY_ROLE (role_value (host_role i))"
    using load_wf_intent [OF assms] by (simp add: wf_intent_def renderable_unfold)
  then show ?thesis
    by (cases "host_role i") (simp_all add: count_for_role_def ROCE_COUNT_BY_ROLE_def role_value_def)
qed

text \<open>C31: which NICs of a host its lab VM has: after the management device one network device for each of
  \<open>nsa\<close> and \<open>nsb\<close> and one for each RoCE underlay, in name order and with that NIC's MAC address,
  under distinct ids, then those of the caller's extra arguments, and no other. So a B300 or B200
  host has ten devices of its own, a CPU host two, and an H200 host two as well: none of its
  InfiniBand rails is wired. The handle lists the addresses in the same order.\<close>

theorem launched_vm_devices:
  assumes "launch_plan client tag p = Inr (cmdline, macs)"
  shows "\<exists>i a b. load_host_intent client tag = Inr i
    \<and> a \<in> set (ns_nics i) \<and> nic_name a = ''nsa'' \<and> b \<in> set (ns_nics i) \<and> nic_name b = ''nsb''
    \<and> filter is_nic_device cmdline =
        [''virtio-net-pci,netdev=mgmt0'', nic_device ''nsa0'' (nic_mac a), nic_device ''nsb0'' (nic_mac b)]
        @ map (\<lambda>n. nic_device (nic_name n @ ''0'') (nic_mac n)) (sort_key nic_name (roce_underlays i))
        @ filter is_nic_device (extra_args p)
    \<and> macs = [nic_mac a, nic_mac b] @ map nic_mac (sort_key nic_name (roce_underlays i))
    \<and> length macs = (if host_role i \<in> {GPU_B300, GPU_B200} then 10 else 2)
    \<and> distinct ([''mgmt0'', ''nsa0'', ''nsb0'']
        @ map (\<lambda>n. nic_name n @ ''0'') (sort_key nic_name (roce_underlays i)))"
proof -
  obtain i nsa nsb where steps: "load_host_intent client tag = Inr i" "find_mac i ''nsa'' = Inr nsa"
    "find_mac i ''nsb'' = Inr nsb"
    "build_cmdline tag (p\<lparr>image_path := path_text (image_path p)\<rparr>) nsa nsb (roce_nics_of i) = Inr cmdline"
    "macs = [nsa, nsb] @ map (\<lambda>(_, mac, _). mac) (roce_nics_of i)"
    using assms(1) by (auto simp: launch_plan_def rbind_eq_Inr Let_def)
  obtain a where a: "a \<in> set (ns_nics i)" "nic_name a = ''nsa''" "nic_mac a = nsa"
    using loaded_find_mac [OF steps(1), of "''nsa''"] steps(2) by auto
  obtain b where b: "b \<in> set (ns_nics i)" "nic_name b = ''nsb''" "nic_mac b = nsb"
    using loaded_find_mac [OF steps(1), of "''nsb''"] steps(3) by auto
  show ?thesis
    using a b steps(1,5) cmdline_devices [OF steps(4)] netdev_ids_distinct [OF steps(1)] roce_count_of [OF steps(1)]
    by (intro exI [of _ i] exI [of _ a] exI [of _ b]) (simp add: roce_nics_of_def comp_def case_prod_beta)
qed

definition sample_params :: vm_params where
  "sample_params = default_params ''http://127.0.0.1:8080'' ''/img/noble.img''"

lemma cpu_launch: "\<exists>cmdline macs. launch_plan cpu_client ''SN-CPU-001'' sample_params = Inr (cmdline, macs)"
proof -
  have "urlparse ''http://127.0.0.1:8080''
      = Inr \<lparr>url_scheme = ''http'', url_hostname = Some ''127.0.0.1'', url_port = Some 8080\<rparr>"
    by code_simp
  moreover have "find_mac cpu_intent ''nsa'' = Inr ''aa:bb:cc:00:01:01''"
    "find_mac cpu_intent ''nsb'' = Inr ''aa:bb:cc:00:01:02''"
    by (simp_all add: find_mac_def cpu_intent_def cpu_members_def)
  ultimately show ?thesis
    by (simp add: launch_plan_def cpu_load build_cmdline_def slirp_seed_url_def slirp_guestfwd_suffix_def
        sample_params_def default_params_def Let_def)
qed

theorem launched_vm_devices_witness:
  "\<exists>cmdline macs. launch_plan cpu_client ''SN-CPU-001'' sample_params = Inr (cmdline, macs)
     \<and> length (filter is_nic_device cmdline) = 3"
proof -
  obtain cmdline macs where l: "launch_plan cpu_client ''SN-CPU-001'' sample_params = Inr (cmdline, macs)"
    using cpu_launch by blast
  have "extra_args sample_params = []" by (simp add: sample_params_def default_params_def)
  with launched_vm_devices [OF l] l show ?thesis by (auto simp: cpu_load cpu_intent_def)
qed

text \<open>C32: the command line is a function of the host, not of the order in which Netbox lists its
  interfaces: a reordered inventory launches the same command with the same addresses.\<close>

theorem launch_order_free:
  assumes "reordered c d tag" and "launch_plan c tag p = Inr plan"
  shows "launch_plan d tag p = Inr plan"
proof -
  obtain i where i: "load_host_intent c tag = Inr i"
    using assms(2) by (auto simp: launch_plan_def rbind_eq_Inr)
  obtain j where j: "load_host_intent d tag = Inr j" "same_up_to_order i j"
    using load_reordered [OF assms(1) i] by blast
  have r: "renderable i" using load_wf_intent [OF i] by (simp add: wf_intent_def)
  have s: "mset (ns_nics i) = mset (ns_nics j)" "mset (roce_underlays i) = mset (roce_underlays j)"
      "asset_tag i = asset_tag j"
    using j(2) by (auto simp: same_up_to_order_def)
  have "find_mac i = find_mac j"
    using find_mac_order_free [OF s(1) renderable_inj_names(1) [OF r] s(3)] by (auto simp: fun_eq_iff)
  moreover have "roce_nics_of i = roce_nics_of j"
    using nics_order.order_free [OF s(2) renderable_inj_names(2) [OF r]] by (simp add: roce_nics_of_def)
  ultimately show ?thesis using assms(2) i j(1) by (simp add: launch_plan_def)
qed

theorem launch_order_free_witness:
  "\<exists>plan. launch_plan (inventory (rev cpu_ifaces)) ''SN-CPU-001'' sample_params = Inr plan"
  using cpu_launch launch_order_free [OF cpu_reordered] by blast

end
