(* ===== verification/Processes.thy ===== *)
theory Processes
  imports Launch_Props
begin

text \<open>
  Stopping a launched VM. \<open>subprocess.Popen\<close> of the standard library is modelled on a system
  state: a clock, the children with the time at which each is gone, the exit statuses the
  \<open>Popen\<close> objects have collected and the signals sent. How the program behaves (whether it can
  be started, how long it takes to leave after each signal, if it ever does) is a parameter.
  What the handle's methods rely on is the locale \<open>child_processes\<close>, interpreted on that model.
\<close>

section \<open>Child processes\<close>

datatype proc_signal = SIGTERM | SIGKILL

text \<open>When a child is gone if nobody signals it, and how long it takes after a signal.\<close>

record child =
  gone_at :: "int option"
  term_delay :: "nat option"
  kill_delay :: "nat option"

record system =
  now_s :: int
  children :: "int \<Rightarrow> child option"
  collected :: "int set"
  signals :: "(int \<times> proc_signal) list"
  next_pid :: int

definition is_gone :: "child \<Rightarrow> int \<Rightarrow> bool" where
  "is_gone c t \<longleftrightarrow> (case gone_at c of None \<Rightarrow> False | Some e \<Rightarrow> e \<le> t)"

text \<open>\<open>Popen.poll\<close>: collect the exit status of a child that is gone\<close>

definition poll :: "int \<Rightarrow> system \<Rightarrow> system" where
  "poll pid s = (case children s pid of
      None \<Rightarrow> s
    | Some c \<Rightarrow> if is_gone c (now_s s) then s\<lparr>collected := insert pid (collected s)\<rparr> else s)"

definition earlier :: "int option \<Rightarrow> int option \<Rightarrow> int option" where
  "earlier a b = (case (a, b) of (None, _) \<Rightarrow> b | (_, None) \<Rightarrow> a | (Some x, Some y) \<Rightarrow> Some (min x y))"

definition delay_of :: "proc_signal \<Rightarrow> child \<Rightarrow> nat option" where
  "delay_of sig c = (case sig of SIGTERM \<Rightarrow> term_delay c | SIGKILL \<Rightarrow> kill_delay c)"

definition hit :: "proc_signal \<Rightarrow> int \<Rightarrow> child \<Rightarrow> child" where
  "hit sig t c = c\<lparr>gone_at := earlier (gone_at c) (map_option (\<lambda>d. t + int d) (delay_of sig c))\<rparr>"

text \<open>
  \<open>Popen.send_signal\<close> polls first and does nothing to a child whose status is collected; a
  \<open>ProcessLookupError\<close> of the system call is suppressed (Python 3.12, which the project pins).
\<close>

definition send_signal :: "proc_signal \<Rightarrow> int \<Rightarrow> (system, proc_error, unit) act" where
  "send_signal sig pid s =
     (let s1 = poll pid s in
      if pid \<in> collected s1 then (Inr (), s1)
      else (Inr (), s1\<lparr>children := (children s1)(pid := map_option (hit sig (now_s s1)) (children s1 pid)),
                       signals := signals s1 @ [(pid, sig)]\<rparr>))"

text \<open>
  \<open>Popen.wait(timeout)\<close> looks at least once, and at the deadline a last time.
\<close>

definition wait_child :: "int \<Rightarrow> int \<Rightarrow> (system, proc_error, unit) act" where
  "wait_child pid timeout s =
     (if pid \<in> collected s then (Inr (), s)
      else let deadline = max (now_s s) (now_s s + timeout) in
        case (case children s pid of None \<Rightarrow> None | Some c \<Rightarrow> gone_at c) of
          None \<Rightarrow> (Inl TimeoutExpired, s\<lparr>now_s := deadline\<rparr>)
        | Some e \<Rightarrow>
            if e \<le> deadline
            then (Inr (), s\<lparr>now_s := max (now_s s) e, collected := insert pid (collected s)\<rparr>)
            else (Inl TimeoutExpired, s\<lparr>now_s := deadline\<rparr>))"

definition start_child ::
  "(string list \<Rightarrow> proc_error + child) \<Rightarrow> string list \<Rightarrow> (system, proc_error, int) act" where
  "start_child program cmdline s = (case program cmdline of
      Inl e \<Rightarrow> (Inl e, s)
    | Inr c \<Rightarrow> (Inr (next_pid s), s\<lparr>children := (children s)(next_pid s \<mapsto> c), next_pid := next_pid s + 1\<rparr>))"

definition subprocess :: "(string list \<Rightarrow> proc_error + child) \<Rightarrow> system process_api" where
  "subprocess program = \<lparr>popen = start_child program, terminate = send_signal SIGTERM,
     kill_proc = send_signal SIGKILL, wait_proc = wait_child\<rparr>"


section \<open>What the handle relies on\<close>

locale child_processes =
  fixes api :: "'s process_api" and left :: "int \<Rightarrow> 's \<Rightarrow> bool" and clock :: "'s \<Rightarrow> int"
  assumes terminates: "terminate api pid s = (r, t) \<Longrightarrow> r = Inr () \<and> clock t = clock s"
    and kills: "kill_proc api pid s = (r, t) \<Longrightarrow> r = Inr () \<and> clock t = clock s"
    and waits: "wait_proc api pid n s = (Inr (), t) \<Longrightarrow> left pid t"
    and wait_error: "wait_proc api pid n s = (Inl e, t) \<Longrightarrow> e = TimeoutExpired"
    and wait_time: "wait_proc api pid n s = (r, t) \<Longrightarrow> clock s \<le> clock t \<and> clock t \<le> clock s + max 0 n"
begin

lemma destroy_steps:
  obtains s1 where "kill_proc api (vm_pid h) s = (Inr (), s1)" "clock s1 = clock s"
    "destroy api h s = wait_proc api (vm_pid h) 5 s1"
proof -
  obtain r s1 where k: "kill_proc api (vm_pid h) s = (r, s1)" by force
  have "r = Inr ()" "clock s1 = clock s" using kills [OF k] by simp_all
  moreover obtain q t where w: "wait_proc api (vm_pid h) 5 s1 = (q, t)" by force
  moreover have "q = Inl e \<Longrightarrow> e = TimeoutExpired" for e using wait_error w by blast
  ultimately show thesis using k by (intro that [of s1]) (auto simp: destroy_def abind_def split: sum.splits)
qed

lemma shutdown_steps:
  obtains s1 where "terminate api (vm_pid h) s = (Inr (), s1)" "clock s1 = clock s"
    "shutdown api h n s = (case wait_proc api (vm_pid h) n s1 of
       (Inl _, t) \<Rightarrow> destroy api h t | (Inr u, t) \<Rightarrow> (Inr u, t))"
proof -
  obtain r s1 where k: "terminate api (vm_pid h) s = (r, s1)" by force
  have "r = Inr ()" "clock s1 = clock s" using terminates [OF k] by simp_all
  moreover obtain q t where w: "wait_proc api (vm_pid h) n s1 = (q, t)" by force
  moreover have "q = Inl e \<Longrightarrow> e = TimeoutExpired" for e using wait_error w by blast
  ultimately show thesis using k by (intro that [of s1]) (auto simp: shutdown_def abind_def split: sum.splits)
qed

lemma destroy_outcome:
  assumes "destroy api h s = (r, t)"
  shows "(r = Inr () \<and> left (vm_pid h) t \<or> r = Inl TimeoutExpired) \<and> clock s \<le> clock t \<and> clock t \<le> clock s + 5"
proof -
  obtain s1 where s1: "clock s1 = clock s" "destroy api h s = wait_proc api (vm_pid h) 5 s1"
    by (rule destroy_steps)
  then have w: "wait_proc api (vm_pid h) 5 s1 = (r, t)" using assms by simp
  show ?thesis using wait_time [OF w] waits wait_error w s1(1) by (cases r) auto
qed

lemma shutdown_outcome:
  assumes "shutdown api h n s = (r, t)"
  shows "(r = Inr () \<and> left (vm_pid h) t \<or> r = Inl TimeoutExpired)
    \<and> clock s \<le> clock t \<and> clock t \<le> clock s + max 0 n + 5"
proof -
  obtain s1 where s1: "clock s1 = clock s"
      "shutdown api h n s = (case wait_proc api (vm_pid h) n s1 of
         (Inl _, t) \<Rightarrow> destroy api h t | (Inr u, t) \<Rightarrow> (Inr u, t))"
    by (rule shutdown_steps)
  obtain q s2 where w: "wait_proc api (vm_pid h) n s1 = (q, s2)" by force
  show ?thesis
  proof (cases q)
    case (Inl e)
    then have "destroy api h s2 = (r, t)" using assms s1(2) w by simp
    from destroy_outcome [OF this] show ?thesis using wait_time [OF w] s1(1) by auto
  next
    case (Inr u)
    then show ?thesis using assms s1 w waits [of "vm_pid h" n s1 s2] wait_time [OF w] by simp
  qed
qed

end

lemma poll_simps [simp]: "now_s (poll pid s) = now_s s" "children (poll pid s) = children s"
  "signals (poll pid s) = signals s"
  by (simp_all add: poll_def split: option.splits)

interpretation vm: child_processes "subprocess program" "\<lambda>pid s. pid \<in> collected s" now_s for program
  by unfold_locales
     (auto simp: subprocess_def send_signal_def wait_child_def Let_def split: if_splits option.splits)

section \<open>Shutting down\<close>

definition gone_by :: "int option \<Rightarrow> int \<Rightarrow> bool" where
  "gone_by e t \<longleftrightarrow> (case e of None \<Rightarrow> False | Some x \<Rightarrow> x \<le> t)"

definition running :: "int \<Rightarrow> child \<Rightarrow> system \<Rightarrow> bool" where
  "running pid c s \<longleftrightarrow> pid \<notin> collected s \<and> \<not> is_gone c (now_s s)"

text \<open>Does the child leave in time after SIGTERM?\<close>

definition yields :: "child \<Rightarrow> int \<Rightarrow> int \<Rightarrow> bool" where
  "yields c t n \<longleftrightarrow> gone_by (gone_at (hit SIGTERM t c)) (t + max 0 n)"

lemma gone_by_earlier: "gone_by (earlier a b) t \<longleftrightarrow> gone_by a t \<or> gone_by b t"
  by (auto simp: gone_by_def earlier_def split: option.splits)

lemma is_gone_by: "is_gone c t = gone_by (gone_at c) t"
  by (simp add: is_gone_def gone_by_def)

lemma signal_running:
  assumes "children s pid = Some c" and "running pid c s"
  shows "send_signal sig pid s = (Inr (), s\<lparr>children := (children s)(pid \<mapsto> hit sig (now_s s) c),
    signals := signals s @ [(pid, sig)]\<rparr>)"
  using assms by (simp add: send_signal_def poll_def running_def)

lemma signal_dead:
  assumes "children s pid = Some c" and "\<not> running pid c s"
  shows "send_signal sig pid s = (Inr (), s\<lparr>collected := insert pid (collected s)\<rparr>)"
  using assms by (auto simp: send_signal_def poll_def running_def insert_absorb Let_def)

lemma wait_child_cases:
  assumes "children s pid = Some c" and "pid \<notin> collected s"
  shows "wait_child pid n s =
    (if gone_by (gone_at c) (now_s s + max 0 n)
     then (Inr (), s\<lparr>now_s := max (now_s s) (the (gone_at c)), collected := insert pid (collected s)\<rparr>)
     else (Inl TimeoutExpired, s\<lparr>now_s := now_s s + max 0 n\<rparr>))"
  using assms by (auto simp: wait_child_def gone_by_def Let_def max_def split: option.splits)

lemma destroy_running:
  assumes "children s (vm_pid h) = Some c" and "running (vm_pid h) c s"
    and "destroy (subprocess program) h s = (r, t)"
  shows "signals t = signals s @ [(vm_pid h, SIGKILL)]
    \<and> (r = Inr () \<longleftrightarrow> gone_by (gone_at (hit SIGKILL (now_s s) c)) (now_s s + 5))
    \<and> (r = Inr () \<longleftrightarrow> vm_pid h \<in> collected t)"
proof -
  have "vm_pid h \<notin> collected s" using assms(2) by (simp add: running_def)
  then show ?thesis using assms
    by (auto simp: destroy_def abind_def subprocess_def signal_running wait_child_cases split: if_splits)
qed

lemma hit_simps: "gone_at (hit sig t c) = earlier (gone_at c) (map_option (\<lambda>d. t + int d) (delay_of sig c))"
  "delay_of sig (hit sig' t c) = delay_of sig c"
  by (simp_all add: hit_def delay_of_def split: proc_signal.splits)

lemma kill_works: "kill_delay c = Some d \<Longrightarrow> d \<le> 5 \<Longrightarrow> gone_by (gone_at (hit SIGKILL t c)) (t + 5)"
  by (simp add: hit_simps gone_by_earlier delay_of_def) (simp add: gone_by_def)

lemma subprocess_simps [simp]:
  "popen (subprocess program) = start_child program"
  "terminate (subprocess program) = send_signal SIGTERM"
  "kill_proc (subprocess program) = send_signal SIGKILL"
  "wait_proc (subprocess program) = wait_child"
  by (simp_all add: subprocess_def)

lemma shutdown_dead:
  assumes "children s (vm_pid h) = Some c" and "\<not> running (vm_pid h) c s"
    and "shutdown (subprocess program) h n s = (r, t)"
  shows "r = Inr () \<and> now_s t = now_s s \<and> signals t = signals s \<and> vm_pid h \<in> collected t"
  using assms(3) by (auto simp: shutdown_def signal_dead [OF assms(1,2)] abind_def wait_child_def)

lemma shutdown_yields:
  assumes "children s (vm_pid h) = Some c" and "running (vm_pid h) c s" and "yields c (now_s s) n"
    and "shutdown (subprocess program) h n s = (r, t)"
  shows "r = Inr () \<and> signals t = signals s @ [(vm_pid h, SIGTERM)] \<and> vm_pid h \<in> collected t"
proof -
  have "vm_pid h \<notin> collected s" using assms(2) by (simp add: running_def)
  then show ?thesis using assms(3,4)
    by (auto simp: shutdown_def signal_running [OF assms(1,2)] abind_def wait_child_cases yields_def)
qed

lemma shutdown_escalates:
  assumes "children s (vm_pid h) = Some c" and "running (vm_pid h) c s" and "\<not> yields c (now_s s) n"
    and "shutdown (subprocess program) h n s = (r, t)"
  shows "signals t = signals s @ [(vm_pid h, SIGTERM), (vm_pid h, SIGKILL)]
    \<and> (r = Inr () \<longleftrightarrow> vm_pid h \<in> collected t) \<and> (\<forall>d \<le> 5. kill_delay c = Some d \<longrightarrow> r = Inr ())"
proof -
  let ?c = "hit SIGTERM (now_s s) c"
  define u where "u = s\<lparr>children := (children s)(vm_pid h \<mapsto> ?c),
    signals := signals s @ [(vm_pid h, SIGTERM)], now_s := now_s s + max 0 n\<rparr>"
  have "vm_pid h \<notin> collected s" using assms(2) by (simp add: running_def)
  then have d: "destroy (subprocess program) h u = (r, t)" and run: "running (vm_pid h) ?c u"
    using assms(3,4) by (auto simp: shutdown_def signal_running [OF assms(1,2)] abind_def wait_child_cases
        yields_def u_def running_def is_gone_by)
  have "children u (vm_pid h) = Some ?c" by (simp add: u_def)
  from destroy_running [OF this run d] show ?thesis
    using kill_works [of ?c _ "now_s u"] by (auto simp: u_def hit_def)
qed

text \<open>C30: shutting a VM down takes at most its timeout and five seconds and only ever fails by
  \<open>TimeoutExpired\<close>, having sent both signals; it returns normally exactly when the exit status
  is collected. A VM that is dead already gets no signal and costs no time, one that leaves
  within the timeout after SIGTERM gets no SIGKILL, and one that dies within five seconds of
  SIGKILL is always brought down.\<close>

theorem shutdown_stops_vm:
  assumes "children s (vm_pid h) = Some c"
    and "shutdown (subprocess program) h n s = (r, t)"
  shows "now_s s \<le> now_s t \<and> now_s t \<le> now_s s + max 0 n + 5
    \<and> (r = Inr () \<longleftrightarrow> vm_pid h \<in> collected t) \<and> (r = Inr () \<or> r = Inl TimeoutExpired)
    \<and> signals t = signals s @
        (if \<not> running (vm_pid h) c s then []
         else if yields c (now_s s) n then [(vm_pid h, SIGTERM)]
         else [(vm_pid h, SIGTERM), (vm_pid h, SIGKILL)])
    \<and> (\<not> running (vm_pid h) c s \<or> yields c (now_s s) n \<or> (\<exists>d \<le> 5. kill_delay c = Some d) \<longrightarrow> r = Inr ())
    \<and> (\<not> running (vm_pid h) c s \<longrightarrow> now_s t = now_s s)"
proof (cases "running (vm_pid h) c s")
  case False
  then show ?thesis
    using shutdown_dead [OF assms(1) _ assms(2)] vm.shutdown_outcome [OF assms(2)] by simp
next
  case True
  then show ?thesis
    using shutdown_yields [OF assms(1) True _ assms(2)] shutdown_escalates [OF assms(1) True _ assms(2)]
      vm.shutdown_outcome [OF assms(2)] by (cases "yields c (now_s s) n") auto
qed

text \<open>A guest that ignores SIGTERM and dies a second after SIGKILL.\<close>

definition stubborn :: child where
  "stubborn = \<lparr>gone_at = None, term_delay = None, kill_delay = Some 1\<rparr>"

definition stubborn_system :: system where
  "stubborn_system = \<lparr>now_s = 100, children = [7 \<mapsto> stubborn], collected = {}, signals = [], next_pid = 8\<rparr>"

theorem shutdown_stops_vm_witness:
  "\<exists>t. shutdown (subprocess (\<lambda>_. Inr stubborn)) \<lparr>vm_asset_tag = ''SN-CPU-001'', vm_pid = 7, vm_macs = []\<rparr> 30
       stubborn_system = (Inr (), t) \<and> 7 \<in> collected t
     \<and> signals t = [(7, SIGTERM), (7, SIGKILL)] \<and> now_s t \<le> 135"
proof -
  obtain r t where run: "shutdown (subprocess (\<lambda>_. Inr stubborn))
      \<lparr>vm_asset_tag = ''SN-CPU-001'', vm_pid = 7, vm_macs = []\<rparr> 30 stubborn_system = (r, t)" by force
  have "running 7 stubborn stubborn_system" "\<not> yields stubborn 100 30"
    by (simp_all add: running_def yields_def is_gone_def gone_by_def hit_def delay_of_def earlier_def
        stubborn_def stubborn_system_def)
  moreover have "children stubborn_system 7 = Some stubborn" "now_s stubborn_system = 100"
    "signals stubborn_system = []" "kill_delay stubborn = Some 1"
    by (simp_all add: stubborn_system_def stubborn_def)
  ultimately show ?thesis using run shutdown_stops_vm [OF _ run, of stubborn] by auto
qed

end
