(* ===== verification/Prepare_Image.thy ===== *)
theory Prepare_Image
  imports Pyval Paths "HOL-Library.Word" "HOL-Library.Code_Target_Nat"
begin

text \<open>
  Cloud-image preparation (fixtures/vms/prepare_image.py): fetch the checksum list, download
  to a temporary path, verify, rename, and optionally run \<open>virt-customize\<close>. The state is the
  file system, from paths to contents; the network, SHA-256 and the \<open>virt-customize\<close> tool are
  parameters. Paths are path texts (Paths). File-system operations themselves are taken to
  succeed, also making the directory of the image, and no directory stands where the image goes,
  but for the current directory and the root, which are always there.
\<close>

type_synonym content = "8 word list"

type_synonym files = "string \<Rightarrow> content option"

definition BASE_URL :: string where
  "BASE_URL = ''https://cloud-images.ubuntu.com/noble/current''"

definition IMAGE_FILENAME :: string where
  "IMAGE_FILENAME = ''noble-server-cloudimg-amd64.img''"

definition SHASUMS_FILENAME :: string where
  "SHASUMS_FILENAME = ''SHA256SUMS''"

definition CUSTOMIZE_PACKAGES :: "string list" where
  "CUSTOMIZE_PACKAGES = [''lldpd'', ''chrony'', ''ethtool'']"

text \<open>
  The first three are \<open>ImagePrepError\<close>s; a missing checksum line is a plain \<open>KeyError\<close>, and a path
  without a name, whose suffix cannot be replaced, a \<open>ValueError\<close>.
\<close>

datatype prep_error =
    ChecksumMismatchError string string string
  | NetworkError string string
  | VirtCustomizeError string int string
  | MissingChecksum string
  | EmptyName string

definition is_image_prep_error :: "prep_error \<Rightarrow> bool" where
  "is_image_prep_error e = (case e of MissingChecksum _ \<Rightarrow> False | EmptyName _ \<Rightarrow> False | _ \<Rightarrow> True)"

text \<open>How a streamed download ends: no connection, a broken one, or the whole file.\<close>

datatype download = NoConnection string | Broken content string | Complete content

record prep_env =
  get_text :: "string \<Rightarrow> string + string"
  get_file :: "string \<Rightarrow> download"
  sha256 :: "content \<Rightarrow> string"
  have_virt_customize :: bool
  ssh_pubkey :: "string option"
  run_tool :: "string list \<Rightarrow> files \<Rightarrow> (int \<times> string) \<times> files"

definition fetch_text :: "prep_env \<Rightarrow> string \<Rightarrow> prep_error + string" where
  "fetch_text env url = (case get_text env url of
      Inl cause \<Rightarrow> Inl (NetworkError url cause) | Inr text \<Rightarrow> Inr text)"

definition fetch_file :: "prep_env \<Rightarrow> string \<Rightarrow> string \<Rightarrow> (files, prep_error, unit) act" where
  "fetch_file env url dest s = (case get_file env url of
      NoConnection cause \<Rightarrow> (Inl (NetworkError url cause), s)
    | Broken part cause \<Rightarrow> (Inl (NetworkError url cause), s(dest \<mapsto> part))
    | Complete c \<Rightarrow> (Inr (), s(dest \<mapsto> c)))"

fun extract_from :: "string list \<Rightarrow> string \<Rightarrow> prep_error + string" where
  "extract_from [] filename = Inl (MissingChecksum (repr_str filename @ '' not found in SHA256SUMS''))"
| "extract_from (line # rest) filename =
     (let parts = split_words line in
      if length parts = 2 \<and> dropWhile (\<lambda>c. c = CHR ''*'') (parts ! 1) = filename
      then Inr (py_lower (parts ! 0)) else extract_from rest filename)"

definition extract_sha256 :: "string \<Rightarrow> string \<Rightarrow> prep_error + string" where
  "extract_sha256 sha_content filename = extract_from (splitlines sha_content) filename"

definition sha256_of :: "prep_env \<Rightarrow> string \<Rightarrow> files \<Rightarrow> string" where
  "sha256_of env path s = sha256 env (case s path of None \<Rightarrow> [] | Some c \<Rightarrow> c)"

text \<open>
  \<open>path.with_suffix('.tmp')\<close>: the suffix of the last component, if it has one, is replaced. A path
  without a name is left as it is here; there the code raises, see \<open>prepare\<close>.
\<close>

definition with_suffix :: "string \<Rightarrow> string \<Rightarrow> string" where
  "with_suffix path suffix =
     (if nameless path then path else
      let name = rev (takeWhile (\<lambda>c. c \<noteq> CHR ''/'') (rev path));
          dir = take (length path - length name) path;
          ext = rev (takeWhile (\<lambda>c. c \<noteq> CHR ''.'') (rev name));
          stem = take (length name - length ext - 1) name
      in if CHR ''.'' \<in> set name \<and> stem \<noteq> '''' \<and> ext \<noteq> '''' then dir @ stem @ suffix
         else path @ suffix)"

definition unlink :: "string \<Rightarrow> files \<Rightarrow> files" where
  "unlink path s = s(path := None)"

definition rename :: "string \<Rightarrow> string \<Rightarrow> files \<Rightarrow> files" where
  "rename src dst s = (s(dst := s src))(src := None)"

section \<open>Customisation\<close>

definition cloud_cfg :: "string \<Rightarrow> string" where
  "cloud_cfg pubkey = concat (map (\<lambda>l. l @ [CHR 0x0A])
     [''# E2E lab test key '' @ [CHR 0xE2, CHR 0x80, CHR 0x94] @ '' injected by prepare_image.py --prepare.'',
      ''# This is a test infrastructure credential; only authorises'',
      ''# access to ephemeral lab VMs.'',
      ''# Matching private key: tests/e2e/fixtures/test_vm_key'',
      ''ssh_authorized_keys:'',
      ''  - '' @ pubkey])"

definition install_arg :: string where
  "install_arg = join_str '','' CUSTOMIZE_PACKAGES"

definition ssh_key_command :: "string option \<Rightarrow> string list" where
  "ssh_key_command key = (case key of
      None \<Rightarrow> []
    | Some k \<Rightarrow> [''--run-command'',
        ''mkdir -p /etc/cloud/cloud.cfg.d && cat > /etc/cloud/cloud.cfg.d/99-e2e-lab.cfg << ''
        @ [CHR 0x27] @ ''CLOUDEOF'' @ [CHR 0x27, CHR 0x0A] @ cloud_cfg (py_strip k) @ ''CLOUDEOF''])"

definition customize_cmd :: "prep_env \<Rightarrow> string \<Rightarrow> string list" where
  "customize_cmd env image_path =
     [''virt-customize'', ''-a'', image_path, ''--install'', install_arg,
      ''--run-command'', ''apt-get clean''] @ ssh_key_command (ssh_pubkey env)"

text \<open>The retry without \<open>--install\<close>: the comprehension over the command with its indices.\<close>

definition without_install :: "string list \<Rightarrow> string list" where
  "without_install cmd =
     map snd (filter (\<lambda>(i, c). c \<notin> {''--install'', install_arg} \<and> \<not> (0 < i \<and> cmd ! (i - 1) = ''--install''))
       (zip [0..<length cmd] cmd))"

definition run_virt_customize :: "prep_env \<Rightarrow> string \<Rightarrow> (files, prep_error, unit) act" where
  "run_virt_customize env image_path s =
     (if \<not> have_virt_customize env then (Inr (), s)
      else
        let cmd = customize_cmd env image_path in
        case run_tool env cmd s of ((rc, err), s1) \<Rightarrow>
          if rc = 0 then (Inr (), s1)
          else (case run_tool env (without_install cmd) s1 of ((rc', err'), s2) \<Rightarrow>
            if rc' \<noteq> 0 then (Inl (VirtCustomizeError image_path rc' err'), s2) else (Inr (), s2)))"


section \<open>Preparation\<close>

text \<open>The body of the \<open>try\<close>: download, verify, rename.\<close>

definition download_verified :: "prep_env \<Rightarrow> string \<Rightarrow> string \<Rightarrow> string \<Rightarrow> (files, prep_error, unit) act" where
  "download_verified env expected tmp_path out_path =
     abind (fetch_file env (BASE_URL @ ''/'' @ IMAGE_FILENAME) tmp_path) (\<lambda>_ s.
     let actual = sha256_of env tmp_path s in
     if actual \<noteq> expected
     then (Inl (ChecksumMismatchError tmp_path expected actual), unlink tmp_path s)
     else (Inr (), rename tmp_path out_path s))"

text \<open>\<open>except Exception: tmp_path.unlink(missing_ok=True); raise\<close>\<close>

definition cleanup_on_error :: "string \<Rightarrow> (files, prep_error, unit) act \<Rightarrow> (files, prep_error, unit) act" where
  "cleanup_on_error tmp_path m s = (case m s of
      (Inl e, t) \<Rightarrow> (Inl e, unlink tmp_path t) | (Inr u, t) \<Rightarrow> (Inr u, t))"

definition prepare :: "prep_env \<Rightarrow> string \<Rightarrow> bool \<Rightarrow> bool \<Rightarrow> (files, prep_error, string) act" where
  "prepare env out_path customize force s =
     (if (s out_path \<noteq> None \<or> nameless out_path) \<and> \<not> force then (Inr out_path, s)
      else
        abind (alift (fetch_text env (BASE_URL @ ''/'' @ SHASUMS_FILENAME))) (\<lambda>sha_content.
        abind (alift (extract_sha256 sha_content IMAGE_FILENAME)) (\<lambda>expected_sha.
        let tmp_path = with_suffix out_path ''.tmp'' in
        abind (if nameless out_path then athrow (EmptyName out_path) else aret ()) (\<lambda>_.
        abind (cleanup_on_error tmp_path (download_verified env expected_sha tmp_path out_path)) (\<lambda>_.
        abind (if customize then run_virt_customize env out_path else aret ()) (\<lambda>_.
        aret out_path))))) s)"

text \<open>\<open>_cli\<close> after argument parsing: its exit status, or an error it does not catch.\<close>

definition prepare_cli :: "prep_env \<Rightarrow> string \<Rightarrow> bool \<Rightarrow> bool \<Rightarrow> (files, prep_error, int) act" where
  "prepare_cli env out_path customize force s = (case prepare env out_path customize force s of
      (Inr _, t) \<Rightarrow> (Inr 0, t)
    | (Inl e, t) \<Rightarrow> if is_image_prep_error e then (Inr 1, t) else (Inl e, t))"


section \<open>What a preparation leaves behind\<close>

text \<open>The published checksum, if it could be fetched and the file is listed.\<close>

definition published :: "prep_env \<Rightarrow> string \<Rightarrow> bool" where
  "published env digest \<longleftrightarrow> (\<exists>text. get_text env (BASE_URL @ ''/'' @ SHASUMS_FILENAME) = Inr text
     \<and> extract_sha256 text IMAGE_FILENAME = Inr digest)"

lemma download_cases:
  assumes "cleanup_on_error tmp (download_verified env expected tmp out) s = (res, t)" and "tmp \<noteq> out"
  shows "(res = Inr () \<and> (\<exists>c. t = (s(out \<mapsto> c))(tmp := None) \<and> sha256 env c = expected))
    \<or> (\<exists>e. res = Inl e \<and> t = s(tmp := None) \<and> is_image_prep_error e)"
  using assms
  by (auto simp: cleanup_on_error_def download_verified_def abind_def fetch_file_def Let_def
      sha256_of_def unlink_def rename_def fun_upd_twist is_image_prep_error_def
      split: download.splits if_splits prod.splits sum.splits)

text \<open>A mirror that serves one image under its published digest, and a \<open>virt-customize\<close> that fails.\<close>

definition sample_mirror :: prep_env where
  "sample_mirror =
     \<lparr>get_text = (\<lambda>url. Inr (''aa  '' @ IMAGE_FILENAME)), get_file = (\<lambda>url. Complete [1]),
      sha256 = (\<lambda>c. if c = [1] then ''aa'' else ''bb''), have_virt_customize = True,
      ssh_pubkey = None, run_tool = (\<lambda>cmd fs. ((1, ''no network''), fs))\<rparr>"

lemma with_suffix_named: "with_suffix out suffix \<noteq> out \<Longrightarrow> \<not> nameless out"
  by (auto simp: with_suffix_def)

text \<open>C33: without customisation, a run leaves every other file alone, and the image path holds what it
  held before or an image whose digest is the published one, whatever the network does; a run
  that changed anything leaves no temporary file, and a successful one leaves an image.\<close>

theorem prepared_image_verified:
  assumes "prepare env out False force s = (res, t)" and "with_suffix out ''.tmp'' \<noteq> out"
  shows "(t out = s out \<or> (\<exists>c. t out = Some c \<and> published env (sha256 env c)))
    \<and> (\<forall>path. path \<noteq> out \<longrightarrow> path \<noteq> with_suffix out ''.tmp'' \<longrightarrow> t path = s path)
    \<and> (t \<noteq> s \<longrightarrow> t (with_suffix out ''.tmp'') = None)
    \<and> (\<forall>path. res = Inr path \<longrightarrow> path = out \<and> t out \<noteq> None)"
proof (cases "s out \<noteq> None \<and> \<not> force")
  case True
  then show ?thesis using assms(1) by (auto simp: prepare_def)
next
  case False
  note named [simp] = with_suffix_named [OF assms(2)]
  let ?tmp = "with_suffix out ''.tmp''"
  show ?thesis
  proof (cases "\<exists>expected. published env expected")
    case False
    then have "\<exists>e. (res, t) = (Inl e, s)"
      using assms(1) \<open>\<not> (s out \<noteq> None \<and> \<not> force)\<close>
      by (auto simp: prepare_def published_def fetch_text_def abind_def split: sum.splits) metis+
    then show ?thesis by auto
  next
    case True
    then obtain sums expected where p: "get_text env (BASE_URL @ ''/'' @ SHASUMS_FILENAME) = Inr sums"
        "extract_sha256 sums IMAGE_FILENAME = Inr expected" "published env expected"
      by (auto simp: published_def)
    obtain r u where d: "cleanup_on_error ?tmp (download_verified env expected ?tmp out) s = (r, u)"
      by (cases "cleanup_on_error ?tmp (download_verified env expected ?tmp out) s")
    have "(res, t) = (case r of Inl e \<Rightarrow> (Inl e, u) | Inr _ \<Rightarrow> (Inr out, u))"
      using assms(1) False p(1,2) d
      by (auto simp: prepare_def fetch_text_def abind_def Let_def split: sum.splits)
    then show ?thesis
      using download_cases [OF d assms(2)] p(3) assms(2) by (auto split: sum.splits)
  qed
qed

theorem prepared_image_verified_witness:
  "\<exists>t. prepare sample_mirror ''/img/noble.img'' False False (\<lambda>_. None) = (Inr ''/img/noble.img'', t)
     \<and> t ''/img/noble.img'' \<noteq> None \<and> t ''/img/noble.tmp'' = None"
proof -
  let ?run = "prepare sample_mirror ''/img/noble.img'' False False (\<lambda>_. None)"
  have w: "with_suffix ''/img/noble.img'' ''.tmp'' = ''/img/noble.tmp''" by code_simp
  have r: "fst ?run = Inr ''/img/noble.img''" by code_simp
  have run: "?run = (Inr ''/img/noble.img'', snd ?run)" using r by (simp add: prod_eq_iff)
  have ne: "with_suffix ''/img/noble.img'' ''.tmp'' \<noteq> ''/img/noble.img''" unfolding w by simp
  note prepared_image_verified [OF run ne]
  then have "snd ?run ''/img/noble.img'' \<noteq> None" and
    "snd ?run \<noteq> (\<lambda>_. None) \<longrightarrow> snd ?run ''/img/noble.tmp'' = None" unfolding w by blast+
  then show ?thesis using run by (metis)
qed

text \<open>C34: a failed customisation is not retried: if \<open>virt-customize\<close> fails on a freshly downloaded
  image, the run raises, but the uncustomised image stays in place, so running again with
  the same arguments finds it, does nothing and reports success.\<close>

theorem failed_customisation_is_skipped:
  assumes "s out = None" and "with_suffix out ''.tmp'' \<noteq> out"
    and "published env (sha256 env c)" and "get_file env (BASE_URL @ ''/'' @ IMAGE_FILENAME) = Complete c"
    and "have_virt_customize env"
    and "\<forall>cmd files. \<exists>rc err. rc \<noteq> 0 \<and> run_tool env cmd files = ((rc, err), files)"
  shows "\<exists>rc err t. prepare_cli env out True False s = (Inr 1, t)
    \<and> prepare env out True False s = (Inl (VirtCustomizeError out rc err), t)
    \<and> t out = Some c
    \<and> prepare env out True False t = (Inr out, t) \<and> prepare_cli env out True False t = (Inr 0, t)"
proof -
  note named [simp] = with_suffix_named [OF assms(2)]
  let ?tmp = "with_suffix out ''.tmp''"
  let ?t = "(s(out \<mapsto> c))(?tmp := None)"
  obtain sums where sums: "get_text env (BASE_URL @ ''/'' @ SHASUMS_FILENAME) = Inr sums"
      "extract_sha256 sums IMAGE_FILENAME = Inr (sha256 env c)"
    using assms(3) by (auto simp: published_def)
  have d: "cleanup_on_error ?tmp (download_verified env (sha256 env c) ?tmp out) s = (Inr (), ?t)"
    using assms(2,4)
    by (simp add: cleanup_on_error_def download_verified_def abind_def fetch_file_def Let_def
        sha256_of_def rename_def fun_upd_twist)
  obtain rc err where v: "run_virt_customize env out ?t = (Inl (VirtCustomizeError out rc err), ?t)"
  proof -
    obtain rc1 err1 where 1: "rc1 \<noteq> 0" "run_tool env (customize_cmd env out) ?t = ((rc1, err1), ?t)"
      using assms(6) by blast
    obtain rc2 err2 where 2: "rc2 \<noteq> 0"
        "run_tool env (without_install (customize_cmd env out)) ?t = ((rc2, err2), ?t)"
      using assms(6) by blast
    show thesis using that 1 2 assms(5) by (simp add: run_virt_customize_def Let_def)
  qed
  have p: "prepare env out True False s = (Inl (VirtCustomizeError out rc err), ?t)"
    using assms(1) sums d v by (simp add: prepare_def fetch_text_def abind_def Let_def)
  moreover have "?t out = Some c" using assms(2) by simp
  ultimately show ?thesis
    by (intro exI [of _ rc] exI [of _ err] exI [of _ ?t])
       (simp add: prepare_cli_def is_image_prep_error_def, simp add: prepare_def)
qed

theorem failed_customisation_is_skipped_witness:
  "\<exists>t. prepare_cli sample_mirror ''/img/noble.img'' True False (\<lambda>_. None) = (Inr 1, t)
     \<and> prepare_cli sample_mirror ''/img/noble.img'' True False t = (Inr 0, t)"
proof -
  have w: "with_suffix ''/img/noble.img'' ''.tmp'' \<noteq> ''/img/noble.img''" by code_simp
  have x: "extract_sha256 (''aa  '' @ IMAGE_FILENAME) IMAGE_FILENAME = Inr ''aa''" by code_simp
  have p: "published sample_mirror (sha256 sample_mirror [1])"
    using x by (simp add: published_def sample_mirror_def)
  have f: "get_file sample_mirror (BASE_URL @ ''/'' @ IMAGE_FILENAME) = Complete [1]"
    "have_virt_customize sample_mirror"
    "\<forall>cmd files. \<exists>rc err. rc \<noteq> 0 \<and> run_tool sample_mirror cmd files = ((rc, err), files)"
    by (auto simp: sample_mirror_def)
  show ?thesis
    using failed_customisation_is_skipped [where s = "\<lambda>_. None", OF _ w p f] by auto
qed

end
