(* ===== verification/Populate.thy ===== *)
theory Populate
  imports Pyval
begin

text \<open>
  The fixture loader (fixtures/netbox/populate.py): it brings a Netbox to the state a list of
  host fixtures describes, creating what is absent. The server is a parameter: it answers a
  query of an endpoint with a record or nothing, creates a record from a payload, and patches
  a record. A record is the list of its attributes; nested records are dicts with an \<open>id\<close>.
  The local records of a fixture's interfaces are Python objects that \<open>update\<close> changes in
  place, so they are threaded as a map from names. Logging is left out.
\<close>

section \<open>Fixtures\<close>

record device_type_spec =
  dt_manufacturer :: string
  dt_model :: string
  dt_slug :: string
  dt_u_height :: int

record vlan_spec =
  vs_vid :: int
  vs_name :: string

record interface_spec =
  if_name :: string
  if_type :: string
  if_mac :: "string option"
  if_mtu :: "int option"
  if_parent :: "string option"
  if_lag_members :: "string list"
  if_untagged_vlan :: "int option"
  if_ip :: "string option"
  if_custom_fields :: pydict

record host_fixture =
  fx_asset_tag :: string
  fx_hostname :: string
  fx_device_role :: string
  fx_site :: string
  fx_device_type :: device_type_spec
  fx_vlans :: "vlan_spec list"
  fx_interfaces :: "interface_spec list"
  fx_custom_fields :: pydict

text \<open>\<open>if spec.mac\<close> for an optional string: present and not empty\<close>

definition given :: "string option \<Rightarrow> bool" where
  "given s \<longleftrightarrow> (case s of None \<Rightarrow> False | Some t \<Rightarrow> t \<noteq> '''')"


section \<open>Loading a fixture file\<close>

text \<open>
  \<open>load_fixture\<close>. Reading the file and parsing YAML are the library's: each gives its result,
  the error the code's \<open>except\<close> clause names, or another exception. The dataclasses do not
  check the types of their fields, so a loaded fixture holds the values as they were parsed.
\<close>

datatype lib_error = Declared string | Undeclared exn

record raw_fixture =
  raw_asset_tag :: string
  raw_hostname :: string
  raw_device_role :: string
  raw_site :: string
  raw_device_type :: pydict
  raw_vlans :: "pydict list"
  raw_interfaces :: "pydict list"
  raw_custom_fields :: "(pyval \<times> pyval) list"

text \<open>\<open>data[key]\<close>\<close>

definition required_key :: "pydict \<Rightarrow> string \<Rightarrow> exn + pyval" where
  "required_key d key = (case map_of d key of None \<Rightarrow> Inl (KeyError key) | Some v \<Rightarrow> Inr v)"

text \<open>\<open>'a'\<close>, \<open>'a' and 'b'\<close>, \<open>'a', 'b', and 'c'\<close>\<close>

definition name_list :: "string list \<Rightarrow> string" where
  "name_list names = (case map repr_str names of
      [] \<Rightarrow> ''''
    | [a] \<Rightarrow> a
    | [a, b] \<Rightarrow> a @ '' and '' @ b
    | qs \<Rightarrow> join_str '', '' (butlast qs) @ '', and '' @ last qs)"

text \<open>\<open>Cls(**v)\<close> for a dataclass with the given required fields and defaults\<close>

definition construct ::
  "string \<Rightarrow> string list \<Rightarrow> (string \<times> pyval) list \<Rightarrow> pyval \<Rightarrow> exn + pydict" where
  "construct cls required optional v = (case v of
      PyDict d \<Rightarrow>
        (case find (\<lambda>k. k \<notin> set required \<and> k \<notin> fst ` set optional) (map fst d) of
           Some k \<Rightarrow> Inl (TypeError (cls @ ''.__init__() got an unexpected keyword argument '' @ repr_str k))
         | None \<Rightarrow>
             let missing = filter (\<lambda>k. k \<notin> fst ` set d) required
             in if missing \<noteq> []
                then Inl (TypeError (cls @ ''.__init__() missing '' @ str_nat (length missing)
                  @ '' required positional argument'' @ (if length missing = 1 then '''' else ''s'')
                  @ '': '' @ name_list missing))
                else Inr (map (\<lambda>k. (k, dict_get d k)) required
                       @ map (\<lambda>(k, dflt). (k, get_default d k dflt)) optional))
    | _ \<Rightarrow> Inl (TypeError (''fixtures.netbox.populate.'' @ cls
             @ ''() argument after ** must be a mapping, not '' @ py_type v)))"

definition construct_device_type :: "pyval \<Rightarrow> exn + pydict" where
  "construct_device_type =
     construct ''DeviceTypeSpec'' [''manufacturer'', ''model'', ''slug'', ''u_height''] []"

definition construct_vlan :: "pyval \<Rightarrow> exn + pydict" where
  "construct_vlan = construct ''VlanSpec'' [''vid'', ''name''] []"

definition construct_interface :: "pyval \<Rightarrow> exn + pydict" where
  "construct_interface = construct ''InterfaceSpec'' [''name'', ''type'']
     [(''mac'', PyNone), (''mtu'', PyNone), (''parent'', PyNone), (''lag_members'', PyList []),
      (''untagged_vlan'', PyNone), (''ip'', PyNone), (''custom_fields'', PyDict [])]"

text \<open>\<open>dict(v or {})\<close>: a mapping, or pairs with hashable keys, the last value of a key winning\<close>

fun dict_put :: "pyval \<Rightarrow> pyval \<Rightarrow> (pyval \<times> pyval) list \<Rightarrow> (pyval \<times> pyval) list" where
  "dict_put k v [] = [(k, v)]"
| "dict_put k v ((k', v') # d) = (if py_eq k' k then (k', v) # d else (k', v') # dict_put k v d)"

definition hashable :: "pyval \<Rightarrow> bool" where
  "hashable v = (case v of PyList _ \<Rightarrow> False | PyDict _ \<Rightarrow> False | _ \<Rightarrow> True)"

fun dict_from_pairs :: "nat \<Rightarrow> pyval list \<Rightarrow> (pyval \<times> pyval) list \<Rightarrow> exn + (pyval \<times> pyval) list" where
  "dict_from_pairs i [] d = Inr d"
| "dict_from_pairs i (x # xs) d = (case py_iter x of
      Inl _ \<Rightarrow> Inl (TypeError (''cannot convert dictionary update sequence element #'' @ str_nat i
                 @ '' to a sequence''))
    | Inr [k, v] \<Rightarrow>
        if hashable k then dict_from_pairs (Suc i) xs (dict_put k v d)
        else Inl (TypeError (''unhashable type: '' @ repr_str (py_type k)))
    | Inr ys \<Rightarrow> Inl (ValueError (''dictionary update sequence element #'' @ str_nat i @ '' has length ''
                 @ str_nat (length ys) @ ''; 2 is required'')))"

definition dict_or_empty :: "pyval \<Rightarrow> exn + (pyval \<times> pyval) list" where
  "dict_or_empty v =
     (if \<not> py_truthy v then Inr []
      else case v of
        PyDict d \<Rightarrow> Inr (map (\<lambda>(k, w). (PyStr k, w)) d)
      | _ \<Rightarrow> rbind (py_iter v) (\<lambda>xs. dict_from_pairs 0 xs []))"

definition fixture_of :: "pydict \<Rightarrow> exn + raw_fixture" where
  "fixture_of data =
     rbind (required_key data ''asset_tag'') (\<lambda>tag.
     rbind (required_key data ''hostname'') (\<lambda>host.
     rbind (required_key data ''device_role'') (\<lambda>r.
     rbind (required_key data ''site'') (\<lambda>site.
     rbind (rbind (required_key data ''device_type'') construct_device_type) (\<lambda>dt.
     rbind (rbind (py_iter (get_default data ''vlans'' (PyList []))) (rmap construct_vlan)) (\<lambda>vs.
     rbind (rbind (rbind (required_key data ''interfaces'') py_iter) (rmap construct_interface)) (\<lambda>ifs.
     rbind (dict_or_empty (dict_get data ''device_custom_fields'')) (\<lambda>custom.
     Inr \<lparr>raw_asset_tag = py_str tag, raw_hostname = py_str host, raw_device_role = py_str r,
          raw_site = py_str site, raw_device_type = dt, raw_vlans = vs, raw_interfaces = ifs,
          raw_custom_fields = custom\<rparr>))))))))"

definition load_fixture ::
  "(string \<Rightarrow> lib_error + string) \<Rightarrow> (string \<Rightarrow> lib_error + pyval) \<Rightarrow> string \<Rightarrow> exn + raw_fixture" where
  "load_fixture read_text safe_load path =
     (case read_text path of
        Inl (Undeclared e) \<Rightarrow> Inl e
      | Inl (Declared m) \<Rightarrow> Inl (FixtureLoadError path (''cannot read file: '' @ m))
      | Inr content \<Rightarrow> (case safe_load content of
          Inl (Undeclared e) \<Rightarrow> Inl e
        | Inl (Declared m) \<Rightarrow> Inl (FixtureLoadError path (''YAML parse error: '' @ m))
        | Inr (PyDict data) \<Rightarrow> (case fixture_of data of
            Inr fx \<Rightarrow> Inr fx
          | Inl (KeyError k) \<Rightarrow> Inl (FixtureLoadError path (''missing required key: '' @ repr_str k))
          | Inl (TypeError m) \<Rightarrow> Inl (FixtureLoadError path (''invalid field shape: '' @ m))
          | Inl (ValueError m) \<Rightarrow> Inl (FixtureLoadError path (''invalid field shape: '' @ m))
          | Inl e \<Rightarrow> Inl e)
        | Inr v \<Rightarrow> Inl (FixtureLoadError path
            (''top-level value must be a mapping, got '' @ py_type v))))"


section \<open>Report\<close>

record populate_report =
  pop_created :: "(string \<times> nat) list"
  pop_skipped :: "(string \<times> nat) list"

definition empty_populate_report :: populate_report where
  "empty_populate_report = \<lparr>pop_created = [], pop_skipped = []\<rparr>"

definition add_created :: "string \<Rightarrow> populate_report \<Rightarrow> populate_report" where
  "add_created kind rep = rep\<lparr>pop_created := counter_add kind (pop_created rep)\<rparr>"

definition add_skipped :: "string \<Rightarrow> populate_report \<Rightarrow> populate_report" where
  "add_skipped kind rep = rep\<lparr>pop_skipped := counter_add kind (pop_skipped rep)\<rparr>"

definition populate_no_op :: "populate_report \<Rightarrow> bool" where
  "populate_no_op rep \<longleftrightarrow> list_all (\<lambda>(_, n). n = 0) (pop_created rep)"

definition populate_summary :: "populate_report \<Rightarrow> string" where
  "populate_summary rep =
     (let shown = join_str '', '' (map (\<lambda>(k, n). k @ ''='' @ str_nat n) (sort_key fst (pop_created rep)));
          made = (if shown = '''' then ''0'' else shown);
          skipped_total = sum_list (map snd (pop_skipped rep))
      in ''created: ['' @ made @ '']; skipped: '' @ str_nat skipped_total)"


section \<open>The server and the state of a run\<close>

datatype endpoint = Sites | Manufacturers | DeviceTypes | DeviceRoles | Vlans | Devices
  | Interfaces | MacAddresses | IpAddresses

record 's netbox_api =
  api_get :: "endpoint \<Rightarrow> pydict \<Rightarrow> ('s, exn, pydict option) act"
  api_create :: "endpoint \<Rightarrow> pydict \<Rightarrow> ('s, exn, pydict) act"
  api_update :: "pydict \<Rightarrow> pydict \<Rightarrow> ('s, exn, pydict) act"

record 's pop_state =
  pop_server :: 's
  pop_report :: populate_report

definition on_server :: "('s, exn, 'a) act \<Rightarrow> ('s pop_state, exn, 'a) act" where
  "on_server m st = (case m (pop_server st) of (r, s) \<Rightarrow> (r, st\<lparr>pop_server := s\<rparr>))"

definition note_created :: "string \<Rightarrow> ('s pop_state, exn, unit) act" where
  "note_created kind = amodify (\<lambda>st. st\<lparr>pop_report := add_created kind (pop_report st)\<rparr>)"

definition note_skipped :: "string \<Rightarrow> ('s pop_state, exn, unit) act" where
  "note_skipped kind = amodify (\<lambda>st. st\<lparr>pop_report := add_skipped kind (pop_report st)\<rparr>)"

text \<open>\<open>record.name\<close> and \<open>getattr(record, name, None)\<close>\<close>

definition attr :: "pydict \<Rightarrow> string \<Rightarrow> exn + pyval" where
  "attr r name = (case map_of r name of
      None \<Rightarrow> Inl (ExternalError (''AttributeError: '' @ name)) | Some v \<Rightarrow> Inr v)"

text \<open>\<open>getattr(v, 'id', None) if v else None\<close>\<close>

definition nested_id :: "pyval \<Rightarrow> pyval" where
  "nested_id v = (if py_truthy v then (case v of PyDict d \<Rightarrow> dict_get d ''id'' | _ \<Rightarrow> PyNone) else PyNone)"

text \<open>
  The shape all \<open>_ensure_*\<close> helpers share: look the object up; reuse it if it is there and
  \<open>check\<close> finds no conflict, create it from the payload otherwise.
\<close>

definition ensure ::
  "'s netbox_api \<Rightarrow> string \<Rightarrow> endpoint \<Rightarrow> pydict \<Rightarrow> (pydict \<Rightarrow> exn + unit) \<Rightarrow> exn + pydict
   \<Rightarrow> ('s pop_state, exn, pydict) act" where
  "ensure api kind e query check payload =
     abind (on_server (api_get api e query)) (\<lambda>existing.
     case existing of
       Some r \<Rightarrow>
         abind (alift (check r)) (\<lambda>_.
         abind (note_skipped kind) (\<lambda>_.
         aret r))
     | None \<Rightarrow>
         abind (alift payload) (\<lambda>p.
         abind (on_server (api_create api e p)) (\<lambda>obj.
         abind (note_created kind) (\<lambda>_.
         aret obj))))"

definition no_check :: "pydict \<Rightarrow> exn + unit" where
  "no_check r = Inr ()"


section \<open>Objects\<close>

definition slugify :: "string \<Rightarrow> string" where
  "slugify name =
     map (\<lambda>c. if c = CHR ''_'' then CHR ''-'' else c)
       (map (\<lambda>c. if c = CHR '' '' then CHR ''-'' else c) (py_strip (py_lower name)))"

definition ensure_site :: "'s netbox_api \<Rightarrow> string \<Rightarrow> ('s pop_state, exn, pydict) act" where
  "ensure_site api slug = ensure api ''site'' Sites [(''slug'', PyStr slug)] no_check
     (Inr [(''name'', PyStr slug), (''slug'', PyStr slug)])"

definition ensure_manufacturer :: "'s netbox_api \<Rightarrow> string \<Rightarrow> ('s pop_state, exn, pydict) act" where
  "ensure_manufacturer api name =
     (let slug = slugify name
      in ensure api ''manufacturer'' Manufacturers [(''slug'', PyStr slug)] no_check
           (Inr [(''name'', PyStr name), (''slug'', PyStr slug)]))"

definition check_u_height :: "device_type_spec \<Rightarrow> pydict \<Rightarrow> exn + unit" where
  "check_u_height spec existing =
     (let observed_height = dict_get existing ''u_height''
      in if \<not> (observed_height = PyNone \<or> py_eq observed_height (PyInt (dt_u_height spec)))
         then Inl (FixtureConflictError ''device_type'' (dt_slug spec)
           (''u_height: expected '' @ str_int (dt_u_height spec) @ '', observed '' @ py_str observed_height))
         else Inr ())"

definition ensure_device_type ::
  "'s netbox_api \<Rightarrow> device_type_spec \<Rightarrow> pydict \<Rightarrow> ('s pop_state, exn, pydict) act" where
  "ensure_device_type api spec manufacturer =
     ensure api ''device_type'' DeviceTypes [(''slug'', PyStr (dt_slug spec))] (check_u_height spec)
       (rbind (attr manufacturer ''id'') (\<lambda>mid.
        Inr [(''manufacturer'', mid), (''model'', PyStr (dt_model spec)),
             (''slug'', PyStr (dt_slug spec)), (''u_height'', PyInt (dt_u_height spec))]))"

definition ensure_device_role :: "'s netbox_api \<Rightarrow> string \<Rightarrow> ('s pop_state, exn, pydict) act" where
  "ensure_device_role api slug = ensure api ''device_role'' DeviceRoles [(''slug'', PyStr slug)] no_check
     (Inr [(''name'', PyStr slug), (''slug'', PyStr slug)])"

text \<open>\<open>existing.name != expected\<close>: the conflict of a VLAN or device known under another name\<close>

definition check_name :: "string \<Rightarrow> string \<Rightarrow> string \<Rightarrow> pydict \<Rightarrow> exn + unit" where
  "check_name kind identifier expected existing =
     rbind (attr existing ''name'') (\<lambda>name.
     if \<not> py_eq name (PyStr expected)
     then Inl (FixtureConflictError kind identifier
       (''name: expected '' @ repr_str expected @ '', observed '' @ py_repr name))
     else Inr ())"

definition ensure_vlan ::
  "'s netbox_api \<Rightarrow> vlan_spec \<Rightarrow> pydict \<Rightarrow> ('s pop_state, exn, pydict) act" where
  "ensure_vlan api spec site =
     abind (alift (attr site ''id'')) (\<lambda>sid.
     ensure api ''vlan'' Vlans [(''vid'', PyInt (vs_vid spec)), (''site_id'', sid)]
       (check_name ''vlan'' (''vid='' @ str_int (vs_vid spec)) (vs_name spec))
       (Inr [(''vid'', PyInt (vs_vid spec)), (''name'', PyStr (vs_name spec)), (''site'', sid)]))"

definition device_payload :: "host_fixture \<Rightarrow> pydict \<Rightarrow> pydict \<Rightarrow> pydict \<Rightarrow> exn + pydict" where
  "device_payload fx site device_type device_role =
     rbind (attr site ''id'') (\<lambda>sid.
     rbind (attr device_type ''id'') (\<lambda>tid.
     rbind (attr device_role ''id'') (\<lambda>rid.
     Inr ([(''name'', PyStr (fx_hostname fx)), (''asset_tag'', PyStr (fx_asset_tag fx)),
           (''site'', sid), (''device_type'', tid), (''role'', rid), (''status'', PyStr ''active'')] @
          (if fx_custom_fields fx = [] then [] else [(''custom_fields'', PyDict (fx_custom_fields fx))])))))"

definition ensure_device ::
  "'s netbox_api \<Rightarrow> host_fixture \<Rightarrow> pydict \<Rightarrow> pydict \<Rightarrow> pydict \<Rightarrow> ('s pop_state, exn, pydict) act" where
  "ensure_device api fx site device_type device_role =
     ensure api ''device'' Devices [(''asset_tag'', PyStr (fx_asset_tag fx))]
       (check_name ''device'' (fx_asset_tag fx) (fx_hostname fx))
       (device_payload fx site device_type device_role)"

definition interface_payload ::
  "interface_spec \<Rightarrow> pyval \<Rightarrow> (int \<Rightarrow> pydict option) \<Rightarrow> exn + pydict" where
  "interface_payload spec did vlan_by_vid =
     (let base = [(''device'', did), (''name'', PyStr (if_name spec)), (''type'', PyStr (if_type spec))];
          mtu = (case if_mtu spec of None \<Rightarrow> [] | Some m \<Rightarrow> if m = 0 then [] else [(''mtu'', PyInt m)]);
          custom = (if if_custom_fields spec = [] then []
                    else [(''custom_fields'', PyDict (if_custom_fields spec))])
      in rbind (case if_untagged_vlan spec of
                  None \<Rightarrow> Inr []
                | Some v \<Rightarrow>
                    if v = 0 then Inr []
                    else (case vlan_by_vid v of
                        None \<Rightarrow> Inr []
                      | Some vlan \<Rightarrow> rbind (attr vlan ''id'') (\<lambda>vid.
                          Inr [(''mode'', PyStr ''access''), (''untagged_vlan'', vid)]))) (\<lambda>access.
         Inr (base @ mtu @ access @ custom)))"

definition ensure_interface ::
  "'s netbox_api \<Rightarrow> interface_spec \<Rightarrow> pydict \<Rightarrow> (int \<Rightarrow> pydict option) \<Rightarrow> ('s pop_state, exn, pydict) act" where
  "ensure_interface api spec device vlan_by_vid =
     abind (alift (attr device ''id'')) (\<lambda>did.
     ensure api ''interface'' Interfaces [(''device_id'', did), (''name'', PyStr (if_name spec))] no_check
       (interface_payload spec did vlan_by_vid))"


section \<open>Relationships, MAC and IP addresses\<close>

type_synonym iface_map = "string \<Rightarrow> pydict option"

text \<open>\<open>iface_by_name[name]\<close>\<close>

definition local_iface :: "iface_map \<Rightarrow> string \<Rightarrow> exn + pydict" where
  "local_iface ifaces name = (case ifaces name of None \<Rightarrow> Inl (KeyError name) | Some r \<Rightarrow> Inr r)"

text \<open>
  \<open>update\<close> of a reference attribute of the interface \<open>name\<close> to \<open>target\<close>, unless it is that already.
\<close>

definition point_to ::
  "'s netbox_api \<Rightarrow> string \<Rightarrow> string \<Rightarrow> string \<Rightarrow> pyval \<Rightarrow> iface_map \<Rightarrow> ('s pop_state, exn, iface_map) act" where
  "point_to api kind name attribute target ifaces =
     abind (alift (local_iface ifaces name)) (\<lambda>r.
     abind (alift (attr r attribute)) (\<lambda>current.
     if \<not> py_eq (nested_id current) target
     then abind (on_server (api_update api r [(attribute, target)])) (\<lambda>r'.
          abind (note_created kind) (\<lambda>_.
          aret (ifaces(name := Some r'))))
     else abind (note_skipped kind) (\<lambda>_. aret ifaces)))"

text \<open>\<open>for x in xs: acc = f(x, acc)\<close>\<close>

primrec afold :: "('a \<Rightarrow> 'b \<Rightarrow> ('s, 'e, 'b) act) \<Rightarrow> 'a list \<Rightarrow> 'b \<Rightarrow> ('s, 'e, 'b) act" where
  "afold f [] acc = aret acc"
| "afold f (x # xs) acc = abind (f x acc) (\<lambda>acc'. afold f xs acc')"

definition wire_member ::
  "'s netbox_api \<Rightarrow> interface_spec \<Rightarrow> string \<Rightarrow> iface_map \<Rightarrow> ('s pop_state, exn, iface_map) act" where
  "wire_member api spec member_name ifaces =
     abind (alift (rbind (local_iface ifaces (if_name spec)) (\<lambda>lag. attr lag ''id''))) (\<lambda>lag_id.
     point_to api ''lag_membership'' member_name ''lag'' lag_id ifaces)"

definition wire_parent ::
  "'s netbox_api \<Rightarrow> interface_spec \<Rightarrow> iface_map \<Rightarrow> ('s pop_state, exn, iface_map) act" where
  "wire_parent api spec ifaces =
     (if given (if_parent spec)
      then abind (alift (rbind (local_iface ifaces (the (if_parent spec))) (\<lambda>p. attr p ''id''))) (\<lambda>parent_id.
           point_to api ''interface_parent'' (if_name spec) ''parent'' parent_id ifaces)
      else aret ifaces)"

definition wire_relationships ::
  "'s netbox_api \<Rightarrow> interface_spec \<Rightarrow> iface_map \<Rightarrow> ('s pop_state, exn, iface_map) act" where
  "wire_relationships api spec ifaces =
     abind (afold (wire_member api spec) (if_lag_members spec) ifaces) (\<lambda>ifaces'.
     wire_parent api spec ifaces')"

text \<open>A record of an interface that Netbox returned has an id; it is read once, before the look-up.\<close>

definition check_mac_owner :: "string \<Rightarrow> pyval \<Rightarrow> pydict \<Rightarrow> exn + unit" where
  "check_mac_owner mac iface_id existing =
     (let assigned_id = dict_get existing ''assigned_object_id''
      in if py_truthy assigned_id \<and> \<not> py_eq assigned_id iface_id
         then Inl (FixtureConflictError ''mac_address'' mac
           (''assigned to interface_id='' @ py_str assigned_id @ '', expected '' @ py_str iface_id))
         else Inr ())"

definition assignment :: "string \<Rightarrow> string \<Rightarrow> pyval \<Rightarrow> pydict" where
  "assignment key value iface_id =
     [(key, PyStr value), (''assigned_object_type'', PyStr ''dcim.interface''),
      (''assigned_object_id'', iface_id)]"

definition ensure_mac_address ::
  "'s netbox_api \<Rightarrow> interface_spec \<Rightarrow> iface_map \<Rightarrow> ('s pop_state, exn, iface_map) act" where
  "ensure_mac_address api spec ifaces =
     (if given (if_mac spec)
      then let mac = the (if_mac spec) in
        abind (alift (rbind (local_iface ifaces (if_name spec)) (\<lambda>r. attr r ''id''))) (\<lambda>iface_id.
        abind (ensure api ''mac_address'' MacAddresses [(''mac_address'', PyStr mac)]
                 (check_mac_owner mac iface_id) (Inr (assignment ''mac_address'' mac iface_id))) (\<lambda>mac_obj.
        abind (alift (attr mac_obj ''id'')) (\<lambda>mac_id.
        point_to api ''primary_mac_assignment'' (if_name spec) ''primary_mac_address'' mac_id ifaces)))
      else aret ifaces)"

definition check_ip_owner :: "string \<Rightarrow> pyval \<Rightarrow> pydict \<Rightarrow> exn + unit" where
  "check_ip_owner ip iface_id existing =
     (let existing_iface = dict_get existing ''assigned_object_id''
      in if \<not> py_eq existing_iface iface_id
         then Inl (FixtureConflictError ''ip_address'' ip
           (''assigned to interface_id='' @ py_str existing_iface @ '', expected '' @ py_str iface_id))
         else Inr ())"

definition ensure_ip_address ::
  "'s netbox_api \<Rightarrow> iface_map \<Rightarrow> interface_spec \<Rightarrow> ('s pop_state, exn, unit) act" where
  "ensure_ip_address api ifaces spec =
     (if given (if_ip spec)
      then let ip = the (if_ip spec) in
        abind (alift (rbind (local_iface ifaces (if_name spec)) (\<lambda>r. attr r ''id''))) (\<lambda>iface_id.
        abind (ensure api ''ip_address'' IpAddresses [(''address'', PyStr ip)]
                 (check_ip_owner ip iface_id) (Inr (assignment ''address'' ip iface_id))) (\<lambda>_.
        aret ()))
      else aret ())"


section \<open>One fixture, all fixtures\<close>

definition put_vlan ::
  "'s netbox_api \<Rightarrow> pydict \<Rightarrow> vlan_spec \<Rightarrow> (int \<Rightarrow> pydict option)
   \<Rightarrow> ('s pop_state, exn, int \<Rightarrow> pydict option) act" where
  "put_vlan api site v vlans =
     abind (ensure_vlan api v site) (\<lambda>r. aret (vlans(vs_vid v := Some r)))"

definition put_interface ::
  "'s netbox_api \<Rightarrow> pydict \<Rightarrow> (int \<Rightarrow> pydict option) \<Rightarrow> interface_spec \<Rightarrow> iface_map
   \<Rightarrow> ('s pop_state, exn, iface_map) act" where
  "put_interface api device vlan_by_vid spec ifaces =
     abind (ensure_interface api spec device vlan_by_vid) (\<lambda>r. aret (ifaces(if_name spec := Some r)))"

definition apply_objects :: "'s netbox_api \<Rightarrow> host_fixture \<Rightarrow> ('s pop_state, exn, pydict \<times> (int \<Rightarrow> pydict option)) act" where
  "apply_objects api fx =
     abind (ensure_site api (fx_site fx)) (\<lambda>site.
     abind (ensure_manufacturer api (dt_manufacturer (fx_device_type fx))) (\<lambda>manufacturer.
     abind (ensure_device_type api (fx_device_type fx) manufacturer) (\<lambda>device_type.
     abind (ensure_device_role api (fx_device_role fx)) (\<lambda>device_role.
     abind (afold (put_vlan api site) (fx_vlans fx) (\<lambda>_. None)) (\<lambda>vlan_by_vid.
     abind (ensure_device api fx site device_type device_role) (\<lambda>device.
     aret (device, vlan_by_vid)))))))"

definition apply_interfaces ::
  "'s netbox_api \<Rightarrow> interface_spec list \<Rightarrow> pydict \<Rightarrow> (int \<Rightarrow> pydict option) \<Rightarrow> ('s pop_state, exn, unit) act" where
  "apply_interfaces api specs device vlan_by_vid =
     abind (afold (put_interface api device vlan_by_vid) specs (\<lambda>_. None)) (\<lambda>pass1.
     abind (afold (wire_relationships api) specs pass1) (\<lambda>pass2.
     abind (afold (ensure_mac_address api) specs pass2) (\<lambda>pass3.
     aiter (ensure_ip_address api pass3) specs)))"

definition apply_one :: "'s netbox_api \<Rightarrow> host_fixture \<Rightarrow> ('s pop_state, exn, unit) act" where
  "apply_one api fx =
     abind (apply_objects api fx) (\<lambda>(device, vlan_by_vid).
     apply_interfaces api (fx_interfaces fx) device vlan_by_vid)"

definition populate :: "'s netbox_api \<Rightarrow> host_fixture list \<Rightarrow> ('s, exn, populate_report) act" where
  "populate api fixtures s =
     (case aiter (apply_one api) fixtures \<lparr>pop_server = s, pop_report = empty_populate_report\<rparr> of
        (Inl e, st) \<Rightarrow> (Inl e, pop_server st)
      | (Inr _, st) \<Rightarrow> (Inr (pop_report st), pop_server st))"


section \<open>Command line\<close>

text \<open>
  \<open>main\<close> after argument parsing: what pynetbox connects to under a URL and a token, the URL and
  the token given on the command line, what reading the token file gives if it exists, the
  fixture paths found and what loading each of them gives. \<open>Inl\<close> is an exception that leaves
  the program.
\<close>

definition read_token :: "(exn + string) \<Rightarrow> exn + string" where
  "read_token content = rbind content (\<lambda>text. Inr (py_strip text))"

definition populate_main ::
  "(string \<Rightarrow> string \<Rightarrow> 's netbox_api) \<Rightarrow> (string \<Rightarrow> exn + host_fixture) \<Rightarrow> string \<Rightarrow> string option
   \<Rightarrow> (exn + string) option \<Rightarrow> string list \<Rightarrow> ('s, exn, int \<times> string option) act" where
  "populate_main connect load url token token_file yaml_paths s =
     (if \<not> given token \<and> token_file = None then (Inr (1, None), s)
      else case (if given token then Inr (the token) else read_token (the token_file)) of
        Inl e \<Rightarrow> (Inl e, s)
      | Inr token' \<Rightarrow>
          if yaml_paths = [] then (Inr (1, None), s)
          else (case rmap load (sort yaml_paths) of
              Inl e \<Rightarrow> (Inl e, s)
            | Inr fixtures \<Rightarrow> (case populate (connect url token') fixtures s of
                (Inl e, t) \<Rightarrow>
                  (if is_a e ''FixtureConflictError'' \<or> is_a e ''FixtureLoadError''
                   then Inr (1, None) else Inl e, t)
              | (Inr rep, t) \<Rightarrow> (Inr (0, Some (populate_summary rep)), t))))"

end
