(* ===== verification/Populate_Again.thy ===== *)
theory Populate_Again
  imports Populate
begin

text \<open>
  Running the fixture loader twice. What the loader relies on of Netbox is \<open>serves_netbox\<close>,
  stated over \<open>stored\<close>, the answer a server state gives to a query: queries do not change the
  server, a created object is found under its natural key and reads back as posted, creating
  changes no other object, a patch changes one attribute of one interface, and ids identify
  devices and interfaces. The lemmas follow the passes of the code: each step puts its part
  of the fixture in place, later steps keep it there, and a run that finds a fixture in place
  only skips.
\<close>

section \<open>Server\<close>

definition rid :: "pydict \<Rightarrow> int" where
  "rid r = (case map_of r ''id'' of Some (PyInt n) \<Rightarrow> n | _ \<Rightarrow> 0)"

definition ref :: "string \<Rightarrow> pydict \<Rightarrow> pyval" where
  "ref a r = nested_id (dict_get r a)"

definition REFS :: "string list" where
  "REFS = [''lag'', ''parent'', ''primary_mac_address'']"

definition SCALARS :: "string list" where
  "SCALARS = [''name'', ''u_height'', ''assigned_object_id'']"

text \<open>A record has the attributes the loader reads: an id, a name, references of interfaces.\<close>

definition complete_record :: "endpoint \<Rightarrow> pydict \<Rightarrow> bool" where
  "complete_record e r \<longleftrightarrow> (\<exists>n > 0. map_of r ''id'' = Some (PyInt n))
     \<and> (e = Vlans \<or> e = Devices \<longrightarrow> map_of r ''name'' \<noteq> None)
     \<and> (e = Interfaces \<longrightarrow> (\<forall>a \<in> set REFS. map_of r a \<noteq> None \<and> (ref a r = PyNone \<or> (\<exists>n. ref a r = PyInt n))))"

definition query_of :: "endpoint \<Rightarrow> pydict \<Rightarrow> pydict" where
  "query_of e p = (case e of
      Vlans \<Rightarrow> [(''vid'', dict_get p ''vid''), (''site_id'', dict_get p ''site'')]
    | Devices \<Rightarrow> [(''asset_tag'', dict_get p ''asset_tag'')]
    | Interfaces \<Rightarrow> [(''device_id'', dict_get p ''device''), (''name'', dict_get p ''name'')]
    | MacAddresses \<Rightarrow> [(''mac_address'', dict_get p ''mac_address'')]
    | IpAddresses \<Rightarrow> [(''address'', dict_get p ''address'')]
    | _ \<Rightarrow> [(''slug'', dict_get p ''slug'')])"

definition core :: "pydict \<Rightarrow> pydict \<Rightarrow> bool" where
  "core x y \<longleftrightarrow> rid x = rid y \<and> (\<forall>k \<in> set SCALARS. dict_get x k = dict_get y k)"

text \<open>
  From \<open>s\<close> to \<open>t\<close> every object stays, and of the interfaces only the references that \<open>P\<close>
  allows may change.
\<close>

definition evolves ::
  "('s \<Rightarrow> endpoint \<Rightarrow> pydict \<Rightarrow> pydict option) \<Rightarrow> (pydict \<Rightarrow> string \<Rightarrow> bool) \<Rightarrow> 's \<Rightarrow> 's \<Rightarrow> bool" where
  "evolves stored P s t \<longleftrightarrow> (\<forall>e q x. stored s e q = Some x \<longrightarrow> (\<exists>y. stored t e q = Some y \<and> core x y
     \<and> (\<forall>a \<in> set REFS. \<not> (e = Interfaces \<and> P q a) \<longrightarrow> ref a x = ref a y)))"

definition creates :: "'s netbox_api \<Rightarrow> ('s \<Rightarrow> endpoint \<Rightarrow> pydict \<Rightarrow> pydict option) \<Rightarrow> bool" where
  "creates api stored \<longleftrightarrow> (\<forall>e p s r t. stored s e (query_of e p) = None \<longrightarrow> api_create api e p s = (Inr r, t) \<longrightarrow>
     evolves stored (\<lambda>_ _. False) s t \<and> complete_record e r
     \<and> (\<exists>x. stored t e (query_of e p) = Some x \<and> rid x = rid r \<and> (\<forall>a \<in> set REFS. ref a x = ref a r)
          \<and> (\<forall>k \<in> set SCALARS. map_of p k \<noteq> None \<longrightarrow> dict_get x k = dict_get p k)))"

definition updates :: "'s netbox_api \<Rightarrow> ('s \<Rightarrow> endpoint \<Rightarrow> pydict \<Rightarrow> pydict option) \<Rightarrow> bool" where
  "updates api stored \<longleftrightarrow> (\<forall>a \<in> set REFS. \<forall>r n s r' t. api_update api r [(a, PyInt n)] s = (Inr r', t) \<longrightarrow>
     complete_record Interfaces r' \<and> rid r' = rid r
     \<and> (\<forall>b \<in> set REFS. ref b r' = PyNone \<or> ref b r' = (if b = a then PyInt n else ref b r))
     \<and> evolves stored (\<lambda>q b. b = a \<and> (\<exists>x. stored s Interfaces q = Some x \<and> rid x = rid r)) s t
     \<and> (\<forall>q x. stored s Interfaces q = Some x \<and> rid x = rid r \<longrightarrow>
          (\<exists>y. stored t Interfaces q = Some y \<and> ref a y = PyInt n)))"

definition ids_identify :: "('s \<Rightarrow> endpoint \<Rightarrow> pydict \<Rightarrow> pydict option) \<Rightarrow> bool" where
  "ids_identify stored \<longleftrightarrow> (\<forall>s e q q' x y. (e = Devices \<or> e = Interfaces) \<longrightarrow>
     stored s e q = Some x \<longrightarrow> stored s e q' = Some y \<longrightarrow> rid x = rid y \<longrightarrow> q = q')"

definition serves_netbox :: "'s netbox_api \<Rightarrow> ('s \<Rightarrow> endpoint \<Rightarrow> pydict \<Rightarrow> pydict option) \<Rightarrow> bool" where
  "serves_netbox api stored \<longleftrightarrow>
     (\<forall>e q s. api_get api e q s = (Inr (stored s e q), s))
     \<and> (\<forall>e q s x. stored s e q = Some x \<longrightarrow> complete_record e x)
     \<and> ids_identify stored \<and> creates api stored \<and> updates api stored"

lemma serves_get: "serves_netbox api stored \<Longrightarrow> api_get api e q s = (Inr (stored s e q), s)"
  and serves_complete: "serves_netbox api stored \<Longrightarrow> stored s e q = Some x \<Longrightarrow> complete_record e x"
  by (simp_all add: serves_netbox_def)

lemma netbox_create:
  assumes "serves_netbox api stored" and "stored s e (query_of e p) = None"
    and "api_create api e p s = (Inr r, t)"
  shows "evolves stored (\<lambda>_ _. False) s t \<and> complete_record e r
    \<and> (\<exists>x. stored t e (query_of e p) = Some x \<and> rid x = rid r \<and> (\<forall>a \<in> set REFS. ref a x = ref a r)
         \<and> (\<forall>k \<in> set SCALARS. map_of p k \<noteq> None \<longrightarrow> dict_get x k = dict_get p k))"
proof -
  have "creates api stored" using assms(1) by (simp add: serves_netbox_def)
  from this [unfolded creates_def, rule_format, OF assms(2,3)] show ?thesis by simp
qed

lemma serves_update:
  assumes "serves_netbox api stored" and "a \<in> set REFS" and "api_update api r [(a, PyInt n)] s = (Inr r', t)"
  shows "complete_record Interfaces r' \<and> rid r' = rid r
    \<and> (\<forall>b \<in> set REFS. ref b r' = PyNone \<or> ref b r' = (if b = a then PyInt n else ref b r))
    \<and> evolves stored (\<lambda>q b. b = a \<and> (\<exists>x. stored s Interfaces q = Some x \<and> rid x = rid r)) s t
    \<and> (\<forall>q x. stored s Interfaces q = Some x \<and> rid x = rid r \<longrightarrow>
         (\<exists>y. stored t Interfaces q = Some y \<and> ref a y = PyInt n))"
proof -
  have "updates api stored" using assms(1) by (simp add: serves_netbox_def)
  from this [unfolded updates_def, rule_format, OF assms(2,3)] show ?thesis by blast
qed

lemma serves_ids:
  assumes "serves_netbox api stored" and "e = Devices \<or> e = Interfaces"
    and "stored s e q = Some x" and "stored s e q' = Some y" and "rid x = rid y"
  shows "q = q'"
proof -
  have "ids_identify stored" using assms(1) by (simp add: serves_netbox_def)
  from this [unfolded ids_identify_def, rule_format, OF assms(2-5)] show ?thesis .
qed

lemma complete_id: "complete_record e r \<Longrightarrow> attr r ''id'' = Inr (PyInt (rid r))"
  by (auto simp: complete_record_def attr_def rid_def)

lemma complete_ref: "complete_record Interfaces r \<Longrightarrow> a \<in> set REFS \<Longrightarrow> attr r a = Inr (dict_get r a)"
  by (auto simp: complete_record_def attr_def dict_get_def)

lemma complete_pos: "complete_record e r \<Longrightarrow> 0 < rid r"
  by (auto simp: complete_record_def rid_def)

lemma evolves_refl [simp]: "evolves stored P s s"
  by (auto simp: evolves_def core_def)

lemma evolves_get:
  assumes "evolves stored P s t" and "stored s e q = Some x"
  obtains y where "stored t e q = Some y" "core x y"
    "\<And>a. a \<in> set REFS \<Longrightarrow> \<not> (e = Interfaces \<and> P q a) \<Longrightarrow> ref a x = ref a y"
  using assms unfolding evolves_def by metis

lemma evolves_kept:
  assumes "evolves stored P s t" and "stored s e q = Some x"
  obtains y where "stored t e q = Some y" "core x y"
  using assms unfolding evolves_def by metis

lemma evolves_trans:
  assumes "evolves stored P s t" and "evolves stored P t u" shows "evolves stored P s u"
  unfolding evolves_def
proof (intro allI impI)
  fix e q x assume "stored s e q = Some x"
  then obtain y where y: "stored t e q = Some y" "core x y"
      "\<And>a. a \<in> set REFS \<Longrightarrow> \<not> (e = Interfaces \<and> P q a) \<Longrightarrow> ref a x = ref a y"
    using evolves_get [OF assms(1)] by blast
  obtain z where "stored u e q = Some z" "core y z"
      "\<And>a. a \<in> set REFS \<Longrightarrow> \<not> (e = Interfaces \<and> P q a) \<Longrightarrow> ref a y = ref a z"
    using evolves_get [OF assms(2), OF y(1)] by blast
  then show "\<exists>z. stored u e q = Some z \<and> core x z
      \<and> (\<forall>a \<in> set REFS. \<not> (e = Interfaces \<and> P q a) \<longrightarrow> ref a x = ref a z)"
    using y by (auto simp: core_def)
qed

lemma evolves_mono: "evolves stored P s t \<Longrightarrow> (\<And>q a. P q a \<Longrightarrow> Q q a) \<Longrightarrow> evolves stored Q s t"
  unfolding evolves_def by blast



section \<open>Loops\<close>

lemma afold_each:
  assumes "afold f xs acc s = (Inr acc', s')" and "I acc s"
    and step: "\<And>x acc s acc' s'. x \<in> set xs \<Longrightarrow> I acc s \<Longrightarrow> f x acc s = (Inr acc', s') \<Longrightarrow> I acc' s' \<and> F x s'"
    and keep: "\<And>x y acc s acc' s'. x \<in> set xs \<Longrightarrow> y \<in> set xs \<Longrightarrow> safe x y \<Longrightarrow> I acc s \<Longrightarrow> F x s \<Longrightarrow>
      f y acc s = (Inr acc', s') \<Longrightarrow> F x s'"
    and "sorted_wrt safe xs"
  shows "I acc' s' \<and> (\<forall>x \<in> set xs. F x s')"
proof -
  have kept: "F x s'" if "afold f ys acc s = (Inr acc', s')" "I acc s" "F x s" "x \<in> set xs"
    "set ys \<subseteq> set xs" "\<forall>y \<in> set ys. safe x y" for x ys acc s
    using that
  proof (induction ys arbitrary: acc s)
    case (Cons y ys)
    obtain a1 s1 where 1: "f y acc s = (Inr a1, s1)" "afold f ys a1 s1 = (Inr acc', s')"
      using Cons.prems(1) by (auto simp: abind_eq_Inr)
    have "F x s1" using keep [OF _ _ _ Cons.prems(2,3) 1(1)] Cons.prems(4-6) by simp
    moreover have "I a1 s1" using step [OF _ Cons.prems(2) 1(1)] Cons.prems(5) by simp
    ultimately show ?case using Cons.IH [OF 1(2)] Cons.prems(4-6) by simp
  qed simp
  have "I acc' s' \<and> (\<forall>x \<in> set ys. F x s')" if "afold f ys acc s = (Inr acc', s')" "I acc s"
    "set ys \<subseteq> set xs" "sorted_wrt safe ys" for ys acc s
    using that
  proof (induction ys arbitrary: acc s)
    case (Cons y ys)
    obtain a1 s1 where 1: "f y acc s = (Inr a1, s1)" "afold f ys a1 s1 = (Inr acc', s')"
      using Cons.prems(1) by (auto simp: abind_eq_Inr)
    have y: "I a1 s1" "F y s1" using step [OF _ Cons.prems(2) 1(1)] Cons.prems(3) by simp_all
    then show ?case using Cons.IH [OF 1(2) y(1)] kept [OF 1(2) y(1)] Cons.prems(3,4) by auto
  qed simp
  then show ?thesis using assms(1,2,5) by blast
qed

lemma aiter_afold: "aiter f xs = afold (\<lambda>x _. f x) xs ()"
  by (induction xs) auto

lemma distinct_sorted_wrt: "distinct xs = sorted_wrt (\<noteq>) xs"
  by (induction xs) auto


section \<open>One object\<close>

lemma ensure_Inr:
  assumes S: "serves_netbox api stored" and run: "ensure api kind e q chk payload st = (Inr r, st')"
    and q: "\<And>p. payload = Inr p \<Longrightarrow> query_of e p = q"
  shows "evolves stored (\<lambda>_ _. False) (pop_server st) (pop_server st') \<and> complete_record e r
    \<and> (\<exists>x. stored (pop_server st') e q = Some x \<and> rid x = rid r \<and> (\<forall>a \<in> set REFS. ref a x = ref a r)
        \<and> (chk x = Inr () \<or> (\<exists>p. payload = Inr p
              \<and> (\<forall>k \<in> set SCALARS. map_of p k \<noteq> None \<longrightarrow> dict_get x k = dict_get p k))))"
proof (cases "stored (pop_server st) e q")
  case None
  then obtain p where p: "payload = Inr p" "abind (on_server (api_create api e p)) (\<lambda>obj.
      abind (note_created kind) (\<lambda>_. aret obj)) (st\<lparr>pop_server := pop_server st\<rparr>) = (Inr r, st')"
    using run serves_get [OF S]
    by (cases payload) (auto simp: ensure_def on_server_def abind_def)
  obtain w t where w: "api_create api e p (pop_server st) = (w, t)" by force
  with p(2) have "w = Inr r" "pop_server st' = t"
    by (auto simp: on_server_def abind_def note_created_def split: sum.splits)
  have "stored (pop_server st) e (query_of e p) = None" using None q [OF p(1)] by simp
  from netbox_create [OF S this, of r t] w \<open>w = Inr r\<close>
  show ?thesis unfolding q [OF p(1)] \<open>pop_server st' = t\<close> using p(1) by blast
next
  case (Some x)
  then have "r = x \<and> chk x = Inr () \<and> pop_server st' = pop_server st"
    using run serves_get [OF S]
    by (auto simp: ensure_def on_server_def abind_eq_Inr note_skipped_def split: prod.splits)
  then show ?thesis using Some serves_complete [OF S Some] by simp
qed


lemma ensure_ok:
  assumes S: "serves_netbox api stored" and run: "ensure api kind e q chk payload st = (Inr r, st')"
    and q: "\<And>p. payload = Inr p \<Longrightarrow> query_of e p = q"
    and echo: "\<And>p x. payload = Inr p \<Longrightarrow> complete_record e x \<Longrightarrow>
      (\<forall>k \<in> set SCALARS. map_of p k \<noteq> None \<longrightarrow> dict_get x k = dict_get p k) \<Longrightarrow> chk x = Inr ()"
  shows "evolves stored (\<lambda>_ _. False) (pop_server st) (pop_server st') \<and> complete_record e r
    \<and> (\<exists>x. stored (pop_server st') e q = Some x \<and> rid x = rid r \<and> (\<forall>a \<in> set REFS. ref a x = ref a r)
        \<and> chk x = Inr ())"
  using ensure_Inr [OF S run q] echo serves_complete [OF S] by metis

lemma dict_get_name: "complete_record e x \<Longrightarrow> e = Vlans \<or> e = Devices \<Longrightarrow>
    attr x ''name'' = Inr (dict_get x ''name'')"
  by (auto simp: complete_record_def attr_def dict_get_def)

lemma check_name_ok: "complete_record e x \<Longrightarrow> e = Vlans \<or> e = Devices \<Longrightarrow>
    check_name k i n x = Inr () \<longleftrightarrow> py_eq (dict_get x ''name'') (PyStr n)"
  by (simp add: check_name_def dict_get_name)

lemma check_name_core:
  assumes "core x y" "complete_record e x" "complete_record e y" "e = Vlans \<or> e = Devices"
    and "check_name k i n x = Inr ()"
  shows "check_name k i n y = Inr ()"
  using assms by (simp add: check_name_ok core_def SCALARS_def)

lemma check_u_height_core: "core x y \<Longrightarrow> check_u_height spec x = Inr () \<Longrightarrow> check_u_height spec y = Inr ()"
  and check_mac_core: "core x y \<Longrightarrow> check_mac_owner m i x = Inr () \<Longrightarrow> check_mac_owner m i y = Inr ()"
  and check_ip_core: "core x y \<Longrightarrow> check_ip_owner m i x = Inr () \<Longrightarrow> check_ip_owner m i y = Inr ()"
  by (simp_all add: core_def SCALARS_def check_u_height_def check_mac_owner_def check_ip_owner_def)


section \<open>References of interfaces\<close>

definition iface_query :: "int \<Rightarrow> string \<Rightarrow> pydict" where
  "iface_query d n = [(''device_id'', PyInt d), (''name'', PyStr n)]"

lemma iface_query_eq [simp]: "iface_query d n = iface_query d' n' \<longleftrightarrow> d = d' \<and> n = n'"
  by (simp add: iface_query_def)

text \<open>
  The local records of device \<open>d\<close> agree with the server: same objects, and a reference that
  is set locally is the stored one.
\<close>

definition tracks ::
  "('s \<Rightarrow> endpoint \<Rightarrow> pydict \<Rightarrow> pydict option) \<Rightarrow> 's \<Rightarrow> int \<Rightarrow> iface_map \<Rightarrow> bool" where
  "tracks stored s d ifaces \<longleftrightarrow> (\<forall>n r. ifaces n = Some r \<longrightarrow> complete_record Interfaces r
     \<and> (\<exists>x. stored s Interfaces (iface_query d n) = Some x \<and> rid x = rid r
          \<and> (\<forall>a \<in> set REFS. ref a r = PyNone \<or> ref a r = ref a x)))"

lemma tracksE:
  assumes "tracks stored s d ifaces" and "ifaces n = Some r"
  obtains x where "complete_record Interfaces r" "stored s Interfaces (iface_query d n) = Some x"
    "rid x = rid r" "\<And>a. a \<in> set REFS \<Longrightarrow> ref a r = PyNone \<or> ref a r = ref a x"
  using assms unfolding tracks_def by metis

lemma tracks_evolves:
  assumes "tracks stored s d ifaces" and "evolves stored (\<lambda>_ _. False) s t"
  shows "tracks stored t d ifaces"
  unfolding tracks_def
proof (intro allI impI)
  fix n r assume "ifaces n = Some r"
  from tracksE [OF assms(1) this] obtain x where x: "complete_record Interfaces r"
      "stored s Interfaces (iface_query d n) = Some x" "rid x = rid r"
      "\<And>a. a \<in> set REFS \<Longrightarrow> ref a r = PyNone \<or> ref a r = ref a x" by metis
  from evolves_get [OF assms(2), OF x(2)] obtain y where
      "stored t Interfaces (iface_query d n) = Some y" "core x y" "\<And>a. a \<in> set REFS \<Longrightarrow> ref a x = ref a y"
    by metis
  with x show "complete_record Interfaces r \<and> (\<exists>x. stored t Interfaces (iface_query d n) = Some x
      \<and> rid x = rid r \<and> (\<forall>a \<in> set REFS. ref a r = PyNone \<or> ref a r = ref a x))"
    unfolding core_def by metis
qed

text \<open>\<open>points stored s d n a i\<close>: on the server, reference \<open>a\<close> of interface \<open>n\<close> is the object \<open>i\<close>.\<close>

definition points ::
  "('s \<Rightarrow> endpoint \<Rightarrow> pydict \<Rightarrow> pydict option) \<Rightarrow> 's \<Rightarrow> int \<Rightarrow> string \<Rightarrow> string \<Rightarrow> int \<Rightarrow> bool" where
  "points stored s d n a i \<longleftrightarrow>
     (\<exists>y. stored s Interfaces (iface_query d n) = Some y \<and> ref a y = PyInt i)"

lemma points_evolves:
  assumes "points stored s d n a i" and "evolves stored P s t" and "\<not> P (iface_query d n) a"
    and "a \<in> set REFS"
  shows "points stored t d n a i"
proof -
  from assms(1) obtain y where y: "stored s Interfaces (iface_query d n) = Some y" "ref a y = PyInt i"
    by (auto simp: points_def)
  from evolves_get [OF assms(2), OF y(1)] obtain z where
      z: "stored t Interfaces (iface_query d n) = Some z" "\<And>b. b \<in> set REFS \<Longrightarrow> \<not> P (iface_query d n) b \<Longrightarrow> ref b y = ref b z"
    by metis
  then show ?thesis using y(2) assms(3,4) unfolding points_def by metis
qed


lemma point_to_cases:
  assumes run: "point_to api kind n a target ifaces st = (Inr ifaces', st')"
  obtains (skip) r where "ifaces n = Some r" "map_of r a \<noteq> None" "py_eq (ref a r) target" "ifaces' = ifaces"
      "pop_server st' = pop_server st"
    | (update) r r' where "ifaces n = Some r" "\<not> py_eq (ref a r) target" "ifaces' = ifaces(n := Some r')"
      "api_update api r [(a, target)] (pop_server st) = (Inr r', pop_server st')"
proof -
  obtain r where r: "ifaces n = Some r" "map_of r a \<noteq> None"
      "(if \<not> py_eq (nested_id (dict_get r a)) target
        then abind (on_server (api_update api r [(a, target)])) (\<lambda>r'.
          abind (note_created kind) (\<lambda>_. aret (ifaces(n := Some r'))))
        else abind (note_skipped kind) (\<lambda>_. aret ifaces)) st = (Inr ifaces', st')"
    using run
    by (auto simp: point_to_def abind_eq_Inr local_iface_def attr_def dict_get_def split: option.splits)
  show thesis
  proof (cases "py_eq (ref a r) target")
    case True
    then have "abind (note_skipped kind) (\<lambda>_. aret ifaces) st = (Inr ifaces', st')"
      using r(3) by (simp add: ref_def)
    then have "ifaces' = ifaces" "pop_server st' = pop_server st" by (auto simp: note_skipped_def abind_def)
    from skip [OF r(1,2) True this] show thesis .
  next
    case False
    obtain w t where w: "api_update api r [(a, target)] (pop_server st) = (w, t)" by force
    have "abind (on_server (api_update api r [(a, target)])) (\<lambda>r'.
          abind (note_created kind) (\<lambda>_. aret (ifaces(n := Some r')))) st = (Inr ifaces', st')"
      using r(3) False by (simp add: ref_def)
    then obtain r' where "w = Inr r'" "ifaces' = ifaces(n := Some r')" "pop_server st' = t"
      by (cases w) (auto simp: on_server_def abind_def note_created_def w)
    with update [OF r(1) False] w show thesis by blast
  qed
qed

lemma py_eq_int: "complete_record Interfaces x \<Longrightarrow> a \<in> set REFS \<Longrightarrow>
    py_eq (ref a x) (PyInt i) \<longleftrightarrow> ref a x = PyInt i"
  by (auto simp: complete_record_def py_num_def)

text \<open>Patching one interface's reference keeps the local records in step with the server's.\<close>

lemma tracks_patched:
  assumes T: "tracks stored s d ifaces" and n: "ifaces n = Some r" and x: "stored s Interfaces (iface_query d n) = Some x" "rid x = rid r"
      "\<And>b. b \<in> set REFS \<Longrightarrow> ref b r = PyNone \<or> ref b r = ref b x"
    and r': "complete_record Interfaces r'" "rid r' = rid r"
      "\<And>b. b \<in> set REFS \<Longrightarrow> ref b r' = PyNone \<or> ref b r' = (if b = a then PyInt i else ref b r)"
    and ev: "evolves stored (\<lambda>q b. b = a \<and> q = iface_query d n) s t"
    and y: "stored t Interfaces (iface_query d n) = Some y" "ref a y = PyInt i"
  shows "tracks stored t d (ifaces(n := Some r'))"
  unfolding tracks_def
proof (intro allI impI)
  fix m w assume mw: "(ifaces(n := Some r')) m = Some w"
  show "complete_record Interfaces w \<and> (\<exists>x. stored t Interfaces (iface_query d m) = Some x
      \<and> rid x = rid w \<and> (\<forall>b \<in> set REFS. ref b w = PyNone \<or> ref b w = ref b x))"
  proof (cases "m = n")
    case True
    then have w: "w = r'" using mw by simp
    from evolves_get [OF ev, OF x(1)] obtain z where z: "stored t Interfaces (iface_query d n) = Some z"
        "core x z" "\<And>b. b \<in> set REFS \<Longrightarrow> b \<noteq> a \<Longrightarrow> ref b x = ref b z" by metis
    then have "z = y" using y(1) by simp
    then show ?thesis using z y x r' True w unfolding core_def by metis
  next
    case False
    then have "ifaces m = Some w" using mw by simp
    from tracksE [OF T this] obtain v where v: "complete_record Interfaces w"
        "stored s Interfaces (iface_query d m) = Some v" "rid v = rid w"
        "\<And>b. b \<in> set REFS \<Longrightarrow> ref b w = PyNone \<or> ref b w = ref b v" by metis
    from evolves_get [OF ev, OF v(2)] False obtain z where
        "stored t Interfaces (iface_query d m) = Some z" "core v z"
        "\<And>b. b \<in> set REFS \<Longrightarrow> ref b v = ref b z" using iface_query_eq by metis
    then show ?thesis using v unfolding core_def by metis
  qed
qed

lemma point_to_Inr:
  assumes S: "serves_netbox api stored" and a: "a \<in> set REFS"
    and T: "tracks stored (pop_server st) d ifaces"
    and run: "point_to api kind n a (PyInt i) ifaces st = (Inr ifaces', st')"
  shows "tracks stored (pop_server st') d ifaces' \<and> dom ifaces' = dom ifaces \<and> n \<in> dom ifaces
    \<and> evolves stored (\<lambda>q b. b = a \<and> q = iface_query d n) (pop_server st) (pop_server st')
    \<and> points stored (pop_server st') d n a i"
  using run
proof (cases rule: point_to_cases)
  case (skip r)
  from tracksE [OF T skip(1)] obtain x where x: "complete_record Interfaces r"
      "stored (pop_server st) Interfaces (iface_query d n) = Some x"
      "ref a r = PyNone \<or> ref a r = ref a x" using a by metis
  have "ref a r = PyInt i" using py_eq_int [OF x(1) a] skip(3) by simp
  then have "points stored (pop_server st) d n a i" using x(2,3) by (simp add: points_def)
  then show ?thesis using T skip by auto
next
  case (update r r')
  let ?s = "pop_server st" and ?t = "pop_server st'"
  from tracksE [OF T update(1)] obtain x where x: "complete_record Interfaces r"
      "stored ?s Interfaces (iface_query d n) = Some x" "rid x = rid r"
      "\<And>b. b \<in> set REFS \<Longrightarrow> ref b r = PyNone \<or> ref b r = ref b x" by metis
  have u: "complete_record Interfaces r'" "rid r' = rid r"
      "\<And>b. b \<in> set REFS \<Longrightarrow> ref b r' = PyNone \<or> ref b r' = (if b = a then PyInt i else ref b r)"
      "evolves stored (\<lambda>q b. b = a \<and> (\<exists>x. stored ?s Interfaces q = Some x \<and> rid x = rid r)) ?s ?t"
    using serves_update [OF S a update(4)] by blast+
  obtain y where y: "stored ?t Interfaces (iface_query d n) = Some y" "ref a y = PyInt i"
    using serves_update [OF S a update(4)] x(2,3) by blast
  have ev: "evolves stored (\<lambda>q b. b = a \<and> q = iface_query d n) ?s ?t"
    using u(4) serves_ids [OF S _ _ x(2)] x(3) by (elim evolves_mono) metis
  have "tracks stored ?t d ifaces'"
    using tracks_patched [OF T update(1) x(2,3) x(4) u(1,2) u(3) ev y] update(3) by simp
  then show ?thesis using update ev y by (auto simp: points_def)
qed


text \<open>\<open>refers stored s d n a m\<close>: reference \<open>a\<close> of interface \<open>n\<close> is the interface \<open>m\<close> of the same device.\<close>

definition refers ::
  "('s \<Rightarrow> endpoint \<Rightarrow> pydict \<Rightarrow> pydict option) \<Rightarrow> 's \<Rightarrow> int \<Rightarrow> string \<Rightarrow> string \<Rightarrow> string \<Rightarrow> bool" where
  "refers stored s d n a m \<longleftrightarrow>
     (\<exists>x. stored s Interfaces (iface_query d m) = Some x \<and> points stored s d n a (rid x))"

lemma refers_evolves:
  assumes "refers stored s d n a m" and "evolves stored P s t" and "\<not> P (iface_query d n) a"
    and "a \<in> set REFS"
  shows "refers stored t d n a m"
proof -
  from assms(1) obtain x where x: "stored s Interfaces (iface_query d m) = Some x" "points stored s d n a (rid x)"
    by (auto simp: refers_def)
  from evolves_get [OF assms(2), OF x(1)] obtain y where
      "stored t Interfaces (iface_query d m) = Some y" "core x y" by metis
  then show ?thesis using points_evolves [OF x(2) assms(2-4)] by (auto simp: refers_def core_def)
qed

lemma local_id:
  assumes S: "serves_netbox api stored" and T: "tracks stored (pop_server st) d ifaces"
    and run: "abind (alift (rbind (local_iface ifaces m) (\<lambda>r. attr r ''id''))) f st = (Inr y, st')"
  obtains x where "stored (pop_server st) Interfaces (iface_query d m) = Some x" "m \<in> dom ifaces"
    "f (PyInt (rid x)) st = (Inr y, st')"
proof -
  obtain r v where r: "ifaces m = Some r" "attr r ''id'' = Inr v" "f v st = (Inr y, st')"
    using run by (auto simp: abind_eq_Inr rbind_eq_Inr local_iface_def split: option.splits)
  from tracksE [OF T r(1)] obtain x where x: "complete_record Interfaces r"
      "stored (pop_server st) Interfaces (iface_query d m) = Some x" "rid x = rid r" by metis
  have "v = PyInt (rid x)" using complete_id [OF x(1)] r(2) x(3) by simp
  with that [OF x(2)] r show thesis by blast
qed

lemma refer_step:
  assumes S: "serves_netbox api stored" and a: "a \<in> set REFS"
    and T: "tracks stored (pop_server st) d ifaces"
    and run: "abind (alift (rbind (local_iface ifaces m) (\<lambda>r. attr r ''id''))) (\<lambda>i.
        point_to api kind n a i ifaces) st = (Inr ifaces', st')"
  shows "tracks stored (pop_server st') d ifaces' \<and> dom ifaces' = dom ifaces \<and> n \<in> dom ifaces \<and> m \<in> dom ifaces
    \<and> evolves stored (\<lambda>q b. b = a \<and> q = iface_query d n) (pop_server st) (pop_server st')
    \<and> refers stored (pop_server st') d n a m"
proof -
  from local_id [OF S T run] obtain x where x: "stored (pop_server st) Interfaces (iface_query d m) = Some x"
      "m \<in> dom ifaces" "point_to api kind n a (PyInt (rid x)) ifaces st = (Inr ifaces', st')" by metis
  from point_to_Inr [OF S a T x(3)] have p: "tracks stored (pop_server st') d ifaces'"
      "dom ifaces' = dom ifaces" "n \<in> dom ifaces" "points stored (pop_server st') d n a (rid x)"
      "evolves stored (\<lambda>q b. b = a \<and> q = iface_query d n) (pop_server st) (pop_server st')" by auto
  from evolves_get [OF p(5), OF x(1)] obtain y where "stored (pop_server st') Interfaces (iface_query d m) = Some y"
      "core x y" by metis
  then show ?thesis using p x(2) by (auto simp: refers_def core_def)
qed

definition wire_allowed :: "int \<Rightarrow> interface_spec \<Rightarrow> pydict \<Rightarrow> string \<Rightarrow> bool" where
  "wire_allowed d spec q b \<longleftrightarrow> (b = ''lag'' \<and> (\<exists>m \<in> set (if_lag_members spec). q = iface_query d m))
     \<or> (b = ''parent'' \<and> q = iface_query d (if_name spec))"

definition wired ::
  "('s \<Rightarrow> endpoint \<Rightarrow> pydict \<Rightarrow> pydict option) \<Rightarrow> 's \<Rightarrow> int \<Rightarrow> interface_spec \<Rightarrow> bool" where
  "wired stored s d spec \<longleftrightarrow>
     (\<forall>m \<in> set (if_lag_members spec). refers stored s d m ''lag'' (if_name spec))
     \<and> (given (if_parent spec) \<longrightarrow> refers stored s d (if_name spec) ''parent'' (the (if_parent spec)))"

lemma wired_evolves:
  assumes "wired stored s d spec" and "evolves stored P s t"
    and "\<And>m. m \<in> set (if_lag_members spec) \<Longrightarrow> \<not> P (iface_query d m) ''lag''"
    and "\<not> P (iface_query d (if_name spec)) ''parent''"
  shows "wired stored t d spec"
  using assms refers_evolves [OF _ assms(2)] by (auto simp: wired_def REFS_def)

text \<open>
  A pass over interfaces: every step keeps the local records in agreement with the server,
  changes only what \<open>A\<close> allows it and puts its fact \<open>F\<close> in place; later steps keep it.
\<close>

lemma pass_each:
  assumes run: "afold f xs ifaces st = (Inr ifaces', st')" and T: "tracks stored (pop_server st) d ifaces"
    and step: "\<And>x acc s acc' s'. x \<in> set xs \<Longrightarrow> tracks stored (pop_server s) d acc \<Longrightarrow> dom acc = dom ifaces \<Longrightarrow>
      f x acc s = (Inr acc', s') \<Longrightarrow> tracks stored (pop_server s') d acc' \<and> dom acc' = dom acc
        \<and> evolves stored (A x) (pop_server s) (pop_server s') \<and> F x (pop_server s')"
    and keep: "\<And>x y s t. x \<in> set xs \<Longrightarrow> y \<in> set xs \<Longrightarrow> x \<noteq> y \<Longrightarrow> F x s \<Longrightarrow> evolves stored (A y) s t \<Longrightarrow> F x t"
    and all: "\<And>x q a. x \<in> set xs \<Longrightarrow> A x q a \<Longrightarrow> B q a"
  shows "tracks stored (pop_server st') d ifaces' \<and> dom ifaces' = dom ifaces
    \<and> evolves stored B (pop_server st) (pop_server st') \<and> (\<forall>x \<in> set xs. F x (pop_server st'))"
proof -
  let ?I = "\<lambda>acc s. tracks stored (pop_server s) d acc \<and> dom acc = dom ifaces
      \<and> evolves stored B (pop_server st) (pop_server s)"
  have "?I ifaces' st' \<and> (\<forall>x \<in> set xs. F x (pop_server st'))"
  proof (rule afold_each [OF run, where I = ?I and safe = "\<lambda>_ _. True"])
    show "?I ifaces st" using T by simp
    show "sorted_wrt (\<lambda>_ _. True) xs" by (induction xs) auto
    {
      fix x acc s acc' s'
      assume x: "x \<in> set xs" and I: "?I acc s" and f: "f x acc s = (Inr acc', s')"
      have st: "tracks stored (pop_server s') d acc'" "dom acc' = dom acc"
          "evolves stored (A x) (pop_server s) (pop_server s')" "F x (pop_server s')"
        using step [OF x _ _ f] I by blast+
      have "evolves stored B (pop_server s) (pop_server s')"
        using st(3) by (rule evolves_mono) (rule all [OF x])
      then have "evolves stored B (pop_server st) (pop_server s')"
        by (rule evolves_trans [OF conjunct2 [OF conjunct2 [OF I]]])
      then show "?I acc' s' \<and> F x (pop_server s')" using st I by simp
    }
    fix x y acc s acc' s'
    assume xy: "x \<in> set xs" "y \<in> set xs" and I: "?I acc s" and F: "F x (pop_server s)"
      and f: "f y acc s = (Inr acc', s')"
    have "evolves stored (A y) (pop_server s) (pop_server s')" "F y (pop_server s')"
      using step [OF xy(2) _ _ f] I by blast+
    then show "F x (pop_server s')" using keep [OF xy _ F] by (cases "x = y") auto
  qed
  then show ?thesis by simp
qed

lemma wire_members_Inr:
  assumes S: "serves_netbox api stored" and T: "tracks stored (pop_server st) d ifaces"
    and run: "afold (wire_member api spec) (if_lag_members spec) ifaces st = (Inr ifaces', st')"
  shows "tracks stored (pop_server st') d ifaces' \<and> dom ifaces' = dom ifaces
    \<and> evolves stored (\<lambda>q b. b = ''lag'' \<and> (\<exists>m \<in> set (if_lag_members spec). q = iface_query d m))
        (pop_server st) (pop_server st')
    \<and> (\<forall>m \<in> set (if_lag_members spec). refers stored (pop_server st') d m ''lag'' (if_name spec) \<and> m \<in> dom ifaces)"
proof (rule pass_each [OF run T, where A = "\<lambda>m q b. b = ''lag'' \<and> q = iface_query d m"])
  have lag: "''lag'' \<in> set REFS" by (simp add: REFS_def)
  show "tracks stored (pop_server s') d acc' \<and> dom acc' = dom acc
      \<and> evolves stored (\<lambda>q b. b = ''lag'' \<and> q = iface_query d m) (pop_server s) (pop_server s')
      \<and> refers stored (pop_server s') d m ''lag'' (if_name spec) \<and> m \<in> dom ifaces"
    if "tracks stored (pop_server s) d acc" "dom acc = dom ifaces" "wire_member api spec m acc s = (Inr acc', s')"
    for m acc s acc' s'
    using refer_step [OF S lag that(1) that(3) [unfolded wire_member_def]] that(2) by blast
  show "refers stored t d m ''lag'' (if_name spec) \<and> m \<in> dom ifaces"
    if "m \<noteq> n" "refers stored s d m ''lag'' (if_name spec) \<and> m \<in> dom ifaces"
      "evolves stored (\<lambda>q b. b = ''lag'' \<and> q = iface_query d n) s t" for m n s t
    using refers_evolves [OF _ that(3) _ lag] that by auto
qed auto

lemma wire_Inr:
  assumes S: "serves_netbox api stored" and T: "tracks stored (pop_server st) d ifaces"
    and run: "wire_relationships api spec ifaces st = (Inr ifaces', st')"
  shows "tracks stored (pop_server st') d ifaces' \<and> dom ifaces' = dom ifaces
    \<and> evolves stored (wire_allowed d spec) (pop_server st) (pop_server st')
    \<and> wired stored (pop_server st') d spec \<and> set (if_lag_members spec) \<subseteq> dom ifaces
    \<and> (given (if_parent spec) \<longrightarrow> the (if_parent spec) \<in> dom ifaces)"
proof -
  obtain ifs1 st1 where 1: "afold (wire_member api spec) (if_lag_members spec) ifaces st = (Inr ifs1, st1)"
      "wire_parent api spec ifs1 st1 = (Inr ifaces', st')"
    using run by (auto simp: wire_relationships_def abind_eq_Inr)
  from wire_members_Inr [OF S T 1(1)] have m: "tracks stored (pop_server st1) d ifs1" "dom ifs1 = dom ifaces"
      "evolves stored (\<lambda>q b. b = ''lag'' \<and> (\<exists>m \<in> set (if_lag_members spec). q = iface_query d m))
        (pop_server st) (pop_server st1)"
      "\<And>m. m \<in> set (if_lag_members spec) \<Longrightarrow> refers stored (pop_server st1) d m ''lag'' (if_name spec) \<and> m \<in> dom ifaces"
    by auto
  have e1: "evolves stored (wire_allowed d spec) (pop_server st) (pop_server st1)"
    using m(3) by (rule evolves_mono) (auto simp: wire_allowed_def)
  show ?thesis
  proof (cases "given (if_parent spec)")
    case False
    then have "ifs1 = ifaces' \<and> st1 = st'" using 1(2) by (simp add: wire_parent_def)
    then show ?thesis using m e1 False unfolding wired_def by blast
  next
    case True
    have p: "''parent'' \<in> set REFS" by (simp add: REFS_def)
    from refer_step [OF S p m(1), where n = "if_name spec" and m = "the (if_parent spec)"] 1(2) True
    have r: "tracks stored (pop_server st') d ifaces'" "dom ifaces' = dom ifs1" "the (if_parent spec) \<in> dom ifs1"
        "evolves stored (\<lambda>q b. b = ''parent'' \<and> q = iface_query d (if_name spec)) (pop_server st1) (pop_server st')"
        "refers stored (pop_server st') d (if_name spec) ''parent'' (the (if_parent spec))"
      by (auto simp: wire_parent_def)
    have "refers stored (pop_server st') d m ''lag'' (if_name spec)" if "m \<in> set (if_lag_members spec)" for m
      using refers_evolves [OF _ r(4)] m(4) [OF that] by (simp add: REFS_def)
    moreover have "evolves stored (wire_allowed d spec) (pop_server st1) (pop_server st')"
      using r(4) by (rule evolves_mono) (auto simp: wire_allowed_def)
    ultimately have "wired stored (pop_server st') d spec" "evolves stored (wire_allowed d spec) (pop_server st) (pop_server st')"
      using r(5) evolves_trans [OF e1] by (auto simp: wired_def)
    then show ?thesis using r m(2,4) unfolding subset_iff by blast
  qed
qed



section \<open>MAC and IP addresses\<close>

definition owned_mac ::
  "('s \<Rightarrow> endpoint \<Rightarrow> pydict \<Rightarrow> pydict option) \<Rightarrow> 's \<Rightarrow> int \<Rightarrow> interface_spec \<Rightarrow> bool" where
  "owned_mac stored s d spec \<longleftrightarrow> (given (if_mac spec) \<longrightarrow>
     (\<exists>x y. stored s Interfaces (iface_query d (if_name spec)) = Some x
        \<and> stored s MacAddresses [(''mac_address'', PyStr (the (if_mac spec)))] = Some y
        \<and> check_mac_owner (the (if_mac spec)) (PyInt (rid x)) y = Inr ()
        \<and> points stored s d (if_name spec) ''primary_mac_address'' (rid y)))"

definition owned_ip ::
  "('s \<Rightarrow> endpoint \<Rightarrow> pydict \<Rightarrow> pydict option) \<Rightarrow> 's \<Rightarrow> int \<Rightarrow> interface_spec \<Rightarrow> bool" where
  "owned_ip stored s d spec \<longleftrightarrow> (given (if_ip spec) \<longrightarrow>
     (\<exists>x y. stored s Interfaces (iface_query d (if_name spec)) = Some x
        \<and> stored s IpAddresses [(''address'', PyStr (the (if_ip spec)))] = Some y
        \<and> check_ip_owner (the (if_ip spec)) (PyInt (rid x)) y = Inr ()))"

lemma owned_mac_evolves:
  assumes "owned_mac stored s d spec" and ev: "evolves stored P s t"
    and "\<not> P (iface_query d (if_name spec)) ''primary_mac_address''"
  shows "owned_mac stored t d spec"
  unfolding owned_mac_def
proof
  assume "given (if_mac spec)"
  then obtain x y where x: "stored s Interfaces (iface_query d (if_name spec)) = Some x"
      and y: "stored s MacAddresses [(''mac_address'', PyStr (the (if_mac spec)))] = Some y"
        "check_mac_owner (the (if_mac spec)) (PyInt (rid x)) y = Inr ()"
        "points stored s d (if_name spec) ''primary_mac_address'' (rid y)"
    using assms(1) by (auto simp: owned_mac_def)
  obtain x' where x': "stored t Interfaces (iface_query d (if_name spec)) = Some x'" "core x x'"
    by (rule evolves_kept [OF ev, OF x])
  obtain y' where y': "stored t MacAddresses [(''mac_address'', PyStr (the (if_mac spec)))] = Some y'" "core y y'"
    by (rule evolves_kept [OF ev, OF y(1)])
  have "rid x' = rid x" "rid y' = rid y" using x'(2) y'(2) by (simp_all add: core_def)
  then show "\<exists>x y. stored t Interfaces (iface_query d (if_name spec)) = Some x
        \<and> stored t MacAddresses [(''mac_address'', PyStr (the (if_mac spec)))] = Some y
        \<and> check_mac_owner (the (if_mac spec)) (PyInt (rid x)) y = Inr ()
        \<and> points stored t d (if_name spec) ''primary_mac_address'' (rid y)"
    using x' y' check_mac_core [OF y'(2) y(2)] points_evolves [OF y(3) ev assms(3)]
    by (simp add: REFS_def)
qed

lemma owned_ip_evolves:
  assumes "owned_ip stored s d spec" and ev: "evolves stored P s t"
  shows "owned_ip stored t d spec"
  unfolding owned_ip_def
proof
  assume "given (if_ip spec)"
  then obtain x y where x: "stored s Interfaces (iface_query d (if_name spec)) = Some x"
      and y: "stored s IpAddresses [(''address'', PyStr (the (if_ip spec)))] = Some y"
        "check_ip_owner (the (if_ip spec)) (PyInt (rid x)) y = Inr ()"
    using assms(1) by (auto simp: owned_ip_def)
  obtain x' where x': "stored t Interfaces (iface_query d (if_name spec)) = Some x'" "core x x'"
    by (rule evolves_kept [OF ev, OF x])
  obtain y' where y': "stored t IpAddresses [(''address'', PyStr (the (if_ip spec)))] = Some y'" "core y y'"
    by (rule evolves_kept [OF ev, OF y(1)])
  have "rid x' = rid x" using x'(2) by (simp add: core_def)
  then show "\<exists>x y. stored t Interfaces (iface_query d (if_name spec)) = Some x
        \<and> stored t IpAddresses [(''address'', PyStr (the (if_ip spec)))] = Some y
        \<and> check_ip_owner (the (if_ip spec)) (PyInt (rid x)) y = Inr ()"
    using x' y' check_ip_core [OF y'(2) y(2)] by simp
qed

lemma assignment_echo:
  assumes "\<forall>k \<in> set SCALARS. map_of (assignment key v (PyInt i)) k \<noteq> None \<longrightarrow>
      dict_get x k = dict_get (assignment key v (PyInt i)) k"
    and "key \<noteq> ''assigned_object_id''"
  shows "dict_get x ''assigned_object_id'' = PyInt i"
  using assms by (simp add: SCALARS_def assignment_def dict_get_def)

lemma mac_record_Inr:
  assumes S: "serves_netbox api stored"
    and run: "ensure api ''mac_address'' MacAddresses [(''mac_address'', PyStr mac)] (check_mac_owner mac (PyInt i))
      (Inr (assignment ''mac_address'' mac (PyInt i))) st = (Inr m, st1)"
  shows "evolves stored (\<lambda>_ _. False) (pop_server st) (pop_server st1) \<and> complete_record MacAddresses m
    \<and> (\<exists>y. stored (pop_server st1) MacAddresses [(''mac_address'', PyStr mac)] = Some y \<and> rid y = rid m
        \<and> (\<forall>a \<in> set REFS. ref a y = ref a m) \<and> check_mac_owner mac (PyInt i) y = Inr ())"
proof (rule ensure_ok [OF S run])
  show "query_of MacAddresses p = [(''mac_address'', PyStr mac)]"
    if "Inr (assignment ''mac_address'' mac (PyInt i)) = Inr p" for p
    using that by (auto simp: query_of_def assignment_def dict_get_def)
  show "check_mac_owner mac (PyInt i) y = Inr ()"
    if "Inr (assignment ''mac_address'' mac (PyInt i)) = Inr p"
      "\<forall>k \<in> set SCALARS. map_of p k \<noteq> None \<longrightarrow> dict_get y k = dict_get p k" for p y
  proof -
    have "dict_get y ''assigned_object_id'' = PyInt i"
      using that by (intro assignment_echo [of "''mac_address''" mac]) auto
    then show ?thesis by (simp add: check_mac_owner_def py_num_def)
  qed
qed

lemma mac_Inr:
  assumes S: "serves_netbox api stored" and T: "tracks stored (pop_server st) d ifaces"
    and run: "ensure_mac_address api spec ifaces st = (Inr ifaces', st')"
  shows "tracks stored (pop_server st') d ifaces' \<and> dom ifaces' = dom ifaces
    \<and> evolves stored (\<lambda>q b. b = ''primary_mac_address'' \<and> q = iface_query d (if_name spec))
        (pop_server st) (pop_server st')
    \<and> owned_mac stored (pop_server st') d spec"
proof (cases "given (if_mac spec)")
  case False
  then show ?thesis using run T by (auto simp: ensure_mac_address_def owned_mac_def)
next
  case True
  let ?mac = "the (if_mac spec)" and ?q = "[(''mac_address'', PyStr (the (if_mac spec)))]"
  let ?iq = "iface_query d (if_name spec)"
  from local_id [OF S T run [unfolded ensure_mac_address_def if_P [OF True] Let_def]]
  obtain x where x: "stored (pop_server st) Interfaces ?iq = Some x"
      "abind (ensure api ''mac_address'' MacAddresses ?q (check_mac_owner ?mac (PyInt (rid x)))
          (Inr (assignment ''mac_address'' ?mac (PyInt (rid x))))) (\<lambda>mac_obj.
        abind (alift (attr mac_obj ''id'')) (\<lambda>mac_id.
        point_to api ''primary_mac_assignment'' (if_name spec) ''primary_mac_address'' mac_id ifaces)) st
       = (Inr ifaces', st')" by metis
  from x(2) obtain m st1 mid where m: "ensure api ''mac_address'' MacAddresses ?q
      (check_mac_owner ?mac (PyInt (rid x))) (Inr (assignment ''mac_address'' ?mac (PyInt (rid x)))) st = (Inr m, st1)"
      "attr m ''id'' = Inr mid"
      "point_to api ''primary_mac_assignment'' (if_name spec) ''primary_mac_address'' mid ifaces st1 = (Inr ifaces', st')"
    by (auto simp: abind_eq_Inr)
  from mac_record_Inr [OF S m(1)] obtain y where e: "evolves stored (\<lambda>_ _. False) (pop_server st) (pop_server st1)"
      "complete_record MacAddresses m" "stored (pop_server st1) MacAddresses ?q = Some y" "rid y = rid m"
      "check_mac_owner ?mac (PyInt (rid x)) y = Inr ()" by blast
  have mid: "mid = PyInt (rid y)" using complete_id [OF e(2)] m(2) e(4) by simp
  have p: "''primary_mac_address'' \<in> set REFS" by (simp add: REFS_def)
  from point_to_Inr [OF S p tracks_evolves [OF T e(1)] m(3) [unfolded mid]]
  have t: "tracks stored (pop_server st') d ifaces'" "dom ifaces' = dom ifaces"
      "evolves stored (\<lambda>q b. b = ''primary_mac_address'' \<and> q = ?iq) (pop_server st1) (pop_server st')"
      "points stored (pop_server st') d (if_name spec) ''primary_mac_address'' (rid y)" by auto
  have ev: "evolves stored (\<lambda>q b. b = ''primary_mac_address'' \<and> q = ?iq) (pop_server st) (pop_server st')"
    using evolves_mono [OF e(1)] t(3) by (rule evolves_trans) simp
  obtain x' where x': "stored (pop_server st') Interfaces ?iq = Some x'" "core x x'"
    by (rule evolves_kept [OF ev, OF x(1)])
  obtain y' where y': "stored (pop_server st') MacAddresses ?q = Some y'" "core y y'"
    by (rule evolves_kept [OF t(3), OF e(3)])
  have "owned_mac stored (pop_server st') d spec"
    using x' y' check_mac_core [OF y'(2) e(5)] t(4) by (auto simp: owned_mac_def core_def)
  then show ?thesis using t ev by simp
qed


lemma ip_Inr:
  assumes S: "serves_netbox api stored" and T: "tracks stored (pop_server st) d ifaces"
    and run: "ensure_ip_address api ifaces spec st = (Inr u, st')"
  shows "evolves stored (\<lambda>_ _. False) (pop_server st) (pop_server st') \<and> owned_ip stored (pop_server st') d spec"
proof (cases "given (if_ip spec)")
  case False
  then show ?thesis using run by (auto simp: ensure_ip_address_def owned_ip_def)
next
  case True
  let ?ip = "the (if_ip spec)" and ?q = "[(''address'', PyStr (the (if_ip spec)))]"
  let ?iq = "iface_query d (if_name spec)"
  from local_id [OF S T run [unfolded ensure_ip_address_def if_P [OF True] Let_def]]
  obtain x where x: "stored (pop_server st) Interfaces ?iq = Some x"
      "abind (ensure api ''ip_address'' IpAddresses ?q (check_ip_owner ?ip (PyInt (rid x)))
          (Inr (assignment ''address'' ?ip (PyInt (rid x))))) (\<lambda>_. aret ()) st = (Inr u, st')" by metis
  from x(2) obtain m where m: "ensure api ''ip_address'' IpAddresses ?q
      (check_ip_owner ?ip (PyInt (rid x))) (Inr (assignment ''address'' ?ip (PyInt (rid x)))) st = (Inr m, st')"
    by (auto simp: abind_eq_Inr)
  have "evolves stored (\<lambda>_ _. False) (pop_server st) (pop_server st') \<and> complete_record IpAddresses m
    \<and> (\<exists>y. stored (pop_server st') IpAddresses ?q = Some y \<and> rid y = rid m \<and> (\<forall>a \<in> set REFS. ref a y = ref a m)
        \<and> check_ip_owner ?ip (PyInt (rid x)) y = Inr ())"
  proof (rule ensure_ok [OF S m])
    show "query_of IpAddresses p = ?q" if "Inr (assignment ''address'' ?ip (PyInt (rid x))) = Inr p" for p
      using that by (auto simp: query_of_def assignment_def dict_get_def)
    show "check_ip_owner ?ip (PyInt (rid x)) y = Inr ()"
      if "Inr (assignment ''address'' ?ip (PyInt (rid x))) = Inr p"
        "\<forall>k \<in> set SCALARS. map_of p k \<noteq> None \<longrightarrow> dict_get y k = dict_get p k" for p y
    proof -
      have "dict_get y ''assigned_object_id'' = PyInt (rid x)"
        using that by (intro assignment_echo [of "''address''" ?ip]) auto
      then show ?thesis by (simp add: check_ip_owner_def py_num_def)
    qed
  qed
  then obtain y where e: "evolves stored (\<lambda>_ _. False) (pop_server st) (pop_server st')"
      "stored (pop_server st') IpAddresses ?q = Some y" "check_ip_owner ?ip (PyInt (rid x)) y = Inr ()" by blast
  obtain x' where x': "stored (pop_server st') Interfaces ?iq = Some x'" "core x x'"
    by (rule evolves_kept [OF e(1), OF x(1)])
  then show ?thesis using e by (auto simp: owned_ip_def core_def)
qed


section \<open>One fixture\<close>

text \<open>
  What a fixture must satisfy for a second run to find its wiring unchanged: interface names
  are distinct and no interface is a member of two LAGs.
\<close>

definition wf_specs :: "interface_spec list \<Rightarrow> bool" where
  "wf_specs specs \<longleftrightarrow> distinct (map if_name specs) \<and> distinct (concat (map if_lag_members specs))"

text \<open>The interfaces of a fixture are in place on device \<open>d\<close>.\<close>

definition placed ::
  "('s \<Rightarrow> endpoint \<Rightarrow> pydict \<Rightarrow> pydict option) \<Rightarrow> 's \<Rightarrow> int \<Rightarrow> interface_spec list \<Rightarrow> bool" where
  "placed stored s d specs \<longleftrightarrow> (\<forall>spec \<in> set specs.
     stored s Interfaces (iface_query d (if_name spec)) \<noteq> None
     \<and> set (if_lag_members spec) \<subseteq> if_name ` set specs
     \<and> (given (if_parent spec) \<longrightarrow> the (if_parent spec) \<in> if_name ` set specs)
     \<and> wired stored s d spec \<and> owned_mac stored s d spec \<and> owned_ip stored s d spec)"

lemma placed_evolves:
  assumes "placed stored s d specs" and ev: "evolves stored P s t" and "\<And>n a. \<not> P (iface_query d n) a"
  shows "placed stored t d specs"
  unfolding placed_def
proof
  fix spec assume "spec \<in> set specs"
  then have p: "stored s Interfaces (iface_query d (if_name spec)) \<noteq> None"
     "set (if_lag_members spec) \<subseteq> if_name ` set specs"
     "given (if_parent spec) \<longrightarrow> the (if_parent spec) \<in> if_name ` set specs"
     "wired stored s d spec" "owned_mac stored s d spec" "owned_ip stored s d spec"
    using assms(1) by (auto simp: placed_def)
  from p(1) obtain x where x: "stored s Interfaces (iface_query d (if_name spec)) = Some x" by blast
  obtain y where "stored t Interfaces (iface_query d (if_name spec)) = Some y"
    by (rule evolves_kept [OF ev, OF x])
  then show "stored t Interfaces (iface_query d (if_name spec)) \<noteq> None
     \<and> set (if_lag_members spec) \<subseteq> if_name ` set specs
     \<and> (given (if_parent spec) \<longrightarrow> the (if_parent spec) \<in> if_name ` set specs)
     \<and> wired stored t d spec \<and> owned_mac stored t d spec \<and> owned_ip stored t d spec"
    using p wired_evolves [OF p(4) ev] owned_mac_evolves [OF p(5) ev] owned_ip_evolves [OF p(6) ev] assms(3)
    by auto
qed

lemma interface_query_of:
  assumes "interface_payload spec (PyInt d) vlans = Inr p"
  shows "query_of Interfaces p = iface_query d (if_name spec)"
proof -
  have "map_of p ''device'' = Some (PyInt d)" "map_of p ''name'' = Some (PyStr (if_name spec))"
    using assms by (auto simp: interface_payload_def Let_def rbind_eq_Inr)
  then show ?thesis by (simp add: query_of_def iface_query_def dict_get_def)
qed

lemma put_interface_Inr:
  assumes S: "serves_netbox api stored" and T: "tracks stored (pop_server st) (rid device) ifaces"
    and D: "complete_record Devices device"
    and run: "put_interface api device vlans spec ifaces st = (Inr ifaces', st')"
  shows "tracks stored (pop_server st') (rid device) ifaces' \<and> dom ifaces' = insert (if_name spec) (dom ifaces)
    \<and> evolves stored (\<lambda>_ _. False) (pop_server st) (pop_server st')"
proof -
  let ?d = "rid device"
  obtain r where r: "ensure api ''interface'' Interfaces (iface_query ?d (if_name spec)) no_check
        (interface_payload spec (PyInt ?d) vlans) st = (Inr r, st')" "ifaces' = ifaces(if_name spec := Some r)"
    using run complete_id [OF D]
    by (auto simp: put_interface_def ensure_interface_def iface_query_def abind_eq_Inr)
  have "evolves stored (\<lambda>_ _. False) (pop_server st) (pop_server st') \<and> complete_record Interfaces r
    \<and> (\<exists>x. stored (pop_server st') Interfaces (iface_query ?d (if_name spec)) = Some x \<and> rid x = rid r
        \<and> (\<forall>a \<in> set REFS. ref a x = ref a r) \<and> no_check x = Inr ())"
    by (rule ensure_ok [OF S r(1)]) (simp_all add: interface_query_of no_check_def)
  then obtain x where e: "evolves stored (\<lambda>_ _. False) (pop_server st) (pop_server st')"
      "complete_record Interfaces r" "stored (pop_server st') Interfaces (iface_query ?d (if_name spec)) = Some x"
      "rid x = rid r" "\<forall>a \<in> set REFS. ref a x = ref a r" by blast
  have "tracks stored (pop_server st') ?d ifaces'"
    using tracks_evolves [OF T e(1)] e(2-5) unfolding r(2) tracks_def by simp
  then show ?thesis using e(1) r(2) by auto
qed


lemma pass1_Inr:
  assumes S: "serves_netbox api stored" and D: "complete_record Devices device"
    and "afold (put_interface api device vlans) specs ifaces st = (Inr ifaces', st')"
    and "tracks stored (pop_server st) (rid device) ifaces"
  shows "tracks stored (pop_server st') (rid device) ifaces' \<and> dom ifaces' = if_name ` set specs \<union> dom ifaces
    \<and> evolves stored (\<lambda>_ _. False) (pop_server st) (pop_server st')"
  using assms(3,4)
proof (induction specs arbitrary: ifaces st)
  case (Cons spec specs)
  obtain ifs1 st1 where 1: "put_interface api device vlans spec ifaces st = (Inr ifs1, st1)"
      "afold (put_interface api device vlans) specs ifs1 st1 = (Inr ifaces', st')"
    using Cons.prems(1) by (auto simp: abind_eq_Inr)
  have p: "tracks stored (pop_server st1) (rid device) ifs1" "dom ifs1 = insert (if_name spec) (dom ifaces)"
      "evolves stored (\<lambda>_ _. False) (pop_server st) (pop_server st1)"
    using put_interface_Inr [OF S Cons.prems(2) D 1(1)] by auto
  have q: "tracks stored (pop_server st') (rid device) ifaces'" "dom ifaces' = if_name ` set specs \<union> dom ifs1"
      "evolves stored (\<lambda>_ _. False) (pop_server st1) (pop_server st')"
    using Cons.IH [OF 1(2) p(1)] by auto
  from q(1,2) p(2) evolves_trans [OF p(3) q(3)] show ?case by simp
qed simp

lemma pass4_Inr:
  assumes S: "serves_netbox api stored"
    and "aiter (ensure_ip_address api ifaces) specs st = (Inr u, st')"
    and "tracks stored (pop_server st) d ifaces"
  shows "evolves stored (\<lambda>_ _. False) (pop_server st) (pop_server st')
    \<and> (\<forall>spec \<in> set specs. owned_ip stored (pop_server st') d spec)"
  using assms(2,3)
proof (induction specs arbitrary: st)
  case (Cons spec specs)
  obtain v st1 where 1: "ensure_ip_address api ifaces spec st = (Inr v, st1)"
      "aiter (ensure_ip_address api ifaces) specs st1 = (Inr u, st')"
    using Cons.prems(1) by (auto simp: abind_eq_Inr)
  have p: "evolves stored (\<lambda>_ _. False) (pop_server st) (pop_server st1)" "owned_ip stored (pop_server st1) d spec"
    using ip_Inr [OF S Cons.prems(2) 1(1)] by auto
  have q: "evolves stored (\<lambda>_ _. False) (pop_server st1) (pop_server st')"
      "\<forall>spec \<in> set specs. owned_ip stored (pop_server st') d spec"
    using Cons.IH [OF 1(2) tracks_evolves [OF Cons.prems(2) p(1)]] by auto
  from evolves_trans [OF p(1) q(1)] q(2) owned_ip_evolves [OF p(2) q(1)] show ?case by simp
qed simp

lemma distinct_concat_disjoint:
  "distinct (concat (map f xs)) \<Longrightarrow> x \<in> set xs \<Longrightarrow> y \<in> set xs \<Longrightarrow> x \<noteq> y \<Longrightarrow> m \<in> set (f x) \<Longrightarrow> m \<notin> set (f y)"
  by (induction xs) auto

lemma wf_specs_names: "wf_specs specs \<Longrightarrow> x \<in> set specs \<Longrightarrow> y \<in> set specs \<Longrightarrow> x \<noteq> y \<Longrightarrow> if_name x \<noteq> if_name y"
  by (auto simp: wf_specs_def distinct_map dest: inj_onD)

text \<open>What pass 2 and pass 3 may change on device \<open>d\<close>: wiring, and primary MAC addresses.\<close>

abbreviation wiring_of :: "int \<Rightarrow> pydict \<Rightarrow> string \<Rightarrow> bool" where
  "wiring_of d q b \<equiv> b \<noteq> ''primary_mac_address'' \<and> (\<exists>n. q = iface_query d n)"

abbreviation primary_of :: "int \<Rightarrow> pydict \<Rightarrow> string \<Rightarrow> bool" where
  "primary_of d q b \<equiv> b = ''primary_mac_address'' \<and> (\<exists>n. q = iface_query d n)"

lemma pass2_Inr:
  assumes S: "serves_netbox api stored" and wf: "wf_specs specs"
    and T: "tracks stored (pop_server st) d ifaces"
    and run: "afold (wire_relationships api) specs ifaces st = (Inr ifaces', st')"
  shows "tracks stored (pop_server st') d ifaces' \<and> dom ifaces' = dom ifaces
    \<and> evolves stored (wiring_of d) (pop_server st) (pop_server st')
    \<and> (\<forall>spec \<in> set specs. wired stored (pop_server st') d spec \<and> set (if_lag_members spec) \<subseteq> dom ifaces
         \<and> (given (if_parent spec) \<longrightarrow> the (if_parent spec) \<in> dom ifaces))"
proof (rule pass_each [OF run T, where A = "wire_allowed d"])
  let ?F = "\<lambda>spec s. wired stored s d spec \<and> set (if_lag_members spec) \<subseteq> dom ifaces
      \<and> (given (if_parent spec) \<longrightarrow> the (if_parent spec) \<in> dom ifaces)"
  show "tracks stored (pop_server s') d acc' \<and> dom acc' = dom acc
      \<and> evolves stored (wire_allowed d x) (pop_server s) (pop_server s') \<and> ?F x (pop_server s')"
    if "tracks stored (pop_server s) d acc" "dom acc = dom ifaces" "wire_relationships api x acc s = (Inr acc', s')"
    for x acc s acc' s' using wire_Inr [OF S that(1,3)] that(2) by simp
  show "?F x t" if xy: "x \<in> set specs" "y \<in> set specs" "x \<noteq> y" and F: "?F x s"
    and ev: "evolves stored (wire_allowed d y) s t" for x y s t
  proof -
    have "wired stored t d x"
    proof (rule wired_evolves [OF _ ev])
      show "wired stored s d x" using F by simp
      show "\<not> wire_allowed d y (iface_query d m) ''lag''" if "m \<in> set (if_lag_members x)" for m
        using distinct_concat_disjoint [of if_lag_members specs x y m] wf xy that
        by (auto simp: wire_allowed_def wf_specs_def)
      show "\<not> wire_allowed d y (iface_query d (if_name x)) ''parent''"
        using wf_specs_names [OF wf xy] by (simp add: wire_allowed_def)
    qed
    with F show ?thesis by simp
  qed
qed (auto simp: wire_allowed_def)

lemma pass3_Inr:
  assumes S: "serves_netbox api stored" and wf: "wf_specs specs"
    and T: "tracks stored (pop_server st) d ifaces"
    and run: "afold (ensure_mac_address api) specs ifaces st = (Inr ifaces', st')"
  shows "tracks stored (pop_server st') d ifaces' \<and> dom ifaces' = dom ifaces
    \<and> evolves stored (primary_of d) (pop_server st) (pop_server st')
    \<and> (\<forall>spec \<in> set specs. owned_mac stored (pop_server st') d spec)"
proof (rule pass_each [OF run T,
    where A = "\<lambda>spec q b. b = ''primary_mac_address'' \<and> q = iface_query d (if_name spec)"])
  show "owned_mac stored t d x" if xy: "x \<in> set specs" "y \<in> set specs" "x \<noteq> y" and F: "owned_mac stored s d x"
    and ev: "evolves stored (\<lambda>q b. b = ''primary_mac_address'' \<and> q = iface_query d (if_name y)) s t" for x y s t
    using owned_mac_evolves [OF F ev] wf_specs_names [OF wf xy] by simp
qed (use mac_Inr [OF S] in auto)

lemma passes_evolve:
  assumes "evolves stored (wiring_of d) s1 s2" and "evolves stored (primary_of d) s2 s3"
    and "evolves stored (\<lambda>_ _. False) s3 s4"
  shows "evolves stored (\<lambda>q _. \<exists>n. q = iface_query d n) s1 s4"
proof (rule evolves_trans, rule evolves_trans)
  show "evolves stored (\<lambda>q _. \<exists>n. q = iface_query d n) s1 s2" using assms(1) by (rule evolves_mono) simp
  show "evolves stored (\<lambda>q _. \<exists>n. q = iface_query d n) s2 s3" using assms(2) by (rule evolves_mono) simp
  show "evolves stored (\<lambda>q _. \<exists>n. q = iface_query d n) s3 s4" using assms(3) by (rule evolves_mono) simp
qed

lemma tracked_stays:
  assumes "tracks stored s d ifaces" and "n \<in> dom ifaces" and "evolves stored P s t"
  shows "stored t Interfaces (iface_query d n) \<noteq> None"
proof -
  obtain r where "ifaces n = Some r" using assms(2) by blast
  from tracksE [OF assms(1) this] obtain x where x: "stored s Interfaces (iface_query d n) = Some x" by metis
  obtain y where "stored t Interfaces (iface_query d n) = Some y" by (rule evolves_kept [OF assms(3), OF x])
  then show ?thesis by simp
qed

lemma apply_interfaces_Inr:
  assumes S: "serves_netbox api stored" and D: "complete_record Devices device" and wf: "wf_specs specs"
    and run: "apply_interfaces api specs device vlans st = (Inr u, st')"
  shows "evolves stored (\<lambda>q _. \<exists>n. q = iface_query (rid device) n) (pop_server st) (pop_server st')
    \<and> placed stored (pop_server st') (rid device) specs"
proof -
  let ?d = "rid device" and ?none = "\<lambda>_ _. False" and ?all = "\<lambda>q _. \<exists>n. q = iface_query (rid device) n"
  obtain p1 st1 p2 st2 p3 st3 where
      1: "afold (put_interface api device vlans) specs (\<lambda>_. None) st = (Inr p1, st1)"
      and 2: "afold (wire_relationships api) specs p1 st1 = (Inr p2, st2)"
      and 3: "afold (ensure_mac_address api) specs p2 st2 = (Inr p3, st3)"
      and 4: "aiter (ensure_ip_address api p3) specs st3 = (Inr u, st')"
    using run by (auto simp: apply_interfaces_def abind_eq_Inr)
  have i1: "tracks stored (pop_server st1) ?d p1" "dom p1 = if_name ` set specs"
      "evolves stored ?none (pop_server st) (pop_server st1)"
    using pass1_Inr [OF S D 1] by (auto simp: tracks_def)
  have i2: "tracks stored (pop_server st2) ?d p2" "evolves stored (wiring_of ?d) (pop_server st1) (pop_server st2)"
      "\<And>spec. spec \<in> set specs \<Longrightarrow> wired stored (pop_server st2) ?d spec \<and> set (if_lag_members spec) \<subseteq> dom p1
         \<and> (given (if_parent spec) \<longrightarrow> the (if_parent spec) \<in> dom p1)"
    using pass2_Inr [OF S wf i1(1) 2] by simp_all
  have i3: "tracks stored (pop_server st3) ?d p3" "evolves stored (primary_of ?d) (pop_server st2) (pop_server st3)"
      "\<And>spec. spec \<in> set specs \<Longrightarrow> owned_mac stored (pop_server st3) ?d spec"
    using pass3_Inr [OF S wf i2(1) 3] by simp_all
  have i4: "evolves stored ?none (pop_server st3) (pop_server st')"
      "\<And>spec. spec \<in> set specs \<Longrightarrow> owned_ip stored (pop_server st') ?d spec"
    using pass4_Inr [OF S 4 i3(1)] by simp_all
  note late = passes_evolve [OF i2(2) i3(2) i4(1)]
  have "placed stored (pop_server st') ?d specs"
    unfolding placed_def
  proof
    fix spec assume spec: "spec \<in> set specs"
    have "wired stored (pop_server st3) ?d spec"
      by (rule wired_evolves [OF conjunct1 [OF i2(3) [OF spec]] i3(2)]) simp_all
    then have w: "wired stored (pop_server st') ?d spec" by (rule wired_evolves [OF _ i4(1)]) simp_all
    have m: "owned_mac stored (pop_server st') ?d spec"
      by (rule owned_mac_evolves [OF i3(3) [OF spec] i4(1)]) simp
    have "stored (pop_server st') Interfaces (iface_query ?d (if_name spec)) \<noteq> None"
      by (rule tracked_stays [OF i1(1) _ late]) (use spec i1(2) in blast)
    then show "stored (pop_server st') Interfaces (iface_query ?d (if_name spec)) \<noteq> None
       \<and> set (if_lag_members spec) \<subseteq> if_name ` set specs
       \<and> (given (if_parent spec) \<longrightarrow> the (if_parent spec) \<in> if_name ` set specs)
       \<and> wired stored (pop_server st') ?d spec \<and> owned_mac stored (pop_server st') ?d spec
       \<and> owned_ip stored (pop_server st') ?d spec"
      using w m i4(2) [OF spec] i2(3) [OF spec] i1(2) by simp
  qed
  moreover have "evolves stored ?all (pop_server st) (pop_server st')"
    using evolves_mono [OF i1(3)] late by (rule evolves_trans) simp
  ultimately show ?thesis by simp
qed



section \<open>Objects\<close>

text \<open>\<open>found stored s e q chk i\<close>: the query finds object \<open>i\<close>, which passes the conflict check.\<close>

definition found ::
  "('s \<Rightarrow> endpoint \<Rightarrow> pydict \<Rightarrow> pydict option) \<Rightarrow> 's \<Rightarrow> endpoint \<Rightarrow> pydict \<Rightarrow> (pydict \<Rightarrow> exn + unit) \<Rightarrow> int \<Rightarrow> bool" where
  "found stored s e q chk i \<longleftrightarrow> (\<exists>x. stored s e q = Some x \<and> chk x = Inr () \<and> rid x = i)"

definition stable_check :: "endpoint \<Rightarrow> (pydict \<Rightarrow> exn + unit) \<Rightarrow> bool" where
  "stable_check e chk \<longleftrightarrow> (\<forall>x y. core x y \<longrightarrow> complete_record e x \<longrightarrow> complete_record e y \<longrightarrow>
     chk x = Inr () \<longrightarrow> chk y = Inr ())"

lemma found_evolves:
  assumes S: "serves_netbox api stored" and chk: "stable_check e chk"
    and f: "found stored s e q chk i" and ev: "evolves stored P s t"
  shows "found stored t e q chk i"
proof -
  from f obtain x where x: "stored s e q = Some x" "chk x = Inr ()" "rid x = i" by (auto simp: found_def)
  obtain y where y: "stored t e q = Some y" "core x y" by (rule evolves_kept [OF ev, OF x(1)])
  have "chk y = Inr ()"
    using chk y(2) serves_complete [OF S x(1)] serves_complete [OF S y(1)] x(2)
    unfolding stable_check_def by blast
  then show ?thesis using y x(3) by (auto simp: found_def core_def)
qed

lemma ensure_found:
  assumes S: "serves_netbox api stored" and run: "ensure api kind e q chk payload st = (Inr r, st')"
    and q: "\<And>p. payload = Inr p \<Longrightarrow> query_of e p = q"
    and echo: "\<And>p x. payload = Inr p \<Longrightarrow> complete_record e x \<Longrightarrow>
      (\<forall>k \<in> set SCALARS. map_of p k \<noteq> None \<longrightarrow> dict_get x k = dict_get p k) \<Longrightarrow> chk x = Inr ()"
  shows "evolves stored (\<lambda>_ _. False) (pop_server st) (pop_server st') \<and> complete_record e r
    \<and> found stored (pop_server st') e q chk (rid r)"
proof -
  have "evolves stored (\<lambda>_ _. False) (pop_server st) (pop_server st') \<and> complete_record e r
    \<and> (\<exists>x. stored (pop_server st') e q = Some x \<and> rid x = rid r \<and> (\<forall>a \<in> set REFS. ref a x = ref a r)
        \<and> chk x = Inr ())"
    by (rule ensure_ok [OF S run]) (fact q, rule echo)
  then show ?thesis unfolding found_def by blast
qed

definition vlan_query :: "vlan_spec \<Rightarrow> int \<Rightarrow> pydict" where
  "vlan_query v sid = [(''vid'', PyInt (vs_vid v)), (''site_id'', PyInt sid)]"

definition vlan_check :: "vlan_spec \<Rightarrow> pydict \<Rightarrow> exn + unit" where
  "vlan_check v = check_name ''vlan'' (''vid='' @ str_int (vs_vid v)) (vs_name v)"

definition device_check :: "host_fixture \<Rightarrow> pydict \<Rightarrow> exn + unit" where
  "device_check fx = check_name ''device'' (fx_asset_tag fx) (fx_hostname fx)"

definition device_query :: "host_fixture \<Rightarrow> pydict" where
  "device_query fx = [(''asset_tag'', PyStr (fx_asset_tag fx))]"

definition objects_in_place ::
  "('s \<Rightarrow> endpoint \<Rightarrow> pydict \<Rightarrow> pydict option) \<Rightarrow> 's \<Rightarrow> host_fixture \<Rightarrow> int \<Rightarrow> bool" where
  "objects_in_place stored s fx d \<longleftrightarrow> (\<exists>sid mid tid gid.
     found stored s Sites [(''slug'', PyStr (fx_site fx))] no_check sid
     \<and> found stored s Manufacturers [(''slug'', PyStr (slugify (dt_manufacturer (fx_device_type fx))))] no_check mid
     \<and> found stored s DeviceTypes [(''slug'', PyStr (dt_slug (fx_device_type fx)))]
         (check_u_height (fx_device_type fx)) tid
     \<and> found stored s DeviceRoles [(''slug'', PyStr (fx_device_role fx))] no_check gid
     \<and> (\<forall>v \<in> set (fx_vlans fx). \<exists>i. found stored s Vlans (vlan_query v sid) (vlan_check v) i)
     \<and> found stored s Devices (device_query fx) (device_check fx) d)"

lemma check_stable [simp]:
  "stable_check e no_check" "stable_check e (check_u_height dt)"
  "stable_check Vlans (vlan_check v)" "stable_check Devices (device_check fx)"
  unfolding stable_check_def vlan_check_def device_check_def
  using check_name_core check_u_height_core by (blast | simp add: no_check_def)+

lemmas found_keeps = found_evolves [OF _ check_stable(1)] found_evolves [OF _ check_stable(2)]
  found_evolves [OF _ check_stable(3)] found_evolves [OF _ check_stable(4)]

lemma objects_evolves:
  assumes S: "serves_netbox api stored" and "objects_in_place stored s fx d" and "evolves stored P s t"
  shows "objects_in_place stored t fx d"
  proof -
  note keep = found_keeps [OF S _ assms(3)]
  obtain sid mid tid gid where
    f: "found stored s Sites [(''slug'', PyStr (fx_site fx))] no_check sid"
      "found stored s Manufacturers [(''slug'', PyStr (slugify (dt_manufacturer (fx_device_type fx))))] no_check mid"
      "found stored s DeviceTypes [(''slug'', PyStr (dt_slug (fx_device_type fx)))]
         (check_u_height (fx_device_type fx)) tid"
      "found stored s DeviceRoles [(''slug'', PyStr (fx_device_role fx))] no_check gid"
      "found stored s Devices (device_query fx) (device_check fx) d"
    and v: "\<forall>v \<in> set (fx_vlans fx). \<exists>i. found stored s Vlans (vlan_query v sid) (vlan_check v) i"
    using assms(2) unfolding objects_in_place_def by blast
  have "\<forall>v \<in> set (fx_vlans fx). \<exists>i. found stored t Vlans (vlan_query v sid) (vlan_check v) i"
    using v keep(3) by blast
  with keep(1) [OF f(1)] keep(1) [OF f(2)] keep(2) [OF f(3)] keep(1) [OF f(4)] keep(4) [OF f(5)]
  show ?thesis unfolding objects_in_place_def by blast
qed

lemma put_vlan_Inr:
  assumes S: "serves_netbox api stored" and site: "complete_record Sites site"
    and run: "put_vlan api site v vlans st = (Inr vlans', st')"
  shows "evolves stored (\<lambda>_ _. False) (pop_server st) (pop_server st')
    \<and> (\<exists>i. found stored (pop_server st') Vlans (vlan_query v (rid site)) (vlan_check v) i)"
proof -
  let ?p = "[(''vid'', PyInt (vs_vid v)), (''name'', PyStr (vs_name v)), (''site'', PyInt (rid site))]"
  obtain r where r: "ensure api ''vlan'' Vlans (vlan_query v (rid site)) (vlan_check v) (Inr ?p) st = (Inr r, st')"
    using run complete_id [OF site]
    by (auto simp: put_vlan_def ensure_vlan_def vlan_query_def vlan_check_def abind_eq_Inr)
  have "evolves stored (\<lambda>_ _. False) (pop_server st) (pop_server st') \<and> complete_record Vlans r
      \<and> found stored (pop_server st') Vlans (vlan_query v (rid site)) (vlan_check v) (rid r)"
    by (rule ensure_found [OF S r])
       (auto simp: query_of_def vlan_query_def vlan_check_def dict_get_def SCALARS_def check_name_ok)
  then show ?thesis by blast
qed

lemma put_vlans_Inr:
  assumes S: "serves_netbox api stored" and site: "complete_record Sites site"
    and "afold (put_vlan api site) vs vlans st = (Inr vlans', st')"
  shows "evolves stored (\<lambda>_ _. False) (pop_server st) (pop_server st')
    \<and> (\<forall>v \<in> set vs. \<exists>i. found stored (pop_server st') Vlans (vlan_query v (rid site)) (vlan_check v) i)"
  using assms(3)
proof (induction vs arbitrary: vlans st)
  case (Cons v vs)
  obtain a st1 where 1: "put_vlan api site v vlans st = (Inr a, st1)"
      "afold (put_vlan api site) vs a st1 = (Inr vlans', st')"
    using Cons.prems by (auto simp: abind_eq_Inr)
  have p: "evolves stored (\<lambda>_ _. False) (pop_server st) (pop_server st1)"
      "\<exists>i. found stored (pop_server st1) Vlans (vlan_query v (rid site)) (vlan_check v) i"
    using put_vlan_Inr [OF S site 1(1)] by auto
  have q: "evolves stored (\<lambda>_ _. False) (pop_server st1) (pop_server st')"
      "\<forall>v \<in> set vs. \<exists>i. found stored (pop_server st') Vlans (vlan_query v (rid site)) (vlan_check v) i"
    using Cons.IH [OF 1(2)] by auto
  have "\<exists>i. found stored (pop_server st') Vlans (vlan_query v (rid site)) (vlan_check v) i"
    using p(2) found_keeps(3) [OF S _ q(1)] by blast
  with q(2) evolves_trans [OF p(1) q(1)] show ?case by simp
qed simp


lemma slug_found:
  assumes S: "serves_netbox api stored" and e: "e = Sites \<or> e = Manufacturers \<or> e = DeviceRoles"
    and run: "ensure api kind e [(''slug'', PyStr slug)] no_check (Inr [(''name'', v), (''slug'', PyStr slug)]) st
      = (Inr r, st')"
  shows "evolves stored (\<lambda>_ _. False) (pop_server st) (pop_server st') \<and> complete_record e r
    \<and> found stored (pop_server st') e [(''slug'', PyStr slug)] no_check (rid r)"
  by (rule ensure_found [OF S run]) (use e in \<open>auto simp: query_of_def dict_get_def no_check_def\<close>)

lemma device_type_found:
  assumes S: "serves_netbox api stored" and run: "ensure_device_type api dt m st = (Inr r, st')"
  shows "evolves stored (\<lambda>_ _. False) (pop_server st) (pop_server st') \<and> complete_record DeviceTypes r
    \<and> found stored (pop_server st') DeviceTypes [(''slug'', PyStr (dt_slug dt))] (check_u_height dt) (rid r)"
  by (rule ensure_found [OF S run [unfolded ensure_device_type_def]])
     (auto simp: rbind_eq_Inr query_of_def dict_get_def SCALARS_def check_u_height_def py_num_def)

lemma device_found:
  assumes S: "serves_netbox api stored" and run: "ensure_device api fx site dt g st = (Inr r, st')"
  shows "evolves stored (\<lambda>_ _. False) (pop_server st) (pop_server st') \<and> complete_record Devices r
    \<and> found stored (pop_server st') Devices (device_query fx) (device_check fx) (rid r)"
  by (rule ensure_found [OF S run [unfolded ensure_device_def, folded device_query_def device_check_def]])
     (auto simp: device_payload_def rbind_eq_Inr query_of_def dict_get_def SCALARS_def device_query_def
        device_check_def check_name_ok)

lemma apply_objects_Inr:
  assumes S: "serves_netbox api stored" and run: "apply_objects api fx st = (Inr (device, vlans), st')"
  shows "evolves stored (\<lambda>_ _. False) (pop_server st) (pop_server st') \<and> complete_record Devices device
    \<and> objects_in_place stored (pop_server st') fx (rid device)"
proof -
  let ?ev = "\<lambda>s t. evolves stored (\<lambda>_ _. False) (pop_server s) (pop_server t)"
  obtain site s1 m s2 dt s3 g s4 s5 where
      1: "ensure_site api (fx_site fx) st = (Inr site, s1)"
      and 2: "ensure_manufacturer api (dt_manufacturer (fx_device_type fx)) s1 = (Inr m, s2)"
      and 3: "ensure_device_type api (fx_device_type fx) m s2 = (Inr dt, s3)"
      and 4: "ensure_device_role api (fx_device_role fx) s3 = (Inr g, s4)"
      and 5: "afold (put_vlan api site) (fx_vlans fx) (\<lambda>_. None) s4 = (Inr vlans, s5)"
      and 6: "ensure_device api fx site dt g s5 = (Inr device, st')"
    using run by (auto simp: apply_objects_def abind_eq_Inr)
  note e1 = slug_found [OF S _ 1 [unfolded ensure_site_def], simplified]
  note e2 = slug_found [OF S _ 2 [unfolded ensure_manufacturer_def Let_def], simplified]
  note e3 = device_type_found [OF S 3]
  note e4 = slug_found [OF S _ 4 [unfolded ensure_device_role_def], simplified]
  note e5 = put_vlans_Inr [OF S conjunct1 [OF conjunct2 [OF e1]] 5]
  note e6 = device_found [OF S 6]
  have k5: "?ev s5 st'" using e6 by simp
  have k4: "?ev s4 st'" by (rule evolves_trans [OF conjunct1 [OF e5] k5])
  have k3: "?ev s3 st'" by (rule evolves_trans [OF conjunct1 [OF e4] k4])
  have k2: "?ev s2 st'" by (rule evolves_trans [OF conjunct1 [OF e3] k3])
  have k1: "?ev s1 st'" by (rule evolves_trans [OF conjunct1 [OF e2] k2])
  have k0: "?ev st st'" by (rule evolves_trans [OF conjunct1 [OF e1] k1])
  have "\<forall>v \<in> set (fx_vlans fx). \<exists>i. found stored (pop_server st') Vlans (vlan_query v (rid site)) (vlan_check v) i"
    using e5 found_keeps(3) [OF S _ k5] by blast
  moreover have "found stored (pop_server st') Sites [(''slug'', PyStr (fx_site fx))] no_check (rid site)"
    using e1 found_keeps(1) [OF S _ k1] by simp
  moreover have "found stored (pop_server st') Manufacturers
      [(''slug'', PyStr (slugify (dt_manufacturer (fx_device_type fx))))] no_check (rid m)"
    using e2 found_keeps(1) [OF S _ k2] by simp
  moreover have "found stored (pop_server st') DeviceTypes
      [(''slug'', PyStr (dt_slug (fx_device_type fx)))] (check_u_height (fx_device_type fx)) (rid dt)"
    using e3 found_keeps(2) [OF S _ k3] by simp
  moreover have "found stored (pop_server st') DeviceRoles [(''slug'', PyStr (fx_device_role fx))] no_check (rid g)"
    using e4 found_keeps(1) [OF S _ k4] by simp
  ultimately show ?thesis using k0 e6 unfolding objects_in_place_def by blast
qed

text \<open>A fixture is settled when its objects and the interfaces of its device are in place.\<close>

definition settled ::
  "('s \<Rightarrow> endpoint \<Rightarrow> pydict \<Rightarrow> pydict option) \<Rightarrow> 's \<Rightarrow> host_fixture \<Rightarrow> bool" where
  "settled stored s fx \<longleftrightarrow> (\<exists>d. objects_in_place stored s fx d \<and> placed stored s d (fx_interfaces fx))"

lemma apply_one_Inr:
  assumes S: "serves_netbox api stored" and wf: "wf_specs (fx_interfaces fx)"
    and run: "apply_one api fx st = (Inr u, st')"
  shows "settled stored (pop_server st') fx \<and> (\<exists>d. objects_in_place stored (pop_server st') fx d
    \<and> evolves stored (\<lambda>q _. \<exists>n. q = iface_query d n) (pop_server st) (pop_server st'))"
proof -
  obtain device vlans st1 where 1: "apply_objects api fx st = (Inr (device, vlans), st1)"
      "apply_interfaces api (fx_interfaces fx) device vlans st1 = (Inr u, st')"
    using run by (auto simp: apply_one_def abind_eq_Inr)
  note o = apply_objects_Inr [OF S 1(1)]
  note i = apply_interfaces_Inr [OF S conjunct1 [OF conjunct2 [OF o]] wf 1(2)]
  have "objects_in_place stored (pop_server st') fx (rid device)"
    using objects_evolves [OF S _ conjunct1 [OF i]] o by simp
  moreover have "evolves stored (\<lambda>q _. \<exists>n. q = iface_query (rid device) n) (pop_server st) (pop_server st')"
    using evolves_mono [OF conjunct1 [OF o]] conjunct1 [OF i] by (rule evolves_trans) simp
  ultimately show ?thesis using i unfolding settled_def by blast
qed

lemma device_of_fixture:
  assumes S: "serves_netbox api stored" and "objects_in_place stored s fx d" and "objects_in_place stored s fx' d"
  shows "fx_asset_tag fx = fx_asset_tag fx'"
proof -
  obtain x y where "stored s Devices (device_query fx) = Some x" "stored s Devices (device_query fx') = Some y"
      "rid x = rid y"
    using assms(2,3) by (auto simp: objects_in_place_def found_def)
  from serves_ids [OF S _ this] show ?thesis by (simp add: device_query_def)
qed

text \<open>Applying another host's fixture leaves a settled one settled.\<close>

lemma settled_kept:
  assumes S: "serves_netbox api stored" and wf: "wf_specs (fx_interfaces fx')"
    and "settled stored (pop_server st) fx" and run: "apply_one api fx' st = (Inr u, st')"
    and tags: "fx_asset_tag fx \<noteq> fx_asset_tag fx'"
  shows "settled stored (pop_server st') fx"
proof -
  obtain d where d: "objects_in_place stored (pop_server st) fx d" "placed stored (pop_server st) d (fx_interfaces fx)"
    using assms(3) by (auto simp: settled_def)
  obtain d' where d': "objects_in_place stored (pop_server st') fx' d'"
      "evolves stored (\<lambda>q _. \<exists>n. q = iface_query d' n) (pop_server st) (pop_server st')"
    using apply_one_Inr [OF S wf run] by blast
  have o: "objects_in_place stored (pop_server st') fx d" by (rule objects_evolves [OF S d(1) d'(2)])
  have "d \<noteq> d'" using device_of_fixture [OF S o] d'(1) tags by blast
  then have "placed stored (pop_server st') d (fx_interfaces fx)"
    by (intro placed_evolves [OF d(2) d'(2)]) simp
  with o show ?thesis by (auto simp: settled_def)
qed



section \<open>The second run\<close>

text \<open>
  \<open>quietly m Q st\<close>: \<open>m\<close> succeeds with a result satisfying \<open>Q\<close>, leaves the server alone and
  counts nothing as created.
\<close>

definition quiet :: "'s pop_state \<Rightarrow> 's pop_state \<Rightarrow> bool" where
  "quiet st st' \<longleftrightarrow> pop_server st' = pop_server st
     \<and> pop_created (pop_report st') = pop_created (pop_report st)"

definition quietly :: "('s pop_state, exn, 'a) act \<Rightarrow> ('a \<Rightarrow> bool) \<Rightarrow> 's pop_state \<Rightarrow> bool" where
  "quietly m Q st \<longleftrightarrow> (\<exists>x st'. m st = (Inr x, st') \<and> quiet st st' \<and> Q x)"

lemma quietly_aret: "Q x \<Longrightarrow> quietly (aret x) Q st"
  by (auto simp: quietly_def quiet_def)

lemma quietly_alift: "r = Inr x \<Longrightarrow> Q x \<Longrightarrow> quietly (alift r) Q st"
  by (auto simp: quietly_def quiet_def)

lemma quietly_skipped: "quietly (note_skipped kind) (\<lambda>_. True) st"
  by (auto simp: quietly_def quiet_def note_skipped_def add_skipped_def)

lemma quietly_abind:
  assumes "quietly m Q st"
    and "\<And>x st'. pop_server st' = pop_server st \<Longrightarrow> Q x \<Longrightarrow> quietly (f x) R st'"
  shows "quietly (abind m f) R st"
proof -
  obtain x st' where 1: "m st = (Inr x, st')" "quiet st st'" "Q x" using assms(1) by (auto simp: quietly_def)
  then obtain y st'' where 2: "f x st' = (Inr y, st'')" "quiet st' st''" "R y"
    using assms(2) [of st' x] by (auto simp: quietly_def quiet_def)
  have "abind m f st = (Inr y, st'')" using 1(1) 2(1) by (simp add: abind_def)
  moreover have "quiet st st''" using 1(2) 2(2) by (simp add: quiet_def)
  ultimately show ?thesis using 2(3) unfolding quietly_def by blast
qed

lemma quietly_after_lift: "r = Inr x \<Longrightarrow> quietly (f x) R st \<Longrightarrow> quietly (abind (alift r) f) R st"
  by (simp add: quietly_def abind_def)

lemma quietly_mono: "quietly m Q st \<Longrightarrow> (\<And>x. Q x \<Longrightarrow> R x) \<Longrightarrow> quietly m R st"
  by (auto simp: quietly_def)

lemma quietly_afold:
  fixes st :: "'s pop_state"
  assumes "\<And>x st. x \<in> set xs \<Longrightarrow> pop_server st = s \<Longrightarrow> quietly (f x acc) (\<lambda>a. a = acc) st" and "pop_server st = s"
  shows "quietly (afold f xs acc) (\<lambda>a. a = acc) st"
  using assms
proof (induction xs arbitrary: st)
  case (Cons x xs)
  have "quietly (f x acc) (\<lambda>a. a = acc) st" using Cons.prems by simp
  then show ?case
    unfolding afold.simps
  proof (rule quietly_abind)
    fix a and st' :: "'s pop_state" assume "pop_server st' = pop_server st" "a = acc"
    then show "quietly (afold f xs a) (\<lambda>a. a = acc) st'" using Cons by simp
  qed
qed (simp add: quietly_aret)

lemma quietly_aiter:
  assumes "\<And>x st. x \<in> set xs \<Longrightarrow> pop_server st = s \<Longrightarrow> quietly (f x) (\<lambda>_. True) st" and "pop_server st = s"
  shows "quietly (aiter f xs) (\<lambda>_. True) st"
  unfolding aiter_afold
  using quietly_afold [of xs s "\<lambda>x _. f x" "()" st] assms by (auto intro: quietly_mono)

lemma quietly_ensure:
  assumes S: "serves_netbox api stored" and f: "found stored (pop_server st) e q chk i"
  shows "quietly (ensure api kind e q chk payload)
    (\<lambda>r. stored (pop_server st) e q = Some r \<and> rid r = i \<and> complete_record e r) st"
proof -
  obtain x where x: "stored (pop_server st) e q = Some x" "chk x = Inr ()" "rid x = i"
    using f by (auto simp: found_def)
  have "quietly (abind (alift (chk x)) (\<lambda>_. abind (note_skipped kind) (\<lambda>_. aret x))) (\<lambda>r. r = x) st"
    by (rule quietly_after_lift [OF x(2)], rule quietly_abind [OF quietly_skipped]) (simp add: quietly_aret)
  then show ?thesis
    using x serves_get [OF S] serves_complete [OF S x(1)]
    by (simp add: quietly_def ensure_def on_server_def abind_def)
qed

lemma quietly_point_to:
  assumes S: "serves_netbox api stored" and a: "a \<in> set REFS"
    and l: "ifaces n = stored (pop_server st) Interfaces (iface_query d n)"
    and p: "points stored (pop_server st) d n a i"
  shows "quietly (point_to api kind n a (PyInt i) ifaces) (\<lambda>ifs. ifs = ifaces) st"
proof -
  obtain r where r: "ifaces n = Some r" "ref a r = PyInt i" "complete_record Interfaces r"
    using p l serves_complete [OF S] by (auto simp: points_def)
  have "quietly (abind (note_skipped kind) (\<lambda>_. aret ifaces)) (\<lambda>ifs. ifs = ifaces) st"
    by (rule quietly_abind [OF quietly_skipped]) (simp add: quietly_aret)
  then show ?thesis
    using r complete_ref [OF r(3) a]
    by (simp add: point_to_def local_iface_def ref_def quietly_after_lift py_num_def)
qed

text \<open>The local records of a second run: what the server stores for the names of the fixture.\<close>

definition fetched ::
  "('s \<Rightarrow> endpoint \<Rightarrow> pydict \<Rightarrow> pydict option) \<Rightarrow> 's \<Rightarrow> int \<Rightarrow> string set \<Rightarrow> iface_map" where
  "fetched stored s d names n = (if n \<in> names then stored s Interfaces (iface_query d n) else None)"

lemma quietly_local_id:
  assumes S: "serves_netbox api stored" and x: "stored s Interfaces (iface_query d m) = Some x" and m: "m \<in> names"
    and f: "quietly (f (PyInt (rid x))) R st"
  shows "quietly (abind (alift (rbind (local_iface (fetched stored s d names) m) (\<lambda>r. attr r ''id''))) f) R st"
proof (rule quietly_after_lift)
  show "rbind (local_iface (fetched stored s d names) m) (\<lambda>r. attr r ''id'') = Inr (PyInt (rid x))"
    using x m complete_id [OF serves_complete [OF S x]] by (simp add: local_iface_def fetched_def)
qed (fact f)

lemma quietly_refer:
  assumes S: "serves_netbox api stored" and a: "a \<in> set REFS" and "pop_server st = s"
    and "n \<in> names" and "m \<in> names" and p: "refers stored s d n a m"
  shows "quietly (abind (alift (rbind (local_iface (fetched stored s d names) m) (\<lambda>r. attr r ''id''))) (\<lambda>i.
      point_to api kind n a i (fetched stored s d names))) (\<lambda>ifs. ifs = fetched stored s d names) st"
proof -
  obtain x where x: "stored s Interfaces (iface_query d m) = Some x" "points stored s d n a (rid x)"
    using p by (auto simp: refers_def)
  show ?thesis
    by (rule quietly_local_id [OF S x(1) assms(5)], rule quietly_point_to [OF S a])
       (use assms(3,4) x(2) in \<open>simp_all add: fetched_def\<close>)
qed


lemma quietly_put_interface:
  assumes S: "serves_netbox api stored" and D: "complete_record Devices device"
    and x: "stored (pop_server st) Interfaces (iface_query (rid device) (if_name spec)) \<noteq> None"
  shows "quietly (put_interface api device vlans spec ifaces)
    (\<lambda>ifs. ifs = ifaces(if_name spec := stored (pop_server st) Interfaces (iface_query (rid device) (if_name spec)))) st"
proof -
  obtain i where "found stored (pop_server st) Interfaces (iface_query (rid device) (if_name spec)) no_check i"
    using x by (auto simp: found_def no_check_def)
  from quietly_ensure [OF S this, where kind = "''interface''"
      and payload = "interface_payload spec (PyInt (rid device)) vlans"]
  show ?thesis
    using complete_id [OF D] unfolding put_interface_def ensure_interface_def iface_query_def
    by (simp add: quietly_def abind_def) fastforce
qed

lemma quietly_pass1:
  fixes st :: "'s pop_state"
  assumes S: "serves_netbox api stored" and D: "complete_record Devices device" and "pop_server st = s"
    and "\<And>spec. spec \<in> set specs \<Longrightarrow> stored s Interfaces (iface_query (rid device) (if_name spec)) \<noteq> None"
  shows "quietly (afold (put_interface api device vlans) specs ifaces) (\<lambda>ifs. ifs = (\<lambda>n.
      if n \<in> if_name ` set specs then stored s Interfaces (iface_query (rid device) n) else ifaces n)) st"
  using assms(3,4)
proof (induction specs arbitrary: ifaces st)
  case (Cons spec specs)
  have "quietly (put_interface api device vlans spec ifaces)
      (\<lambda>ifs. ifs = ifaces(if_name spec := stored s Interfaces (iface_query (rid device) (if_name spec)))) st"
    using quietly_put_interface [OF S D, of st spec vlans ifaces] Cons.prems by simp
  then show ?case
    unfolding afold.simps
  proof (rule quietly_abind)
    fix a and st' :: "'s pop_state"
    assume a: "pop_server st' = pop_server st"
      "a = ifaces(if_name spec := stored s Interfaces (iface_query (rid device) (if_name spec)))"
    have "quietly (afold (put_interface api device vlans) specs a) (\<lambda>ifs. ifs = (\<lambda>n.
      if n \<in> if_name ` set specs then stored s Interfaces (iface_query (rid device) n) else a n)) st'"
      using Cons.IH [of st' a] Cons.prems a(1) by simp
    then show "quietly (afold (put_interface api device vlans) specs a) (\<lambda>ifs. ifs = (\<lambda>n.
      if n \<in> if_name ` set (spec # specs) then stored s Interfaces (iface_query (rid device) n) else ifaces n)) st'"
      by (rule quietly_mono) (auto simp: a(2) fun_eq_iff)
  qed
qed (simp add: quietly_aret)

lemma quietly_wire:
  fixes st :: "'s pop_state"
  assumes S: "serves_netbox api stored" and st: "pop_server st = s" and w: "wired stored s d spec"
    and names: "if_name spec \<in> names" "set (if_lag_members spec) \<subseteq> names"
      "given (if_parent spec) \<longrightarrow> the (if_parent spec) \<in> names"
  shows "quietly (wire_relationships api spec (fetched stored s d names)) (\<lambda>ifs. ifs = fetched stored s d names) st"
  unfolding wire_relationships_def
proof (rule quietly_abind)
  show "quietly (afold (wire_member api spec) (if_lag_members spec) (fetched stored s d names))
      (\<lambda>ifs. ifs = fetched stored s d names) st"
  proof (rule quietly_afold [OF _ st])
    fix m and t :: "'s pop_state" assume m: "m \<in> set (if_lag_members spec)" and t: "pop_server t = s"
    then show "quietly (wire_member api spec m (fetched stored s d names)) (\<lambda>a. a = fetched stored s d names) t"
      unfolding wire_member_def using w names
      by (intro quietly_refer [OF S _ t]) (auto simp: wired_def REFS_def)
  qed
  fix a and t :: "'s pop_state" assume "pop_server t = pop_server st" "a = fetched stored s d names"
  then show "quietly (wire_parent api spec a) (\<lambda>ifs. ifs = fetched stored s d names) t"
    using quietly_refer [OF S _ _ names(1), of "''parent''" t s "the (if_parent spec)" d] w st names(3)
    by (auto simp: wire_parent_def wired_def REFS_def quietly_aret)
qed

lemma quietly_mac:
  fixes st :: "'s pop_state"
  assumes S: "serves_netbox api stored" and st: "pop_server st = s" and w: "owned_mac stored s d spec"
    and n: "if_name spec \<in> names"
  shows "quietly (ensure_mac_address api spec (fetched stored s d names)) (\<lambda>ifs. ifs = fetched stored s d names) st"
proof (cases "given (if_mac spec)")
  case True
  let ?q = "[(''mac_address'', PyStr (the (if_mac spec)))]" and ?ifs = "fetched stored s d names"
  obtain x y where x: "stored s Interfaces (iface_query d (if_name spec)) = Some x"
      and y: "stored s MacAddresses ?q = Some y" "check_mac_owner (the (if_mac spec)) (PyInt (rid x)) y = Inr ()"
        "points stored s d (if_name spec) ''primary_mac_address'' (rid y)"
    using w True by (auto simp: owned_mac_def)
  have f: "found stored (pop_server st) MacAddresses ?q (check_mac_owner (the (if_mac spec)) (PyInt (rid x))) (rid y)"
    using y st by (simp add: found_def)
  have "quietly (abind (alift (attr r ''id'')) (\<lambda>i. point_to api ''primary_mac_assignment'' (if_name spec)
      ''primary_mac_address'' i ?ifs)) (\<lambda>ifs. ifs = ?ifs) t"
    if "pop_server t = pop_server st" "rid r = rid y" "complete_record MacAddresses r" for r and t :: "'s pop_state"
  proof (rule quietly_after_lift)
    show "attr r ''id'' = Inr (PyInt (rid y))" using complete_id [OF that(3)] that(2) by simp
    show "quietly (point_to api ''primary_mac_assignment'' (if_name spec) ''primary_mac_address'' (PyInt (rid y)) ?ifs)
        (\<lambda>ifs. ifs = ?ifs) t"
      by (rule quietly_point_to [OF S, where d = d]) (use y(3) that(1) st n in \<open>simp_all add: REFS_def fetched_def\<close>)
  qed
  then show ?thesis
    unfolding ensure_mac_address_def if_P [OF True] Let_def
    by (intro quietly_local_id [OF S x n] quietly_abind [OF quietly_ensure [OF S f]]) auto
qed (simp add: ensure_mac_address_def quietly_aret)

lemma quietly_ip:
  fixes st :: "'s pop_state"
  assumes S: "serves_netbox api stored" and st: "pop_server st = s" and w: "owned_ip stored s d spec"
    and n: "if_name spec \<in> names"
  shows "quietly (ensure_ip_address api (fetched stored s d names) spec) (\<lambda>_. True) st"
proof (cases "given (if_ip spec)")
  case True
  let ?q = "[(''address'', PyStr (the (if_ip spec)))]"
  obtain x y where x: "stored s Interfaces (iface_query d (if_name spec)) = Some x"
      and y: "stored s IpAddresses ?q = Some y" "check_ip_owner (the (if_ip spec)) (PyInt (rid x)) y = Inr ()"
    using w True by (auto simp: owned_ip_def)
  have f: "found stored (pop_server st) IpAddresses ?q (check_ip_owner (the (if_ip spec)) (PyInt (rid x))) (rid y)"
    using y st by (simp add: found_def)
  show ?thesis
    unfolding ensure_ip_address_def if_P [OF True] Let_def
    by (intro quietly_local_id [OF S x n] quietly_abind [OF quietly_ensure [OF S f]]) (simp add: quietly_aret)
qed (simp add: ensure_ip_address_def quietly_aret)


lemma quietly_interfaces:
  fixes st :: "'s pop_state"
  assumes S: "serves_netbox api stored" and D: "complete_record Devices device" and st: "pop_server st = s"
    and p: "placed stored s (rid device) specs"
  shows "quietly (apply_interfaces api specs device vlans) (\<lambda>_. True) st"
  unfolding apply_interfaces_def
proof (rule quietly_abind)
  let ?ifs = "fetched stored s (rid device) (if_name ` set specs)"
  have "quietly (afold (put_interface api device vlans) specs (\<lambda>_. None)) (\<lambda>ifs. ifs = (\<lambda>n.
      if n \<in> if_name ` set specs then stored s Interfaces (iface_query (rid device) n) else None)) st"
    by (rule quietly_pass1 [OF S D st]) (use p in \<open>simp add: placed_def\<close>)
  then show "quietly (afold (put_interface api device vlans) specs (\<lambda>_. None)) (\<lambda>ifs. ifs = ?ifs) st"
    by (rule quietly_mono) (simp add: fetched_def fun_eq_iff)
  fix pass1 and t :: "'s pop_state" assume t: "pop_server t = pop_server st" "pass1 = ?ifs"
  have w: "quietly (wire_relationships api spec ?ifs) (\<lambda>ifs. ifs = ?ifs) u"
    if "spec \<in> set specs" "pop_server u = s" for spec and u :: "'s pop_state"
    using p that by (intro quietly_wire [OF S that(2)]) (auto simp: placed_def)
  have m: "quietly (ensure_mac_address api spec ?ifs) (\<lambda>ifs. ifs = ?ifs) u"
    if "spec \<in> set specs" "pop_server u = s" for spec and u :: "'s pop_state"
    using p that by (intro quietly_mac [OF S that(2)]) (auto simp: placed_def)
  have i: "quietly (ensure_ip_address api ?ifs spec) (\<lambda>_. True) u"
    if "spec \<in> set specs" "pop_server u = s" for spec and u :: "'s pop_state"
    using p that by (intro quietly_ip [OF S that(2)]) (auto simp: placed_def)
  have w2: "quietly (afold (wire_relationships api) specs ?ifs) (\<lambda>ifs. ifs = ?ifs) u" if "pop_server u = s"
    for u :: "'s pop_state" by (rule quietly_afold [OF _ that]) (rule w)
  have m2: "quietly (afold (ensure_mac_address api) specs ?ifs) (\<lambda>ifs. ifs = ?ifs) u" if "pop_server u = s"
    for u :: "'s pop_state" by (rule quietly_afold [OF _ that]) (rule m)
  have i2: "quietly (aiter (ensure_ip_address api ?ifs) specs) (\<lambda>_. True) u" if "pop_server u = s"
    for u :: "'s pop_state" by (rule quietly_aiter [OF _ that]) (rule i)
  have rest: "quietly (abind (afold (ensure_mac_address api) specs ?ifs) (\<lambda>pass3.
      aiter (ensure_ip_address api pass3) specs)) (\<lambda>_. True) u" if "pop_server u = s" for u :: "'s pop_state"
    by (rule quietly_abind [OF m2 [OF that]]) (simp add: i2 that)
  show "quietly (abind (afold (wire_relationships api) specs pass1) (\<lambda>pass2.
      abind (afold (ensure_mac_address api) specs pass2) (\<lambda>pass3.
      aiter (ensure_ip_address api pass3) specs))) (\<lambda>_. True) t"
    unfolding t(2) by (rule quietly_abind [OF w2]) (use t(1) st rest in simp_all)
qed

lemma ensure_again:
  assumes S: "serves_netbox api stored" and f: "found stored (pop_server st) e q chk i"
  obtains r t where "ensure api kind e q chk payload st = (Inr r, t)" "pop_server t = pop_server st" "quiet st t"
    "rid r = i" "complete_record e r"
  using quietly_ensure [OF S f] unfolding quietly_def quiet_def by blast

lemma quietly_vlans:
  fixes st :: "'s pop_state"
  assumes S: "serves_netbox api stored" and site: "complete_record Sites site"
    and "\<And>v. v \<in> set vs \<Longrightarrow> \<exists>i. found stored s Vlans (vlan_query v (rid site)) (vlan_check v) i"
    and "pop_server st = s"
  shows "quietly (afold (put_vlan api site) vs vlans) (\<lambda>_. True) st"
  using assms(3,4)
proof (induction vs arbitrary: vlans st)
  case (Cons v vs)
  obtain i where f: "found stored (pop_server st) Vlans (vlan_query v (rid site)) (vlan_check v) i"
    using Cons.prems by auto
  have "quietly (put_vlan api site v vlans) (\<lambda>_. True) st"
    unfolding put_vlan_def
  proof (rule quietly_abind [of _ "\<lambda>_. True"])
    show "quietly (ensure_vlan api v site) (\<lambda>_. True) st"
      unfolding ensure_vlan_def vlan_query_def [symmetric] vlan_check_def [symmetric]
      by (rule quietly_after_lift [OF complete_id [OF site]], fold vlan_query_def vlan_check_def,
          rule quietly_mono [OF quietly_ensure [OF S f]]) simp
  qed (simp add: quietly_aret)
  then show ?case
    unfolding afold.simps
  proof (rule quietly_abind)
    fix a and t :: "'s pop_state" assume "pop_server t = pop_server st"
    then show "quietly (afold (put_vlan api site) vs a) (\<lambda>_. True) t" using Cons by simp
  qed
qed (simp add: quietly_aret)

lemma quietly_objects:
  fixes st :: "'s pop_state"
  assumes S: "serves_netbox api stored" and o: "objects_in_place stored (pop_server st) fx d"
  shows "quietly (apply_objects api fx) (\<lambda>(device, _). complete_record Devices device \<and> rid device = d) st"
proof -
  let ?s = "pop_server st"
  obtain sid mid tid gid where
    f: "found stored ?s Sites [(''slug'', PyStr (fx_site fx))] no_check sid"
      "found stored ?s Manufacturers [(''slug'', PyStr (slugify (dt_manufacturer (fx_device_type fx))))] no_check mid"
      "found stored ?s DeviceTypes [(''slug'', PyStr (dt_slug (fx_device_type fx)))]
         (check_u_height (fx_device_type fx)) tid"
      "found stored ?s DeviceRoles [(''slug'', PyStr (fx_device_role fx))] no_check gid"
      "found stored ?s Devices (device_query fx) (device_check fx) d"
    and v: "\<And>v. v \<in> set (fx_vlans fx) \<Longrightarrow> \<exists>i. found stored ?s Vlans (vlan_query v sid) (vlan_check v) i"
    using o unfolding objects_in_place_def by blast
  obtain site s1 where 1: "ensure_site api (fx_site fx) st = (Inr site, s1)" "pop_server s1 = ?s" "quiet st s1"
      "rid site = sid" "complete_record Sites site"
    unfolding ensure_site_def by (rule ensure_again [OF S f(1)])
  obtain m s2 where 2: "ensure_manufacturer api (dt_manufacturer (fx_device_type fx)) s1 = (Inr m, s2)"
      "pop_server s2 = pop_server s1" "quiet s1 s2"
    unfolding ensure_manufacturer_def Let_def by (rule ensure_again [OF S f(2) [folded 1(2)]])
  obtain dt s3 where 3: "ensure_device_type api (fx_device_type fx) m s2 = (Inr dt, s3)"
      "pop_server s3 = pop_server s2" "quiet s2 s3"
    unfolding ensure_device_type_def by (rule ensure_again [OF S f(3) [folded 1(2), folded 2(2)]])
  obtain g s4 where 4: "ensure_device_role api (fx_device_role fx) s3 = (Inr g, s4)"
      "pop_server s4 = pop_server s3" "quiet s3 s4"
    unfolding ensure_device_role_def by (rule ensure_again [OF S f(4) [folded 1(2), folded 2(2), folded 3(2)]])
  have s4: "pop_server s4 = ?s" using 1(2) 2(2) 3(2) 4(2) by simp
  have "quietly (afold (put_vlan api site) (fx_vlans fx) (\<lambda>_. None)) (\<lambda>_. True) s4"
    by (rule quietly_vlans [OF S 1(5) _ s4]) (use v 1(4) in simp)
  then obtain vlans s5 where 5: "afold (put_vlan api site) (fx_vlans fx) (\<lambda>_. None) s4 = (Inr vlans, s5)" "quiet s4 s5"
    by (auto simp: quietly_def)
  then have s5: "pop_server s5 = ?s" using s4 by (simp add: quiet_def)
  obtain device s6 where 6: "ensure_device api fx site dt g s5 = (Inr device, s6)" "pop_server s6 = pop_server s5"
      "quiet s5 s6" "rid device = d" "complete_record Devices device"
    unfolding ensure_device_def device_query_def [symmetric] device_check_def [symmetric]
    by (rule ensure_again [OF S f(5) [folded s5]])
  have "apply_objects api fx st = (Inr (device, vlans), s6)"
    using 1(1) 2(1) 3(1) 4(1) 5(1) 6(1) by (simp add: apply_objects_def abind_def)
  moreover have "quiet st s6" using 1(3) 2(3) 3(3) 4(3) 5(2) 6(3) by (simp add: quiet_def)
  ultimately show ?thesis using 6(4,5) unfolding quietly_def by blast
qed

lemma quietly_apply_one:
  fixes st :: "'s pop_state"
  assumes S: "serves_netbox api stored" and "settled stored (pop_server st) fx"
  shows "quietly (apply_one api fx) (\<lambda>_. True) st"
proof -
  obtain d where d: "objects_in_place stored (pop_server st) fx d" "placed stored (pop_server st) d (fx_interfaces fx)"
    using assms(2) by (auto simp: settled_def)
  show ?thesis
    unfolding apply_one_def
  proof (rule quietly_abind [OF quietly_objects [OF S d(1)]])
    fix x :: "pydict \<times> (int \<Rightarrow> pydict option)" and t :: "'s pop_state"
    assume t: "pop_server t = pop_server st" and x: "case x of (device, _) \<Rightarrow> complete_record Devices device \<and> rid device = d"
    show "quietly (case x of (device, vlans) \<Rightarrow> apply_interfaces api (fx_interfaces fx) device vlans) (\<lambda>_. True) t"
      using x d(2) by (cases x) (auto intro: quietly_interfaces [OF S _ t])
  qed
qed

text \<open>
  Fixtures of different hosts: distinct asset tags, and in each distinct interface names with
  every interface in one LAG at most.
\<close>

definition wf_fixtures :: "host_fixture list \<Rightarrow> bool" where
  "wf_fixtures fixtures \<longleftrightarrow> distinct (map fx_asset_tag fixtures)
     \<and> (\<forall>fx \<in> set fixtures. wf_specs (fx_interfaces fx))"

lemma populate_settles:
  assumes S: "serves_netbox api stored" and wf: "wf_fixtures fixtures"
    and run: "populate api fixtures s = (Inr rep, t)"
  shows "\<forall>fx \<in> set fixtures. settled stored t fx"
proof -
  let ?st = "\<lparr>pop_server = s, pop_report = empty_populate_report\<rparr>"
  obtain st' where 1: "afold (\<lambda>fx _. apply_one api fx) fixtures () ?st = (Inr (), st')" "t = pop_server st'"
    using run by (auto simp: populate_def aiter_afold split: prod.splits sum.splits)
  have tags: "fx_asset_tag x \<noteq> fx_asset_tag y" if "x \<in> set fixtures" "y \<in> set fixtures" "x \<noteq> y" for x y
    using wf that by (auto simp: wf_fixtures_def distinct_map dest: inj_onD)
  have "True \<and> (\<forall>fx \<in> set fixtures. settled stored (pop_server st') fx)"
  proof (rule afold_each [OF 1(1), where I = "\<lambda>_ _. True" and safe = "(\<noteq>)"])
    show "True \<and> settled stored (pop_server u') x" if "x \<in> set fixtures" "apply_one api x u = (Inr a, u')" for x a u u'
      using apply_one_Inr [OF S _ that(2)] wf that(1) by (simp add: wf_fixtures_def)
    show "settled stored (pop_server u') x"
      if "x \<in> set fixtures" "y \<in> set fixtures" "x \<noteq> y" "settled stored (pop_server u) x"
        "apply_one api y u = (Inr a, u')" for x y a u u'
      using settled_kept [OF S _ that(4,5) tags [OF that(1-3)]] wf that(2) by (simp add: wf_fixtures_def)
    show "sorted_wrt (\<noteq>) fixtures"
      using wf by (simp add: wf_fixtures_def distinct_map flip: distinct_sorted_wrt)
  qed simp
  then show ?thesis by (simp add: 1(2))
qed

lemma settled_no_op:
  assumes S: "serves_netbox api stored" and "\<forall>fx \<in> set fixtures. settled stored t fx"
  shows "\<exists>rep. populate api fixtures t = (Inr rep, t) \<and> pop_created rep = []"
proof -
  let ?st = "\<lparr>pop_server = t, pop_report = empty_populate_report\<rparr>"
  have "quietly (aiter (apply_one api) fixtures) (\<lambda>_. True) ?st"
    by (rule quietly_aiter [where s = t]) (use assms(2) in \<open>simp_all add: quietly_apply_one [OF S]\<close>)
  then obtain st' where "aiter (apply_one api) fixtures ?st = (Inr (), st')" "quiet ?st st'"
    by (auto simp: quietly_def)
  then show ?thesis by (simp add: populate_def quiet_def empty_populate_report_def)
qed

end
