(* ===== verification/Fixture_Load.thy ===== *)
theory Fixture_Load
  imports Pipeline Populate_Again
begin

text \<open>
  From a fixture through Netbox to a host intent: what the loader of
  src/host_config/netbox/loader.py finds on a server that fixtures/netbox/populate.py has
  filled. The server is the one of Populate_Again; \<open>keeps_inventory\<close> adds what the loader
  relies on: the attributes it reads are stored as posted and stay, a creation adds the object
  it was asked for and nothing else, nested records show the objects they refer to, and the
  loader's queries list exactly the stored objects.
\<close>

section \<open>What the loader reads of a record\<close>

definition nested :: "pydict \<Rightarrow> string \<Rightarrow> pydict option" where
  "nested r a = (case dict_get r a of PyDict d \<Rightarrow> Some d | _ \<Rightarrow> None)"

definition text_attr :: "pydict \<Rightarrow> string \<Rightarrow> string option" where
  "text_attr r a = (case dict_get r a of PyStr s \<Rightarrow> Some s | _ \<Rightarrow> None)"

definition int_attr :: "pydict \<Rightarrow> string \<Rightarrow> int option" where
  "int_attr r a = (case dict_get r a of PyInt n \<Rightarrow> Some n | _ \<Rightarrow> None)"

definition custom :: "pydict \<Rightarrow> string \<Rightarrow> pyval" where
  "custom r k = (case nested r ''custom_fields'' of None \<Rightarrow> PyNone | Some d \<Rightarrow> dict_get d k)"

text \<open>pynetbox's view of a stored device, VLAN, MAC address and interface\<close>

definition shows_device :: "pydict \<Rightarrow> nb_device \<Rightarrow> bool" where
  "shows_device r dev \<longleftrightarrow> nbd_id dev = rid r \<and> nbd_name dev = text_attr r ''name''
     \<and> nbd_role dev = map_option (\<lambda>d. text_attr d ''slug'') (nested r ''role'')"

definition shows_vlan :: "pydict \<Rightarrow> nb_vlan \<Rightarrow> bool" where
  "shows_vlan d v \<longleftrightarrow> dict_get d ''vid'' = PyInt (nbv_vid v) \<and> nbv_name v = text_attr d ''name''"

definition shows_mac :: "pydict \<Rightarrow> nb_mac \<Rightarrow> bool" where
  "shows_mac d m \<longleftrightarrow> nbm_mac_address m = text_attr d ''mac_address''"

definition shows_iface :: "pydict \<Rightarrow> nb_iface \<Rightarrow> bool" where
  "shows_iface r i \<longleftrightarrow> nbi_id i = rid r \<and> dict_get r ''name'' = PyStr (nbi_name i)
     \<and> rel_option shows_mac (nested r ''primary_mac_address'') (nbi_primary_mac i)
     \<and> nbi_mtu i = int_attr r ''mtu''
     \<and> rel_option shows_vlan (nested r ''untagged_vlan'') (nbi_untagged_vlan i)
     \<and> nbi_custom_fields i = nested r ''custom_fields''"


section \<open>The server\<close>

type_synonym 's store = "'s \<Rightarrow> endpoint \<Rightarrow> pydict \<Rightarrow> pydict option"

definition READ_SCALARS :: "string list" where
  "READ_SCALARS = [''name'', ''mtu'', ''slug'', ''vid'', ''mac_address'', ''assigned_object_id'']"

definition same_read :: "pydict \<Rightarrow> pydict \<Rightarrow> bool" where
  "same_read x y \<longleftrightarrow> rid x = rid y \<and> (\<forall>k \<in> set READ_SCALARS. dict_get x k = dict_get y k)
     \<and> ref ''untagged_vlan'' x = ref ''untagged_vlan'' y \<and> ref ''role'' x = ref ''role'' y
     \<and> (\<forall>k. custom x k = custom y k)"

text \<open>From \<open>s\<close> to \<open>t\<close> objects appear only under the keys \<open>K\<close>, and what is read of the others stays.\<close>

definition extends :: "'s store \<Rightarrow> (endpoint \<times> pydict) set \<Rightarrow> 's \<Rightarrow> 's \<Rightarrow> bool" where
  "extends stored K s t \<longleftrightarrow>
     (\<forall>e q. stored t e q \<noteq> None \<longrightarrow> stored s e q \<noteq> None \<or> (e, q) \<in> K)
     \<and> (\<forall>e q x. stored s e q = Some x \<longrightarrow> (\<exists>y. stored t e q = Some y \<and> same_read x y))"

definition reads_back :: "endpoint \<Rightarrow> pydict \<Rightarrow> pydict \<Rightarrow> bool" where
  "reads_back e p x \<longleftrightarrow>
     (e = Interfaces \<longrightarrow> dict_get x ''name'' = dict_get p ''name'' \<and> dict_get x ''mtu'' = dict_get p ''mtu''
        \<and> ref ''untagged_vlan'' x = dict_get p ''untagged_vlan'' \<and> (\<forall>k. custom x k = custom p k))
     \<and> (e = Devices \<longrightarrow> dict_get x ''name'' = dict_get p ''name'' \<and> ref ''role'' x = dict_get p ''role'')"

text \<open>
  A new object reads as posted, a new device has no interfaces (its type has no interface
  templates) and nothing is assigned to a new interface. Objects are looked up under the keys in
  the form the fixtures write them; that a server also answers to another spelling of a key is
  left out here.
\<close>

definition adds_objects :: "'s netbox_api \<Rightarrow> 's store \<Rightarrow> bool" where
  "adds_objects api stored \<longleftrightarrow> (\<forall>e p s r t. stored s e (query_of e p) = None \<longrightarrow> api_create api e p s = (Inr r, t) \<longrightarrow>
     extends stored {(e, query_of e p)} s t
     \<and> (\<forall>x. stored t e (query_of e p) = Some x \<longrightarrow> reads_back e p x)
     \<and> (e = Devices \<longrightarrow> (\<forall>n. stored t Interfaces (iface_query (rid r) n) = None))
     \<and> (e = Interfaces \<longrightarrow> (\<forall>q y. stored t IpAddresses q = Some y \<longrightarrow>
          dict_get y ''assigned_object_id'' \<noteq> PyInt (rid r))))"

definition patches_refs :: "'s netbox_api \<Rightarrow> 's store \<Rightarrow> bool" where
  "patches_refs api stored \<longleftrightarrow> (\<forall>a \<in> set REFS. \<forall>r v s r' t.
     api_update api r [(a, v)] s = (Inr r', t) \<longrightarrow> extends stored {} s t)"

text \<open>
  An object carries the key it is found under; MAC addresses are found in any case. A nested
  record carries its id.
\<close>

definition keyed :: "endpoint \<Rightarrow> pydict \<Rightarrow> pydict \<Rightarrow> bool" where
  "keyed e q x \<longleftrightarrow>
     (e = DeviceRoles \<longrightarrow> dict_get x ''slug'' = dict_get q ''slug'')
     \<and> (e = Vlans \<longrightarrow> dict_get x ''vid'' = dict_get q ''vid'')
     \<and> (e = MacAddresses \<longrightarrow> (\<exists>m. dict_get x ''mac_address'' = PyStr m
          \<and> (\<forall>n. dict_get q ''mac_address'' = PyStr n \<longrightarrow> py_lower m = py_lower n)))
     \<and> (e = IpAddresses \<longrightarrow> dict_get x ''assigned_object_id'' = PyNone
          \<or> (\<exists>n. dict_get x ''assigned_object_id'' = PyInt n))
     \<and> (e = Interfaces \<longrightarrow> ref ''untagged_vlan'' x = PyNone \<longrightarrow> nested x ''untagged_vlan'' = None)"

text \<open>A nested record shows the object it refers to.\<close>

definition brief :: "endpoint \<Rightarrow> string list" where
  "brief e = (case e of DeviceRoles \<Rightarrow> [''slug''] | Vlans \<Rightarrow> [''vid'', ''name'']
     | MacAddresses \<Rightarrow> [''mac_address''] | _ \<Rightarrow> [])"

definition nests :: "'s store \<Rightarrow> endpoint \<Rightarrow> string \<Rightarrow> endpoint \<Rightarrow> bool" where
  "nests stored e a e' \<longleftrightarrow> (\<forall>s q x q' y. stored s e q = Some x \<longrightarrow> stored s e' q' = Some y \<longrightarrow>
     ref a x = PyInt (rid y) \<longrightarrow>
     (\<exists>d. dict_get x a = PyDict d \<and> (\<forall>k \<in> set (brief e'). dict_get d k = dict_get y k)))"

text \<open>The loader's queries\<close>

definition lists :: "'s store \<Rightarrow> ('s \<Rightarrow> nb_client) \<Rightarrow> bool" where
  "lists stored client \<longleftrightarrow> (\<forall>s.
     (\<forall>tag. \<exists>r. nb_get_device (client s) tag = Inr r
        \<and> rel_option shows_device (stored s Devices [(''asset_tag'', PyStr tag)]) r)
     \<and> (\<forall>d. \<exists>ifs ns. nb_list_interfaces (client s) d = Inr ifs \<and> distinct ns
        \<and> (\<forall>n. n \<in> set ns \<longleftrightarrow> stored s Interfaces (iface_query d n) \<noteq> None)
        \<and> list_all2 (\<lambda>n i. shows_iface (the (stored s Interfaces (iface_query d n))) i) ns ifs)
     \<and> (\<forall>i. \<exists>as. nb_list_ips (client s) i = Inr as \<and> distinct as
        \<and> (\<forall>a. a \<in> set as \<longleftrightarrow> (\<exists>y. stored s IpAddresses [(''address'', PyStr a)] = Some y
             \<and> dict_get y ''assigned_object_id'' = PyInt i))))"

definition keeps_inventory :: "'s netbox_api \<Rightarrow> 's store \<Rightarrow> ('s \<Rightarrow> nb_client) \<Rightarrow> bool" where
  "keeps_inventory api stored client \<longleftrightarrow> adds_objects api stored \<and> patches_refs api stored
     \<and> (\<forall>s e q x. stored s e q = Some x \<longrightarrow> keyed e q x)
     \<and> nests stored Devices ''role'' DeviceRoles \<and> nests stored Interfaces ''untagged_vlan'' Vlans
     \<and> nests stored Interfaces ''primary_mac_address'' MacAddresses
     \<and> lists stored client"

lemma extends_refl [simp]: "extends stored K s s"
  by (auto simp: extends_def same_read_def)

lemma same_read_trans: "same_read x y \<Longrightarrow> same_read y z \<Longrightarrow> same_read x z"
  by (simp add: same_read_def)

lemma extends_get:
  assumes "extends stored K s t" and "stored s e q = Some x"
  obtains y where "stored t e q = Some y" "same_read x y"
  using assms unfolding extends_def by metis

lemma extends_new: "extends stored K s t \<Longrightarrow> stored t e q = Some y \<Longrightarrow> stored s e q = None \<Longrightarrow> (e, q) \<in> K"
  unfolding extends_def by (metis option.simps(3))

lemma extends_trans:
  assumes "extends stored K s t" and "extends stored L t u"
  shows "extends stored (K \<union> L) s u"
  unfolding extends_def
proof (intro conjI allI impI)
  show "stored s e q \<noteq> None \<or> (e, q) \<in> K \<union> L" if "stored u e q \<noteq> None" for e q
    using assms that unfolding extends_def by blast
  fix e q x assume "stored s e q = Some x"
  then obtain y where "stored t e q = Some y" "same_read x y" by (rule extends_get [OF assms(1)])
  then show "\<exists>z. stored u e q = Some z \<and> same_read x z"
    using extends_get [OF assms(2)] same_read_trans by metis
qed

lemma extends_mono: "extends stored K s t \<Longrightarrow> K \<subseteq> L \<Longrightarrow> extends stored L s t"
  unfolding extends_def by blast

section \<open>What each step adds\<close>

definition ext :: "'s store \<Rightarrow> ('s pop_state, exn, 'a) act \<Rightarrow> (endpoint \<times> pydict) set \<Rightarrow> bool" where
  "ext stored m K \<longleftrightarrow> (\<forall>st x st'. m st = (Inr x, st') \<longrightarrow> extends stored K (pop_server st) (pop_server st'))"

lemma extD: "ext stored m K \<Longrightarrow> m st = (Inr x, st') \<Longrightarrow> extends stored K (pop_server st) (pop_server st')"
  unfolding ext_def by blast

lemma ext_basic: "ext stored (aret x) {}" "ext stored (alift r) {}" "ext stored (note_created k) {}"
    "ext stored (note_skipped k) {}"
  by (auto simp: ext_def note_created_def note_skipped_def)

lemma ext_abind:
  assumes "ext stored m K" and "\<And>x. ext stored (f x) L"
  shows "ext stored (abind m f) (K \<union> L)"
  unfolding ext_def
proof (intro allI impI)
  fix st y st' assume "abind m f st = (Inr y, st')"
  then obtain x st1 where "m st = (Inr x, st1)" "f x st1 = (Inr y, st')" by (auto simp: abind_eq_Inr)
  then show "extends stored (K \<union> L) (pop_server st) (pop_server st')"
    using extends_trans [OF extD [OF assms(1)] extD [OF assms(2)]] by simp
qed

lemma ext_then: "ext stored m {} \<Longrightarrow> (\<And>x. ext stored (f x) L) \<Longrightarrow> ext stored (abind m f) L"
  using ext_abind [of stored m "{}" f L] by simp

lemma ext_last: "ext stored m K \<Longrightarrow> (\<And>x. ext stored (f x) {}) \<Longrightarrow> ext stored (abind m f) K"
  using ext_abind [of stored m K f "{}"] by simp

lemma ext_both: "ext stored m K \<Longrightarrow> (\<And>x. ext stored (f x) K) \<Longrightarrow> ext stored (abind m f) K"
  using ext_abind [of stored m K f K] by simp

lemma ext_mono: "ext stored m K \<Longrightarrow> K \<subseteq> L \<Longrightarrow> ext stored m L"
  by (meson ext_def extends_mono)

lemma ext_if: "(c \<Longrightarrow> ext stored m K) \<Longrightarrow> (\<not> c \<Longrightarrow> ext stored n K) \<Longrightarrow> ext stored (if c then m else n) K"
  by simp

lemma ext_afold: "(\<And>x acc. x \<in> set xs \<Longrightarrow> ext stored (f x acc) (K x)) \<Longrightarrow> ext stored (afold f xs acc) (\<Union> (K ` set xs))"
  by (induction xs arbitrary: acc) (auto intro!: ext_basic ext_abind)

lemma ext_aiter: "(\<And>x. x \<in> set xs \<Longrightarrow> ext stored (f x) (K x)) \<Longrightarrow> ext stored (aiter f xs) (\<Union> (K ` set xs))"
  unfolding aiter_afold by (rule ext_afold)

lemma inventory_laws:
  assumes "keeps_inventory api stored client"
  shows "stored s e q = Some x \<Longrightarrow> keyed e q x"
    and "nests stored Devices ''role'' DeviceRoles" "nests stored Interfaces ''untagged_vlan'' Vlans"
      "nests stored Interfaces ''primary_mac_address'' MacAddresses"
    and "lists stored client"
  using assms by (simp_all add: keeps_inventory_def)

lemma inventory_create:
  assumes "keeps_inventory api stored client" and "stored s e (query_of e p) = None"
    and "api_create api e p s = (Inr r, t)"
  shows "extends stored {(e, query_of e p)} s t" "stored t e (query_of e p) = Some x \<Longrightarrow> reads_back e p x"
    "e = Devices \<Longrightarrow> stored t Interfaces (iface_query (rid r) n) = None"
    "e = Interfaces \<Longrightarrow> stored t IpAddresses q = Some y \<Longrightarrow> dict_get y ''assigned_object_id'' \<noteq> PyInt (rid r)"
proof -
  have "adds_objects api stored" using assms(1) by (simp add: keeps_inventory_def)
  note law = this [unfolded adds_objects_def, rule_format, OF assms(2,3)]
  show "extends stored {(e, query_of e p)} s t" "stored t e (query_of e p) = Some x \<Longrightarrow> reads_back e p x"
    "e = Devices \<Longrightarrow> stored t Interfaces (iface_query (rid r) n) = None"
    "e = Interfaces \<Longrightarrow> stored t IpAddresses q = Some y \<Longrightarrow> dict_get y ''assigned_object_id'' \<noteq> PyInt (rid r)"
    using law by blast+
qed

lemma ext_point_to:
  assumes L: "keeps_inventory api stored client" and a: "a \<in> set REFS"
  shows "ext stored (point_to api kind n a v ifaces) {}"
  unfolding ext_def
proof (intro allI impI)
  fix st ifs st' assume "point_to api kind n a v ifaces st = (Inr ifs, st')"
  then show "extends stored {} (pop_server st) (pop_server st')"
  proof (cases rule: point_to_cases)
    case (update r r')
    have "patches_refs api stored" using L by (simp add: keeps_inventory_def)
    then show ?thesis using a update(4) unfolding patches_refs_def by blast
  qed simp
qed

text \<open>An object that was not there is created: it reads as posted.\<close>

lemma ensure_creates:
  assumes S: "serves_netbox api stored" and run: "ensure api kind e q chk payload st = (Inr r, st')"
    and new: "stored (pop_server st) e q = None"
  obtains p where "payload = Inr p" "api_create api e p (pop_server st) = (Inr r, pop_server st')"
proof -
  obtain p where p: "payload = Inr p" "abind (on_server (api_create api e p)) (\<lambda>obj.
      abind (note_created kind) (\<lambda>_. aret obj)) (st\<lparr>pop_server := pop_server st\<rparr>) = (Inr r, st')"
    using run serves_get [OF S] new by (cases payload) (auto simp: ensure_def on_server_def abind_def)
  obtain w t where w: "api_create api e p (pop_server st) = (w, t)" by force
  with p(2) have "w = Inr r" "pop_server st' = t"
    by (auto simp: on_server_def abind_def note_created_def split: sum.splits)
  with that [OF p(1)] w show thesis by simp
qed

lemma ensure_finds:
  assumes S: "serves_netbox api stored" and run: "ensure api kind e q chk payload st = (Inr r, st')"
    and old: "stored (pop_server st) e q = Some x"
  shows "r = x \<and> pop_server st' = pop_server st"
  using run serves_get [OF S] old
  by (auto simp: ensure_def on_server_def abind_eq_Inr note_skipped_def split: prod.splits)

lemma ext_ensure:
  assumes L: "keeps_inventory api stored client" and S: "serves_netbox api stored"
    and q: "\<And>p. payload = Inr p \<Longrightarrow> query_of e p = q"
  shows "ext stored (ensure api kind e q chk payload) {(e, q)}"
  unfolding ext_def
proof (intro allI impI)
  fix st r st' assume run: "ensure api kind e q chk payload st = (Inr r, st')"
  show "extends stored {(e, q)} (pop_server st) (pop_server st')"
  proof (cases "stored (pop_server st) e q")
    case None
    obtain p where "payload = Inr p" "api_create api e p (pop_server st) = (Inr r, pop_server st')"
      by (rule ensure_creates [OF S run None])
    then show ?thesis using inventory_create(1) [OF L, of "pop_server st" e p] q None by simp
  next
    case (Some x)
    then show ?thesis using ensure_finds [OF S run] by simp
  qed
qed

lemma ext_wire:
  assumes L: "keeps_inventory api stored client"
  shows "ext stored (wire_relationships api spec ifaces) {}"
proof -
  have "ext stored (wire_member api spec m ifs) {}" for m ifs
    unfolding wire_member_def
    by (intro ext_then ext_basic ext_point_to [OF L]) (simp add: REFS_def)
  then have members: "ext stored (afold (wire_member api spec) (if_lag_members spec) ifs) {}" for ifs
    using ext_afold [of "if_lag_members spec" stored "wire_member api spec" "\<lambda>_. {}"] by simp
  have parent: "ext stored (wire_parent api spec ifs) {}" for ifs
    unfolding wire_parent_def
    by (intro ext_if ext_then ext_basic ext_point_to [OF L]) (simp add: REFS_def)
  show ?thesis
    unfolding wire_relationships_def by (rule ext_then [OF members parent])
qed

abbreviation mac_keys :: "(endpoint \<times> pydict) set" where
  "mac_keys \<equiv> {k. fst k = MacAddresses}"

lemma ext_mac:
  assumes L: "keeps_inventory api stored client" and S: "serves_netbox api stored"
  shows "ext stored (ensure_mac_address api spec ifaces) mac_keys"
proof -
  let ?mac = "the (if_mac spec)"
  have "ext stored (ensure api ''mac_address'' MacAddresses [(''mac_address'', PyStr ?mac)] chk
      (Inr (assignment ''mac_address'' ?mac v))) mac_keys" for chk v
    by (rule ext_mono, rule ext_ensure [OF L S]) (auto simp: query_of_def assignment_def dict_get_def)
  then show ?thesis
    unfolding ensure_mac_address_def Let_def
    by (intro ext_if ext_then ext_last [where K = mac_keys] ext_basic ext_point_to [OF L]
        ext_mono [OF ext_basic(1)]) (simp_all add: REFS_def)
qed

definition ip_key :: "interface_spec \<Rightarrow> endpoint \<times> pydict" where
  "ip_key spec = (IpAddresses, [(''address'', PyStr (the (if_ip spec)))])"

lemma ext_ip:
  assumes L: "keeps_inventory api stored client" and S: "serves_netbox api stored"
  shows "ext stored (ensure_ip_address api ifaces spec) (if given (if_ip spec) then {ip_key spec} else {})"
proof (cases "given (if_ip spec)")
  case True
  let ?ip = "the (if_ip spec)"
  have "ext stored (ensure api ''ip_address'' IpAddresses [(''address'', PyStr ?ip)] chk
      (Inr (assignment ''address'' ?ip v))) {ip_key spec}" for chk v
    unfolding ip_key_def by (rule ext_ensure [OF L S]) (auto simp: query_of_def assignment_def dict_get_def)
  then show ?thesis
    using True unfolding ensure_ip_address_def Let_def by (simp, intro ext_then ext_last ext_basic)
qed (simp add: ensure_ip_address_def ext_basic)

lemma iface_key:
  assumes "interface_payload spec v vmap = Inr p"
  shows "query_of Interfaces p = [(''device_id'', v), (''name'', PyStr (if_name spec))]"
  using assms by (auto simp: interface_payload_def Let_def rbind_eq_Inr query_of_def dict_get_def)

lemma put_interface_steps:
  assumes "complete_record Devices device" and "put_interface api device vmap spec ifaces st = (Inr ifaces', st')"
  obtains r where "ensure api ''interface'' Interfaces (iface_query (rid device) (if_name spec)) no_check
      (interface_payload spec (PyInt (rid device)) vmap) st = (Inr r, st')" "ifaces' = ifaces(if_name spec := Some r)"
  using assms complete_id [OF assms(1)]
  by (auto simp: put_interface_def ensure_interface_def iface_query_def abind_eq_Inr)

section \<open>The objects of a new host\<close>

abbreviation base_keys :: "(endpoint \<times> pydict) set" where
  "base_keys \<equiv> {k. fst k \<notin> {Devices, Interfaces, IpAddresses}}"

lemma ext_ensure_other:
  assumes L: "keeps_inventory api stored client" and S: "serves_netbox api stored"
    and "\<And>p. payload = Inr p \<Longrightarrow> query_of e p = q" and "e \<notin> {Devices, Interfaces, IpAddresses}"
  shows "ext stored (ensure api kind e q chk payload) base_keys"
  by (rule ext_mono [OF ext_ensure [OF L S assms(3)]]) (use assms(4) in simp_all)

lemma ext_put_vlan:
  assumes L: "keeps_inventory api stored client" and S: "serves_netbox api stored"
  shows "ext stored (put_vlan api site v acc) base_keys"
  unfolding put_vlan_def ensure_vlan_def
  by (intro ext_last [OF _ ext_basic(1)] ext_then ext_basic(2) ext_ensure_other [OF L S])
     (auto simp: query_of_def dict_get_def)

lemma ext_put_vlans:
  assumes L: "keeps_inventory api stored client" and S: "serves_netbox api stored"
  shows "ext stored (afold (put_vlan api site) vs acc) base_keys"
  by (rule ext_mono, rule ext_afold [where K = "\<lambda>_. base_keys"], rule ext_put_vlan [OF L S]) auto

text \<open>\<open>vlan_by_vid\<close> holds records of the VLANs the site has under those ids.\<close>

definition vlan_map ::
  "'s store \<Rightarrow> 's \<Rightarrow> int \<Rightarrow> (int \<Rightarrow> pydict option) \<Rightarrow> bool" where
  "vlan_map stored s sid vmap \<longleftrightarrow> (\<forall>vid r. vmap vid = Some r \<longrightarrow> complete_record Vlans r
     \<and> (\<exists>y. stored s Vlans [(''vid'', PyInt vid), (''site_id'', PyInt sid)] = Some y \<and> rid y = rid r))"

lemma vlan_map_evolves:
  assumes "vlan_map stored s sid vmap" and "evolves stored P s t"
  shows "vlan_map stored t sid vmap"
  unfolding vlan_map_def
proof (intro allI impI)
  fix vid r assume "vmap vid = Some r"
  then obtain y where y: "complete_record Vlans r"
      "stored s Vlans [(''vid'', PyInt vid), (''site_id'', PyInt sid)] = Some y" "rid y = rid r"
    using assms(1) unfolding vlan_map_def by blast
  obtain z where z: "stored t Vlans [(''vid'', PyInt vid), (''site_id'', PyInt sid)] = Some z" "core y z"
    by (rule evolves_kept [OF assms(2), OF y(2)])
  have "rid z = rid r" using z(2) y(3) by (simp add: core_def)
  then show "complete_record Vlans r \<and> (\<exists>y. stored t Vlans [(''vid'', PyInt vid), (''site_id'', PyInt sid)] = Some y \<and> rid y = rid r)"
    using y(1) z(1) by blast
qed

lemma put_vlan_map:
  assumes S: "serves_netbox api stored" and site: "complete_record Sites site"
    and "put_vlan api site v vmap st = (Inr vmap', st')" and M: "vlan_map stored (pop_server st) (rid site) vmap"
  shows "vlan_map stored (pop_server st') (rid site) vmap' \<and> dom vmap' = insert (vs_vid v) (dom vmap)"
proof -
  let ?p = "[(''vid'', PyInt (vs_vid v)), (''name'', PyStr (vs_name v)), (''site'', PyInt (rid site))]"
  obtain r where r: "ensure api ''vlan'' Vlans (vlan_query v (rid site)) (vlan_check v) (Inr ?p) st = (Inr r, st')"
      "vmap' = vmap(vs_vid v := Some r)"
    using assms(3) complete_id [OF site]
    by (auto simp: put_vlan_def ensure_vlan_def vlan_query_def vlan_check_def abind_eq_Inr)
  have e: "evolves stored (\<lambda>_ _. False) (pop_server st) (pop_server st') \<and> complete_record Vlans r
      \<and> found stored (pop_server st') Vlans (vlan_query v (rid site)) (vlan_check v) (rid r)"
    by (rule ensure_found [OF S r(1)])
       (auto simp: query_of_def vlan_query_def vlan_check_def dict_get_def SCALARS_def check_name_ok)
  then have "vlan_map stored (pop_server st') (rid site) vmap"
    using vlan_map_evolves [OF M] by blast
  then show ?thesis using e r(2) by (auto simp: vlan_map_def found_def vlan_query_def)
qed

lemma put_vlans_map:
  assumes S: "serves_netbox api stored" and site: "complete_record Sites site"
    and "afold (put_vlan api site) vs vmap st = (Inr vmap', st')" and "vlan_map stored (pop_server st) (rid site) vmap"
  shows "vlan_map stored (pop_server st') (rid site) vmap' \<and> dom vmap' = vs_vid ` set vs \<union> dom vmap"
  using assms(3,4)
proof (induction vs arbitrary: vmap st)
  case (Cons v vs)
  obtain a st1 where 1: "put_vlan api site v vmap st = (Inr a, st1)"
      "afold (put_vlan api site) vs a st1 = (Inr vmap', st')"
    using Cons.prems(1) by (auto simp: abind_eq_Inr)
  from put_vlan_map [OF S site 1(1) Cons.prems(2)] Cons.IH [OF 1(2)] show ?case by auto
qed simp

definition host_known :: "'s store \<Rightarrow> 's \<Rightarrow> host_fixture \<Rightarrow> int \<Rightarrow> bool" where
  "host_known stored s fx d \<longleftrightarrow> (\<exists>x y. stored s Devices (device_query fx) = Some x \<and> rid x = d
     \<and> dict_get x ''name'' = PyStr (fx_hostname fx)
     \<and> stored s DeviceRoles [(''slug'', PyStr (fx_device_role fx))] = Some y \<and> ref ''role'' x = PyInt (rid y))"

lemma host_known_extends:
  assumes "host_known stored s fx d" and "extends stored K s t"
  shows "host_known stored t fx d"
proof -
  obtain x y where x: "stored s Devices (device_query fx) = Some x" "rid x = d"
      "dict_get x ''name'' = PyStr (fx_hostname fx)" "ref ''role'' x = PyInt (rid y)"
    and y: "stored s DeviceRoles [(''slug'', PyStr (fx_device_role fx))] = Some y"
    using assms(1) by (auto simp: host_known_def)
  obtain x' where x': "stored t Devices (device_query fx) = Some x'" "same_read x x'"
    by (rule extends_get [OF assms(2), OF x(1)])
  obtain y' where y': "stored t DeviceRoles [(''slug'', PyStr (fx_device_role fx))] = Some y'" "same_read y y'"
    by (rule extends_get [OF assms(2), OF y])
  have "rid x' = d" "dict_get x' ''name'' = PyStr (fx_hostname fx)" "ref ''role'' x' = PyInt (rid y')"
    using x x'(2) y'(2) by (simp_all add: same_read_def READ_SCALARS_def)
  then show ?thesis using x'(1) y'(1) unfolding host_known_def by blast
qed

lemma device_payload_items:
  assumes "device_payload fx site dt g = Inr p" and "complete_record DeviceRoles g"
  shows "dict_get p ''name'' = PyStr (fx_hostname fx)" "dict_get p ''role'' = PyInt (rid g)"
    "query_of Devices p = device_query fx"
  using assms complete_id [OF assms(2)]
  by (auto simp: device_payload_def rbind_eq_Inr dict_get_def query_of_def device_query_def)

lemma new_device_known:
  assumes S: "serves_netbox api stored" and L: "keeps_inventory api stored client"
    and g: "complete_record DeviceRoles g" "stored (pop_server st) DeviceRoles [(''slug'', PyStr (fx_device_role fx))] = Some y"
      "rid y = rid g"
    and new: "stored (pop_server st) Devices (device_query fx) = None"
    and run: "ensure_device api fx site dt g st = (Inr device, st')"
  shows "host_known stored (pop_server st') fx (rid device)
    \<and> stored (pop_server st') Interfaces (iface_query (rid device) n) = None"
proof -
  obtain p where p: "device_payload fx site dt g = Inr p"
      and c: "api_create api Devices p (pop_server st) = (Inr device, pop_server st')"
    using ensure_creates [OF S run [unfolded ensure_device_def, folded device_query_def] new] by metis
  note items = device_payload_items [OF p g(1)]
  have none: "stored (pop_server st) Devices (query_of Devices p) = None" using new items(3) by simp
  obtain x where x: "stored (pop_server st') Devices (query_of Devices p) = Some x" "rid x = rid device"
    using netbox_create [OF S none c] by blast
  have rb: "reads_back Devices p x" by (rule inventory_create(2) [OF L none c x(1)])
  have ex: "extends stored {(Devices, query_of Devices p)} (pop_server st) (pop_server st')"
    by (rule inventory_create(1) [OF L none c])
  obtain z where z: "stored (pop_server st') DeviceRoles [(''slug'', PyStr (fx_device_role fx))] = Some z" "same_read y z"
    by (rule extends_get [OF ex, OF g(2)])
  have "host_known stored (pop_server st') fx (rid device)"
    using x rb z g(3) items by (auto simp: host_known_def reads_back_def same_read_def)
  then show ?thesis using inventory_create(3) [OF L none c] by blast
qed

lemma py_eq_str: "py_eq v (PyStr s) \<longleftrightarrow> v = PyStr s"
  by (cases v) (auto simp: py_num_def)

text \<open>The VLANs of a fixture: \<open>vlan_by_vid\<close> and the stored objects agree, under the fixture's names.\<close>

definition fixture_vlans :: "'s store \<Rightarrow> 's \<Rightarrow> host_fixture \<Rightarrow> (int \<Rightarrow> pydict option) \<Rightarrow> bool" where
  "fixture_vlans stored s fx vmap \<longleftrightarrow> dom vmap = vs_vid ` set (fx_vlans fx)
     \<and> (\<forall>v \<in> set (fx_vlans fx). \<exists>r q y. vmap (vs_vid v) = Some r \<and> complete_record Vlans r
          \<and> stored s Vlans q = Some y \<and> rid y = rid r \<and> dict_get y ''vid'' = PyInt (vs_vid v)
          \<and> dict_get y ''name'' = PyStr (vs_name v))"

lemma fixture_vlansI:
  assumes S: "serves_netbox api stored" and L: "keeps_inventory api stored client"
    and M: "vlan_map stored s sid vmap" and D: "dom vmap = vs_vid ` set (fx_vlans fx)"
    and F: "\<forall>v \<in> set (fx_vlans fx). \<exists>i. found stored s Vlans (vlan_query v sid) (vlan_check v) i"
  shows "fixture_vlans stored s fx vmap"
  unfolding fixture_vlans_def
proof (intro conjI ballI)
  fix v assume v: "v \<in> set (fx_vlans fx)"
  then obtain r where r: "vmap (vs_vid v) = Some r" using D by blast
  obtain y where y: "complete_record Vlans r" "stored s Vlans (vlan_query v sid) = Some y" "rid y = rid r"
    using M r unfolding vlan_map_def vlan_query_def by blast
  have "vlan_check v y = Inr ()" using F v y(2) by (auto simp: found_def)
  then have "dict_get y ''name'' = PyStr (vs_name v)"
    using serves_complete [OF S y(2)] by (simp add: vlan_check_def check_name_ok py_eq_str)
  moreover have "dict_get y ''vid'' = PyInt (vs_vid v)"
    using inventory_laws(1) [OF L, OF y(2)] by (simp add: keyed_def vlan_query_def dict_get_def)
  ultimately show "\<exists>r q y. vmap (vs_vid v) = Some r \<and> complete_record Vlans r
      \<and> stored s Vlans q = Some y \<and> rid y = rid r \<and> dict_get y ''vid'' = PyInt (vs_vid v)
      \<and> dict_get y ''name'' = PyStr (vs_name v)"
    using r y by blast
qed (fact D)

lemma fixture_vlans_extends:
  assumes "fixture_vlans stored s fx vmap" and ex: "extends stored K s t"
  shows "fixture_vlans stored t fx vmap"
  unfolding fixture_vlans_def
proof (intro conjI ballI)
  fix v assume "v \<in> set (fx_vlans fx)"
  then obtain r q y where y: "vmap (vs_vid v) = Some r" "complete_record Vlans r" "stored s Vlans q = Some y"
      "rid y = rid r" "dict_get y ''vid'' = PyInt (vs_vid v)" "dict_get y ''name'' = PyStr (vs_name v)"
    using assms(1) unfolding fixture_vlans_def by blast
  obtain z where z: "stored t Vlans q = Some z" "same_read y z" by (rule extends_get [OF ex, OF y(3)])
  then have "rid z = rid r" "dict_get z ''vid'' = PyInt (vs_vid v)" "dict_get z ''name'' = PyStr (vs_name v)"
    using y(4-6) by (simp_all add: same_read_def READ_SCALARS_def)
  then show "\<exists>r q y. vmap (vs_vid v) = Some r \<and> complete_record Vlans r
      \<and> stored t Vlans q = Some y \<and> rid y = rid r \<and> dict_get y ''vid'' = PyInt (vs_vid v)
      \<and> dict_get y ''name'' = PyStr (vs_name v)"
    using y(1,2) z(1) by blast
qed (use assms(1) in \<open>simp add: fixture_vlans_def\<close>)

lemma ext_device_type:
  assumes L: "keeps_inventory api stored client" and S: "serves_netbox api stored"
  shows "ext stored (ensure_device_type api dt m) base_keys"
  unfolding ensure_device_type_def
  by (rule ext_ensure_other [OF L S]) (auto simp: rbind_eq_Inr query_of_def dict_get_def)

lemma ext_slug:
  assumes L: "keeps_inventory api stored client" and S: "serves_netbox api stored"
    and "e = Sites \<or> e = Manufacturers \<or> e = DeviceRoles"
  shows "ext stored (ensure api kind e [(''slug'', PyStr slug)] no_check
    (Inr [(''name'', v), (''slug'', PyStr slug)])) base_keys"
  by (rule ext_ensure_other [OF L S]) (use assms(3) in \<open>auto simp: query_of_def dict_get_def\<close>)

lemma apply_objects_new:
  assumes S: "serves_netbox api stored" and L: "keeps_inventory api stored client"
    and run: "apply_objects api fx st = (Inr (device, vmap), st')"
    and new: "stored (pop_server st) Devices (device_query fx) = None"
  shows "host_known stored (pop_server st') fx (rid device) \<and> fixture_vlans stored (pop_server st') fx vmap
    \<and> (\<forall>n. stored (pop_server st') Interfaces (iface_query (rid device) n) = None)"
proof -
  let ?ext = "\<lambda>s t. extends stored base_keys (pop_server s) (pop_server t)"
  obtain site s1 m s2 dt s3 g s4 s5 where
      1: "ensure_site api (fx_site fx) st = (Inr site, s1)"
      and 2: "ensure_manufacturer api (dt_manufacturer (fx_device_type fx)) s1 = (Inr m, s2)"
      and 3: "ensure_device_type api (fx_device_type fx) m s2 = (Inr dt, s3)"
      and 4: "ensure_device_role api (fx_device_role fx) s3 = (Inr g, s4)"
      and 5: "afold (put_vlan api site) (fx_vlans fx) (\<lambda>_. None) s4 = (Inr vmap, s5)"
      and 6: "ensure_device api fx site dt g s5 = (Inr device, st')"
    using run by (auto simp: apply_objects_def abind_eq_Inr)
  have x1: "?ext st s1" by (rule extD [OF ext_slug [OF L S] 1 [unfolded ensure_site_def]]) simp
  have x2: "?ext s1 s2" by (rule extD [OF ext_slug [OF L S] 2 [unfolded ensure_manufacturer_def Let_def]]) simp
  have x3: "?ext s2 s3" by (rule extD [OF ext_device_type [OF L S] 3])
  have x4: "?ext s3 s4" by (rule extD [OF ext_slug [OF L S] 4 [unfolded ensure_device_role_def]]) simp
  have x5: "?ext s4 s5" by (rule extD [OF ext_put_vlans [OF L S] 5])
  have "?ext st s5"
    using extends_trans [OF extends_trans [OF extends_trans [OF extends_trans [OF x1 x2] x3] x4] x5] by simp
  then have new5: "stored (pop_server s5) Devices (device_query fx) = None"
    using new extends_new by fastforce
  note role = slug_found [OF S _ 4 [unfolded ensure_device_role_def], simplified]
  have site: "complete_record Sites site"
    using slug_found [OF S _ 1 [unfolded ensure_site_def], simplified] by blast
  obtain y0 where y0: "stored (pop_server s4) DeviceRoles [(''slug'', PyStr (fx_device_role fx))] = Some y0" "rid y0 = rid g"
    using role by (auto simp: found_def)
  obtain y where y: "stored (pop_server s5) DeviceRoles [(''slug'', PyStr (fx_device_role fx))] = Some y" "same_read y0 y"
    by (rule extends_get [OF x5, OF y0(1)])
  have "rid y = rid g" using y(2) y0(2) by (simp add: same_read_def)
  note known = new_device_known [OF S L conjunct1 [OF conjunct2 [OF role]] y(1) this new5 6]
  have ev: "evolves stored (\<lambda>_ _. False) (pop_server s5) (pop_server st')" using device_found [OF S 6] by simp
  have "fixture_vlans stored (pop_server st') fx vmap"
  proof (rule fixture_vlansI [OF S L])
    have "vlan_map stored (pop_server s5) (rid site) vmap \<and> dom vmap = vs_vid ` set (fx_vlans fx)"
      using put_vlans_map [OF S site 5] by (simp add: vlan_map_def)
    then show "vlan_map stored (pop_server st') (rid site) vmap" "dom vmap = vs_vid ` set (fx_vlans fx)"
      using vlan_map_evolves [OF _ ev] by auto
    show "\<forall>v \<in> set (fx_vlans fx). \<exists>i. found stored (pop_server st') Vlans (vlan_query v (rid site)) (vlan_check v) i"
      using put_vlans_Inr [OF S site 5] found_keeps(3) [OF S _ ev] by blast
  qed
  with known show ?thesis by blast
qed

section \<open>The interfaces of a new host\<close>

definition mtu_value :: "interface_spec \<Rightarrow> pyval" where
  "mtu_value spec = (case if_mtu spec of None \<Rightarrow> PyNone | Some m \<Rightarrow> if m = 0 then PyNone else PyInt m)"

definition vlan_value :: "interface_spec \<Rightarrow> (int \<Rightarrow> pydict option) \<Rightarrow> pyval" where
  "vlan_value spec vmap = (case if_untagged_vlan spec of None \<Rightarrow> PyNone
     | Some v \<Rightarrow> if v = 0 then PyNone else (case vmap v of None \<Rightarrow> PyNone | Some r \<Rightarrow> PyInt (rid r)))"

definition as_posted :: "interface_spec \<Rightarrow> (int \<Rightarrow> pydict option) \<Rightarrow> pydict \<Rightarrow> bool" where
  "as_posted spec vmap x \<longleftrightarrow> dict_get x ''name'' = PyStr (if_name spec) \<and> dict_get x ''mtu'' = mtu_value spec
     \<and> ref ''untagged_vlan'' x = vlan_value spec vmap \<and> (\<forall>k. custom x k = dict_get (if_custom_fields spec) k)"

lemma payload_items:
  assumes "interface_payload spec v vmap = Inr p" and "\<And>n r. vmap n = Some r \<Longrightarrow> complete_record Vlans r"
  shows "dict_get p ''name'' = PyStr (if_name spec)" "dict_get p ''mtu'' = mtu_value spec"
    "dict_get p ''untagged_vlan'' = vlan_value spec vmap" "custom p k = dict_get (if_custom_fields spec) k"
  using assms(1) complete_id [OF assms(2)]
  by (auto simp: interface_payload_def Let_def rbind_eq_Inr dict_get_def mtu_value_def vlan_value_def
      custom_def nested_def split: option.splits if_splits)

text \<open>Interface \<open>spec\<close> of device \<open>d\<close> is stored as posted, and nothing is assigned to it yet.\<close>

definition placed_new ::
  "'s store \<Rightarrow> 's \<Rightarrow> int \<Rightarrow> (int \<Rightarrow> pydict option) \<Rightarrow> interface_spec \<Rightarrow> bool" where
  "placed_new stored s d vmap spec \<longleftrightarrow> (\<exists>x. stored s Interfaces (iface_query d (if_name spec)) = Some x
     \<and> as_posted spec vmap x
     \<and> (\<forall>q y. stored s IpAddresses q = Some y \<longrightarrow> dict_get y ''assigned_object_id'' \<noteq> PyInt (rid x)))"

lemma as_posted_same: "as_posted spec vmap x \<Longrightarrow> same_read x y \<Longrightarrow> as_posted spec vmap y"
  by (simp add: as_posted_def same_read_def READ_SCALARS_def)

lemma placed_new_extends:
  assumes "placed_new stored s d vmap spec" and ex: "extends stored K s t" and "\<And>q. (IpAddresses, q) \<notin> K"
  shows "placed_new stored t d vmap spec"
proof -
  obtain x where x: "stored s Interfaces (iface_query d (if_name spec)) = Some x" "as_posted spec vmap x"
      "\<And>q y. stored s IpAddresses q = Some y \<Longrightarrow> dict_get y ''assigned_object_id'' \<noteq> PyInt (rid x)"
    using assms(1) by (auto simp: placed_new_def)
  obtain x' where x': "stored t Interfaces (iface_query d (if_name spec)) = Some x'" "same_read x x'"
    by (rule extends_get [OF ex, OF x(1)])
  have "dict_get y ''assigned_object_id'' \<noteq> PyInt (rid x')" if y: "stored t IpAddresses q = Some y" for q y
  proof -
    obtain y0 where y0: "stored s IpAddresses q = Some y0" using extends_new [OF ex y] assms(3) by fastforce
    obtain y1 where "stored t IpAddresses q = Some y1" "same_read y0 y1" by (rule extends_get [OF ex, OF y0])
    then show ?thesis using x(3) [OF y0] x'(2) y by (simp add: same_read_def READ_SCALARS_def)
  qed
  then show ?thesis using x'(1) as_posted_same [OF x(2) x'(2)] unfolding placed_new_def by blast
qed

lemma put_interface_new:
  assumes S: "serves_netbox api stored" and L: "keeps_inventory api stored client"
    and D: "complete_record Devices device" and V: "\<And>n r. vmap n = Some r \<Longrightarrow> complete_record Vlans r"
    and run: "put_interface api device vmap spec ifaces st = (Inr ifaces', st')"
    and new: "stored (pop_server st) Interfaces (iface_query (rid device) (if_name spec)) = None"
  shows "placed_new stored (pop_server st') (rid device) vmap spec
    \<and> extends stored {(Interfaces, iface_query (rid device) (if_name spec))} (pop_server st) (pop_server st')"
proof -
  let ?q = "iface_query (rid device) (if_name spec)"
  obtain r where r: "ensure api ''interface'' Interfaces ?q no_check
      (interface_payload spec (PyInt (rid device)) vmap) st = (Inr r, st')"
    using put_interface_steps [OF D run] by metis
  obtain p where p: "interface_payload spec (PyInt (rid device)) vmap = Inr p"
      and c: "api_create api Interfaces p (pop_server st) = (Inr r, pop_server st')"
    by (rule ensure_creates [OF S r new])
  have q: "query_of Interfaces p = ?q" by (rule interface_query_of [OF p])
  have none: "stored (pop_server st) Interfaces (query_of Interfaces p) = None" using new q by simp
  obtain x where x: "stored (pop_server st') Interfaces ?q = Some x" "rid x = rid r"
    using netbox_create [OF S none c] q by auto
  have "reads_back Interfaces p x" using inventory_create(2) [OF L none c] x(1) q by simp
  then have "as_posted spec vmap x" using payload_items [OF p V] by (simp add: as_posted_def reads_back_def)
  then have "placed_new stored (pop_server st') (rid device) vmap spec"
    using x inventory_create(4) [OF L none c] unfolding placed_new_def by auto
  then show ?thesis using inventory_create(1) [OF L none c] q by simp
qed

lemma pass1_new:
  assumes S: "serves_netbox api stored" and L: "keeps_inventory api stored client"
    and D: "complete_record Devices device" and V: "\<And>n r. vmap n = Some r \<Longrightarrow> complete_record Vlans r"
    and "afold (put_interface api device vmap) specs ifaces st = (Inr ifaces', st')"
    and "distinct (map if_name specs)"
    and "\<And>spec. spec \<in> set specs \<Longrightarrow> stored (pop_server st) Interfaces (iface_query (rid device) (if_name spec)) = None"
  shows "(\<forall>spec \<in> set specs. placed_new stored (pop_server st') (rid device) vmap spec)
    \<and> extends stored ((\<lambda>spec. (Interfaces, iface_query (rid device) (if_name spec))) ` set specs) (pop_server st) (pop_server st')"
  using assms(5-7)
proof (induction specs arbitrary: ifaces st)
  case (Cons spec specs)
  let ?key = "\<lambda>spec. (Interfaces, iface_query (rid device) (if_name spec))"
  obtain ifs1 st1 where 1: "put_interface api device vmap spec ifaces st = (Inr ifs1, st1)"
      "afold (put_interface api device vmap) specs ifs1 st1 = (Inr ifaces', st')"
    using Cons.prems(1) by (auto simp: abind_eq_Inr)
  have p: "placed_new stored (pop_server st1) (rid device) vmap spec"
      "extends stored {?key spec} (pop_server st) (pop_server st1)"
    using put_interface_new [OF S L D V 1(1)] Cons.prems(3) by auto
  have none: "stored (pop_server st1) Interfaces (iface_query (rid device) (if_name s)) = None"
    if "s \<in> set specs" for s
  proof (rule ccontr)
    assume "stored (pop_server st1) Interfaces (iface_query (rid device) (if_name s)) \<noteq> None"
    then obtain y where "stored (pop_server st1) Interfaces (iface_query (rid device) (if_name s)) = Some y" by blast
    from extends_new [OF p(2) this] Cons.prems(3) [of s] that
    have "(Interfaces, iface_query (rid device) (if_name s)) \<in> {?key spec}" by simp
    then show False using Cons.prems(2) that imageI [of s "set specs" if_name] by simp
  qed
  have q: "\<forall>spec \<in> set specs. placed_new stored (pop_server st') (rid device) vmap spec"
      "extends stored (?key ` set specs) (pop_server st1) (pop_server st')"
    using Cons.IH [OF 1(2) _ none] Cons.prems(2) by auto
  have "placed_new stored (pop_server st') (rid device) vmap spec"
    by (rule placed_new_extends [OF p(1) q(2)]) auto
  then show ?case using q(1) extends_trans [OF p(2) q(2)] by simp
qed simp

text \<open>The keys under which the passes over the interfaces of device \<open>d\<close> add objects\<close>

definition iface_keys :: "int \<Rightarrow> interface_spec list \<Rightarrow> (endpoint \<times> pydict) set" where
  "iface_keys d specs = (\<lambda>spec. (Interfaces, iface_query d (if_name spec))) ` set specs"

definition ip_keys :: "interface_spec list \<Rightarrow> (endpoint \<times> pydict) set" where
  "ip_keys specs = {ip_key spec |spec. spec \<in> set specs \<and> given (if_ip spec)}"

lemma ext_pass2:
  assumes "keeps_inventory api stored client"
  shows "ext stored (afold (wire_relationships api) specs ifaces) {}"
  using ext_afold [of specs stored "wire_relationships api" "\<lambda>_. {}"] ext_wire [OF assms] by simp

lemma ext_pass3:
  assumes "keeps_inventory api stored client" and "serves_netbox api stored"
  shows "ext stored (afold (ensure_mac_address api) specs ifaces) mac_keys"
  by (rule ext_mono [OF ext_afold [where K = "\<lambda>_. mac_keys"]]) (auto simp: ext_mac [OF assms])

lemma ext_pass4:
  assumes "keeps_inventory api stored client" and "serves_netbox api stored"
  shows "ext stored (aiter (ensure_ip_address api ifaces) specs) (ip_keys specs)"
  by (rule ext_mono [OF ext_aiter [OF ext_ip [OF assms]]]) (auto simp: ip_keys_def split: if_splits)

text \<open>
  After the four passes: each interface is stored as posted, and what is assigned to it is
  one of the fixture's addresses.
\<close>

definition placed_now ::
  "'s store \<Rightarrow> 's \<Rightarrow> int \<Rightarrow> (int \<Rightarrow> pydict option) \<Rightarrow> interface_spec list \<Rightarrow> interface_spec \<Rightarrow> bool" where
  "placed_now stored s d vmap specs spec \<longleftrightarrow> (\<exists>x. stored s Interfaces (iface_query d (if_name spec)) = Some x
     \<and> as_posted spec vmap x
     \<and> (\<forall>q y. stored s IpAddresses q = Some y \<longrightarrow> dict_get y ''assigned_object_id'' = PyInt (rid x) \<longrightarrow>
          (IpAddresses, q) \<in> ip_keys specs))"

lemma placed_now_extends:
  assumes "placed_new stored s d vmap spec" and ex: "extends stored (ip_keys specs) s t"
  shows "placed_now stored t d vmap specs spec"
proof -
  obtain x where x: "stored s Interfaces (iface_query d (if_name spec)) = Some x" "as_posted spec vmap x"
      "\<And>q y. stored s IpAddresses q = Some y \<Longrightarrow> dict_get y ''assigned_object_id'' \<noteq> PyInt (rid x)"
    using assms(1) by (auto simp: placed_new_def)
  obtain x' where x': "stored t Interfaces (iface_query d (if_name spec)) = Some x'" "same_read x x'"
    by (rule extends_get [OF ex, OF x(1)])
  have "(IpAddresses, q) \<in> ip_keys specs"
    if y: "stored t IpAddresses q = Some y" "dict_get y ''assigned_object_id'' = PyInt (rid x')" for q y
  proof (rule extends_new [OF ex y(1)], rule ccontr)
    assume "stored s IpAddresses q \<noteq> None"
    then obtain y0 where y0: "stored s IpAddresses q = Some y0" by blast
    obtain y1 where "stored t IpAddresses q = Some y1" "same_read y0 y1" by (rule extends_get [OF ex, OF y0])
    then show False using x(3) [OF y0] x'(2) y by (simp add: same_read_def READ_SCALARS_def)
  qed
  then show ?thesis using x'(1) as_posted_same [OF x(2) x'(2)] unfolding placed_now_def by blast
qed

lemma apply_interfaces_new:
  assumes S: "serves_netbox api stored" and L: "keeps_inventory api stored client"
    and D: "complete_record Devices device" and V: "\<And>n r. vmap n = Some r \<Longrightarrow> complete_record Vlans r"
    and wf: "wf_specs specs" and run: "apply_interfaces api specs device vmap st = (Inr u, st')"
    and new: "\<And>n. stored (pop_server st) Interfaces (iface_query (rid device) n) = None"
  shows "(\<forall>spec \<in> set specs. placed_now stored (pop_server st') (rid device) vmap specs spec)
    \<and> extends stored (iface_keys (rid device) specs \<union> mac_keys \<union> ip_keys specs) (pop_server st) (pop_server st')"
proof -
  obtain p1 st1 p2 st2 p3 st3 where
      1: "afold (put_interface api device vmap) specs (\<lambda>_. None) st = (Inr p1, st1)"
      and 2: "afold (wire_relationships api) specs p1 st1 = (Inr p2, st2)"
      and 3: "afold (ensure_mac_address api) specs p2 st2 = (Inr p3, st3)"
      and 4: "aiter (ensure_ip_address api p3) specs st3 = (Inr u, st')"
    using run by (auto simp: apply_interfaces_def abind_eq_Inr)
  have names: "distinct (map if_name specs)" using wf by (simp add: wf_specs_def)
  have x1: "\<forall>spec \<in> set specs. placed_new stored (pop_server st1) (rid device) vmap spec"
      "extends stored (iface_keys (rid device) specs) (pop_server st) (pop_server st1)"
    using pass1_new [OF S L D V 1 names new] by (simp_all add: iface_keys_def)
  have x2: "extends stored {} (pop_server st1) (pop_server st2)" by (rule extD [OF ext_pass2 [OF L] 2])
  have x3: "extends stored mac_keys (pop_server st2) (pop_server st3)" by (rule extD [OF ext_pass3 [OF L S] 3])
  have x4: "extends stored (ip_keys specs) (pop_server st3) (pop_server st')" by (rule extD [OF ext_pass4 [OF L S] 4])
  have "placed_now stored (pop_server st') (rid device) vmap specs spec" if "spec \<in> set specs" for spec
  proof (rule placed_now_extends [OF _ x4])
    have "placed_new stored (pop_server st1) (rid device) vmap spec" using x1(1) that by blast
    then have "placed_new stored (pop_server st2) (rid device) vmap spec" by (rule placed_new_extends [OF _ x2]) simp
    then show "placed_new stored (pop_server st3) (rid device) vmap spec" by (rule placed_new_extends [OF _ x3]) simp
  qed
  then show ?thesis
    using extends_trans [OF extends_trans [OF extends_trans [OF x1(2) x2] x3] x4] by simp
qed

section \<open>The inventory of a host\<close>

text \<open>
  The server holds exactly what fixture \<open>fx\<close> says of device \<open>d\<close>: the host, its interfaces and
  no others, and for each its fields and no address but its own.
\<close>

definition exact_iface ::
  "'s store \<Rightarrow> 's \<Rightarrow> int \<Rightarrow> (int \<Rightarrow> pydict option) \<Rightarrow> interface_spec \<Rightarrow> bool" where
  "exact_iface stored s d vmap spec \<longleftrightarrow> (\<exists>x. stored s Interfaces (iface_query d (if_name spec)) = Some x
     \<and> as_posted spec vmap x
     \<and> (\<forall>q y. stored s IpAddresses q = Some y \<longrightarrow> dict_get y ''assigned_object_id'' = PyInt (rid x) \<longrightarrow>
          given (if_ip spec) \<and> (IpAddresses, q) = ip_key spec))"

definition inventoried :: "'s store \<Rightarrow> 's \<Rightarrow> host_fixture \<Rightarrow> int \<Rightarrow> bool" where
  "inventoried stored s fx d \<longleftrightarrow> host_known stored s fx d
     \<and> (\<forall>n. stored s Interfaces (iface_query d n) \<noteq> None \<longrightarrow> n \<in> if_name ` set (fx_interfaces fx))
     \<and> (\<exists>vmap. fixture_vlans stored s fx vmap \<and> (\<forall>spec \<in> set (fx_interfaces fx). exact_iface stored s d vmap spec))"

text \<open>An address of a placed interface belongs to that interface alone.\<close>

lemma owned_ip_owner:
  assumes S: "serves_netbox api stored" and L: "keeps_inventory api stored client"
    and own: "owned_ip stored s d spec" and ip: "given (if_ip spec)"
    and y: "stored s IpAddresses q = Some y" "(IpAddresses, q) = ip_key spec"
  shows "\<exists>z. stored s Interfaces (iface_query d (if_name spec)) = Some z
    \<and> dict_get y ''assigned_object_id'' = PyInt (rid z)"
proof -
  obtain z w where z: "stored s Interfaces (iface_query d (if_name spec)) = Some z"
      "stored s IpAddresses [(''address'', PyStr (the (if_ip spec)))] = Some w"
      "check_ip_owner (the (if_ip spec)) (PyInt (rid z)) w = Inr ()"
    using own ip unfolding owned_ip_def by blast
  have "w = y" using z(2) y by (simp add: ip_key_def)
  moreover have "dict_get w ''assigned_object_id'' = PyNone \<or> (\<exists>n. dict_get w ''assigned_object_id'' = PyInt n)"
    using inventory_laws(1) [OF L, OF z(2)] by (simp add: keyed_def)
  moreover have "py_eq (dict_get w ''assigned_object_id'') (PyInt (rid z))"
    using z(3) by (simp add: check_ip_owner_def Let_def split: if_splits)
  ultimately have "dict_get y ''assigned_object_id'' = PyInt (rid z)" by (auto simp: py_num_def)
  then show ?thesis using z(1) by blast
qed

lemma fixture_vlans_complete: "fixture_vlans stored s fx vmap \<Longrightarrow> vmap n = Some r \<Longrightarrow> complete_record Vlans r"
proof -
  assume V: "fixture_vlans stored s fx vmap" and r: "vmap n = Some r"
  have "n \<in> dom vmap" using r by blast
  then obtain v where "v \<in> set (fx_vlans fx)" "n = vs_vid v" using V by (auto simp: fixture_vlans_def)
  then show "complete_record Vlans r" using V r by (auto simp: fixture_vlans_def)
qed

text \<open>What is assigned to a placed interface is its own address: each address belongs to one interface.\<close>

lemma placed_now_exact:
  assumes S: "serves_netbox api stored" and L: "keeps_inventory api stored client"
    and wf: "wf_specs specs" and P: "placed stored s d specs" and spec: "spec \<in> set specs"
    and now: "placed_now stored s d vmap specs spec"
  shows "exact_iface stored s d vmap spec"
proof -
  obtain x where x: "stored s Interfaces (iface_query d (if_name spec)) = Some x" "as_posted spec vmap x"
      "\<And>q y. stored s IpAddresses q = Some y \<Longrightarrow> dict_get y ''assigned_object_id'' = PyInt (rid x) \<Longrightarrow>
        (IpAddresses, q) \<in> ip_keys specs"
    using now unfolding placed_now_def by blast
  have "given (if_ip spec) \<and> (IpAddresses, q) = ip_key spec"
    if y: "stored s IpAddresses q = Some y" "dict_get y ''assigned_object_id'' = PyInt (rid x)" for q y
  proof -
    obtain sp where sp: "sp \<in> set specs" "given (if_ip sp)" "(IpAddresses, q) = ip_key sp"
      using x(3) [OF y] by (auto simp: ip_keys_def)
    have own: "owned_ip stored s d sp" using P sp(1) unfolding placed_def by blast
    obtain z where z: "stored s Interfaces (iface_query d (if_name sp)) = Some z" "rid z = rid x"
      using owned_ip_owner [OF S L own sp(2) y(1) sp(3)] y(2) by auto
    have "if_name sp = if_name spec" using serves_ids [OF S _ z(1) x(1) z(2)] by simp
    then have "sp = spec" using wf_specs_names [OF wf sp(1) spec] by blast
    then show ?thesis using sp by simp
  qed
  then show ?thesis using x unfolding exact_iface_def by blast
qed

lemma apply_one_new:
  assumes S: "serves_netbox api stored" and L: "keeps_inventory api stored client"
    and wf: "wf_specs (fx_interfaces fx)" and run: "apply_one api fx st = (Inr u, st')"
    and new: "stored (pop_server st) Devices (device_query fx) = None"
  shows "\<exists>d. objects_in_place stored (pop_server st') fx d \<and> placed stored (pop_server st') d (fx_interfaces fx)
    \<and> inventoried stored (pop_server st') fx d"
proof -
  let ?specs = "fx_interfaces fx"
  obtain device vmap st1 where 1: "apply_objects api fx st = (Inr (device, vmap), st1)"
      "apply_interfaces api ?specs device vmap st1 = (Inr u, st')"
    using run by (auto simp: apply_one_def abind_eq_Inr)
  let ?d = "rid device" and ?t = "pop_server st'"
  have D: "complete_record Devices device" and O: "objects_in_place stored (pop_server st1) fx ?d"
    using apply_objects_Inr [OF S 1(1)] by simp_all
  have N: "host_known stored (pop_server st1) fx ?d" "fixture_vlans stored (pop_server st1) fx vmap"
      "\<And>n. stored (pop_server st1) Interfaces (iface_query ?d n) = None"
    using apply_objects_new [OF S L 1(1) new] by simp_all
  have P: "placed stored ?t ?d ?specs" and ev: "evolves stored (\<lambda>q _. \<exists>n. q = iface_query ?d n) (pop_server st1) ?t"
    using apply_interfaces_Inr [OF S D wf 1(2)] by simp_all
  have I: "(\<forall>spec \<in> set ?specs. placed_now stored ?t ?d vmap ?specs spec)
    \<and> extends stored (iface_keys ?d ?specs \<union> mac_keys \<union> ip_keys ?specs) (pop_server st1) ?t"
    by (rule apply_interfaces_new [OF S L D _ wf 1(2) N(3)]) (rule fixture_vlans_complete [OF N(2)])
  note ex = conjunct2 [OF I]
  have "\<forall>spec \<in> set ?specs. exact_iface stored ?t ?d vmap spec"
    using placed_now_exact [OF S L wf P] conjunct1 [OF I] by blast
  moreover have "n \<in> if_name ` set ?specs" if "stored ?t Interfaces (iface_query ?d n) \<noteq> None" for n
  proof -
    from that obtain y where "stored ?t Interfaces (iface_query ?d n) = Some y" by blast
    from extends_new [OF ex this N(3)] show ?thesis by (auto simp: iface_keys_def ip_keys_def ip_key_def)
  qed
  moreover have "host_known stored ?t fx ?d" by (rule host_known_extends [OF N(1) ex])
  moreover have "fixture_vlans stored ?t fx vmap" using N(2) ex by (rule fixture_vlans_extends)
  ultimately have "inventoried stored ?t fx ?d" unfolding inventoried_def by blast
  then show ?thesis using P objects_evolves [OF S O ev] by blast
qed

section \<open>Other hosts' fixtures\<close>

lemma ext_device:
  assumes L: "keeps_inventory api stored client" and S: "serves_netbox api stored"
  shows "ext stored (ensure_device api fx site dt g) {(Devices, device_query fx)}"
  unfolding ensure_device_def device_query_def
  by (rule ext_ensure [OF L S]) (auto simp: device_payload_def rbind_eq_Inr query_of_def dict_get_def)

lemma ext_objects:
  assumes L: "keeps_inventory api stored client" and S: "serves_netbox api stored"
  shows "ext stored (apply_objects api fx) (insert (Devices, device_query fx) base_keys)"
proof -
  let ?K = "insert (Devices, device_query fx) base_keys"
  note steps = ext_mono [OF ext_slug [OF L S], where L = ?K] ext_mono [OF ext_device_type [OF L S], where L = ?K]
    ext_mono [OF ext_put_vlans [OF L S], where L = ?K] ext_mono [OF ext_device [OF L S], where L = ?K]
    ext_mono [OF ext_basic(1), where L = ?K]
  show ?thesis
    unfolding apply_objects_def ensure_site_def ensure_manufacturer_def ensure_device_role_def Let_def
    by (intro ext_both steps) auto
qed

lemma ext_put_interface:
  assumes L: "keeps_inventory api stored client" and S: "serves_netbox api stored"
    and D: "complete_record Devices device"
  shows "ext stored (put_interface api device vmap spec ifaces) {(Interfaces, iface_query (rid device) (if_name spec))}"
  unfolding ext_def
proof (intro allI impI)
  fix st ifs st' assume "put_interface api device vmap spec ifaces st = (Inr ifs, st')"
  then obtain r where r: "ensure api ''interface'' Interfaces (iface_query (rid device) (if_name spec)) no_check
      (interface_payload spec (PyInt (rid device)) vmap) st = (Inr r, st')"
    using put_interface_steps [OF D] by metis
  show "extends stored {(Interfaces, iface_query (rid device) (if_name spec))} (pop_server st) (pop_server st')"
    by (rule extD [OF ext_ensure [OF L S interface_query_of] r])
qed

lemma ext_interfaces:
  assumes L: "keeps_inventory api stored client" and S: "serves_netbox api stored"
    and D: "complete_record Devices device"
  shows "ext stored (apply_interfaces api specs device vmap) (iface_keys (rid device) specs \<union> mac_keys \<union> ip_keys specs)"
proof -
  let ?K = "iface_keys (rid device) specs \<union> mac_keys \<union> ip_keys specs"
  have "ext stored (afold (put_interface api device vmap) specs ifs) (iface_keys (rid device) specs)" for ifs
    by (rule ext_mono, rule ext_afold, rule ext_put_interface [OF L S D]) (auto simp: iface_keys_def)
  note steps = ext_mono [OF this, where L = ?K] ext_mono [OF ext_pass2 [OF L], where L = ?K]
    ext_mono [OF ext_pass3 [OF L S], where L = ?K] ext_mono [OF ext_pass4 [OF L S], where L = ?K]
  show ?thesis unfolding apply_interfaces_def by (intro ext_both steps) auto
qed

lemma apply_one_any:
  assumes S: "serves_netbox api stored" and L: "keeps_inventory api stored client"
    and wf: "wf_specs (fx_interfaces fx)" and run: "apply_one api fx st = (Inr u, st')"
  shows "\<exists>d. objects_in_place stored (pop_server st') fx d \<and> placed stored (pop_server st') d (fx_interfaces fx)
    \<and> extends stored (insert (Devices, device_query fx) base_keys
        \<union> (iface_keys d (fx_interfaces fx) \<union> mac_keys \<union> ip_keys (fx_interfaces fx))) (pop_server st) (pop_server st')"
proof -
  obtain device vmap st1 where 1: "apply_objects api fx st = (Inr (device, vmap), st1)"
      "apply_interfaces api (fx_interfaces fx) device vmap st1 = (Inr u, st')"
    using run by (auto simp: apply_one_def abind_eq_Inr)
  note o = apply_objects_Inr [OF S 1(1)]
  have D: "complete_record Devices device" using o by simp
  note i = apply_interfaces_Inr [OF S D wf 1(2)]
  have "objects_in_place stored (pop_server st') fx (rid device)"
    using objects_evolves [OF S _ conjunct1 [OF i]] o by simp
  moreover note extends_trans [OF extD [OF ext_objects [OF L S] 1(1)] extD [OF ext_interfaces [OF L S D] 1(2)]]
  ultimately show ?thesis using i by blast
qed

lemma exact_iface_kept:
  assumes S: "serves_netbox api stored" and L: "keeps_inventory api stored client"
    and ex: "exact_iface stored s d vmap spec" "extends stored K s t"
    and new: "\<And>q. (IpAddresses, q) \<in> K \<Longrightarrow> \<exists>spec' \<in> set specs'. given (if_ip spec') \<and> (IpAddresses, q) = ip_key spec'"
    and other: "placed stored t d' specs'" "d \<noteq> d'"
  shows "exact_iface stored t d vmap spec"
proof -
  obtain x where x: "stored s Interfaces (iface_query d (if_name spec)) = Some x" "as_posted spec vmap x"
      and own: "\<And>q y. stored s IpAddresses q = Some y \<Longrightarrow> dict_get y ''assigned_object_id'' = PyInt (rid x) \<Longrightarrow>
        given (if_ip spec) \<and> (IpAddresses, q) = ip_key spec"
    using ex(1) unfolding exact_iface_def by blast
  obtain x' where x': "stored t Interfaces (iface_query d (if_name spec)) = Some x'" "same_read x x'"
    by (rule extends_get [OF ex(2), OF x(1)])
  have "given (if_ip spec) \<and> (IpAddresses, q) = ip_key spec"
    if y: "stored t IpAddresses q = Some y" "dict_get y ''assigned_object_id'' = PyInt (rid x')" for q y
  proof (cases "stored s IpAddresses q")
    case None
    then obtain spec' where spec': "spec' \<in> set specs'" "given (if_ip spec')" "(IpAddresses, q) = ip_key spec'"
      using new extends_new [OF ex(2) y(1)] by blast
    have o: "owned_ip stored t d' spec'" using other(1) spec'(1) unfolding placed_def by blast
    obtain z where z: "stored t Interfaces (iface_query d' (if_name spec')) = Some z" "rid z = rid x'"
      using owned_ip_owner [OF S L o spec'(2) y(1) spec'(3)] y(2) by auto
    have "iface_query d' (if_name spec') = iface_query d (if_name spec)"
      using serves_ids [OF S _ z(1) x'(1) z(2)] by simp
    then show ?thesis using other(2) by simp
  next
    case (Some y0)
    obtain y1 where "stored t IpAddresses q = Some y1" "same_read y0 y1" by (rule extends_get [OF ex(2), OF Some])
    then have "dict_get y0 ''assigned_object_id'' = PyInt (rid x)"
      using x'(2) y by (simp add: same_read_def READ_SCALARS_def)
    then show ?thesis using own [OF Some] by simp
  qed
  then show ?thesis using x'(1) as_posted_same [OF x(2) x'(2)] unfolding exact_iface_def by blast
qed

text \<open>
  A host's state during a run: not yet known, or in place with its exact inventory.
\<close>

definition stocked :: "'s store \<Rightarrow> 's \<Rightarrow> host_fixture \<Rightarrow> bool" where
  "stocked stored s fx \<longleftrightarrow> (\<exists>d. objects_in_place stored s fx d \<and> placed stored s d (fx_interfaces fx)
     \<and> inventoried stored s fx d)"

lemma stocked_kept:
  assumes S: "serves_netbox api stored" and L: "keeps_inventory api stored client"
    and wf: "wf_specs (fx_interfaces fx')" and st: "stocked stored (pop_server st) fx"
    and run: "apply_one api fx' st = (Inr u, st')" and tags: "fx_asset_tag fx \<noteq> fx_asset_tag fx'"
  shows "stocked stored (pop_server st') fx"
proof -
  let ?s = "pop_server st" and ?t = "pop_server st'"
  obtain d where d: "objects_in_place stored ?s fx d" "placed stored ?s d (fx_interfaces fx)"
      "inventoried stored ?s fx d"
    using st by (auto simp: stocked_def)
  obtain d' where d': "objects_in_place stored ?t fx' d'" "placed stored ?t d' (fx_interfaces fx')"
      and ex: "extends stored (insert (Devices, device_query fx') base_keys
        \<union> (iface_keys d' (fx_interfaces fx') \<union> mac_keys \<union> ip_keys (fx_interfaces fx'))) ?s ?t"
    using apply_one_any [OF S L wf run] by blast
  obtain e where e: "objects_in_place stored ?t fx' e" "evolves stored (\<lambda>q _. \<exists>n. q = iface_query e n) ?s ?t"
    using apply_one_Inr [OF S wf run] by blast
  have o: "objects_in_place stored ?t fx d" by (rule objects_evolves [OF S d(1) e(2)])
  have ne: "d \<noteq> d'" "d \<noteq> e" using device_of_fixture [OF S o] d'(1) e(1) tags by blast+
  have p: "placed stored ?t d (fx_interfaces fx)" by (rule placed_evolves [OF d(2) e(2)]) (simp add: ne)
  obtain vmap where v: "fixture_vlans stored ?s fx vmap"
      "\<And>spec. spec \<in> set (fx_interfaces fx) \<Longrightarrow> exact_iface stored ?s d vmap spec"
    using d(3) unfolding inventoried_def by blast
  have "exact_iface stored ?t d vmap spec" if "spec \<in> set (fx_interfaces fx)" for spec
    by (rule exact_iface_kept [OF S L v(2) [OF that] ex _ d'(2) ne(1)])
       (auto simp: iface_keys_def ip_keys_def)
  moreover have "n \<in> if_name ` set (fx_interfaces fx)" if n: "stored ?t Interfaces (iface_query d n) \<noteq> None" for n
  proof -
    from n obtain y where y: "stored ?t Interfaces (iface_query d n) = Some y" by blast
    have "stored ?s Interfaces (iface_query d n) \<noteq> None"
    proof
      assume "stored ?s Interfaces (iface_query d n) = None"
      from extends_new [OF ex y this] ne(1) show False
        by (auto simp: iface_keys_def ip_keys_def ip_key_def)
    qed
    then show ?thesis using d(3) unfolding inventoried_def by blast
  qed
  moreover have "host_known stored ?t fx d"
    by (rule host_known_extends [OF _ ex]) (use d(3) in \<open>simp add: inventoried_def\<close>)
  moreover have "fixture_vlans stored ?t fx vmap" by (rule fixture_vlans_extends [OF v(1) ex])
  ultimately show ?thesis using o p unfolding stocked_def inventoried_def by blast
qed

lemma unknown_kept:
  assumes S: "serves_netbox api stored" and L: "keeps_inventory api stored client"
    and run: "wf_specs (fx_interfaces fx')" "apply_one api fx' st = (Inr u, st')"
    and tags: "fx_asset_tag fx \<noteq> fx_asset_tag fx'" and "stored (pop_server st) Devices (device_query fx) = None"
  shows "stored (pop_server st') Devices (device_query fx) = None"
proof (rule ccontr)
  assume "stored (pop_server st') Devices (device_query fx) \<noteq> None"
  then obtain y where y: "stored (pop_server st') Devices (device_query fx) = Some y" by blast
  from apply_one_any [OF S L run] obtain d where ex: "extends stored (insert (Devices, device_query fx') base_keys
      \<union> (iface_keys d (fx_interfaces fx') \<union> mac_keys \<union> ip_keys (fx_interfaces fx'))) (pop_server st) (pop_server st')"
    by blast
  from extends_new [OF ex y assms(6)] tags show False
    by (auto simp: iface_keys_def ip_keys_def ip_key_def device_query_def)
qed

text \<open>Over a list of fixtures for different hosts\<close>

lemma stocked_kept_all:
  assumes S: "serves_netbox api stored" and L: "keeps_inventory api stored client"
    and "aiter (apply_one api) fs st = (Inr (), st')" and "stocked stored (pop_server st) fx"
    and "\<forall>f \<in> set fs. wf_specs (fx_interfaces f) \<and> fx_asset_tag fx \<noteq> fx_asset_tag f"
  shows "stocked stored (pop_server st') fx"
  using assms(3-5)
proof (induction fs arbitrary: st)
  case (Cons f fs)
  obtain m where m: "apply_one api f st = (Inr (), m)" "aiter (apply_one api) fs m = (Inr (), st')"
    using Cons.prems(1) by (auto simp: abind_eq_Inr)
  from stocked_kept [OF S L _ Cons.prems(2) m(1)] Cons.prems(3) Cons.IH [OF m(2)] show ?case by simp
qed simp

lemma stocked_among:
  assumes S: "serves_netbox api stored" and L: "keeps_inventory api stored client"
    and "aiter (apply_one api) fs st = (Inr (), st')" and "stored (pop_server st) Devices (device_query fx) = None"
    and "distinct (map fx_asset_tag fs)" and "\<forall>f \<in> set fs. wf_specs (fx_interfaces f)" and "fx \<in> set fs"
  shows "stocked stored (pop_server st') fx"
  using assms(3-7)
proof (induction fs arbitrary: st)
  case (Cons f fs)
  obtain m where m: "apply_one api f st = (Inr (), m)" "aiter (apply_one api) fs m = (Inr (), st')"
    using Cons.prems(1) by (auto simp: abind_eq_Inr)
  show ?case
  proof (cases "f = fx")
    case True
    then have "stocked stored (pop_server m) fx"
      using apply_one_new [OF S L _ m(1)] Cons.prems(2,4) by (auto simp: stocked_def)
    then show ?thesis using stocked_kept_all [OF S L m(2)] Cons.prems(3,4) True by force
  next
    case False
    then have fs: "fx \<in> set fs" using Cons.prems(5) by simp
    then have tags: "fx_asset_tag fx \<noteq> fx_asset_tag f"
      using Cons.prems(3) imageI [OF fs, of fx_asset_tag] by (metis distinct.simps(2) list.simps(9) list.set_map)
    have "stored (pop_server m) Devices (device_query fx) = None"
      using unknown_kept [OF S L _ m(1) tags Cons.prems(2)] Cons.prems(4) by simp
    then show ?thesis using Cons.IH [OF m(2)] Cons.prems(3,4) fs by simp
  qed
qed simp

lemma populate_stocks:
  assumes S: "serves_netbox api stored" and L: "keeps_inventory api stored client"
    and wf: "wf_fixtures fixtures" and fx: "fx \<in> set fixtures"
    and new: "stored s Devices (device_query fx) = None"
    and run: "populate api fixtures s = (Inr rep, t)"
  shows "stocked stored t fx"
proof -
  obtain st' where "aiter (apply_one api) fixtures \<lparr>pop_server = s, pop_report = empty_populate_report\<rparr> = (Inr (), st')"
      "t = pop_server st'"
    using run by (auto simp: populate_def split: prod.splits sum.splits)
  with stocked_among [OF S L this(1)] new wf fx show ?thesis by (simp add: wf_fixtures_def)
qed

end
