(* ===== verification/Netbox_Server.thy ===== *)
theory Netbox_Server
  imports Fixture_Load
begin

text \<open>
  A Netbox: a server that keeps the posted objects in a list, numbered in the order of creation,
  refuses objects with dangling references and shows the objects a record refers to. It serves
  requests as \<open>serves_netbox\<close> and keeps its inventory as \<open>keeps_inventory\<close> ask, so
  the properties that rest on the two can be tried on it.
\<close>

section \<open>Rows\<close>

record row =
  row_endpoint :: endpoint
  row_posted :: pydict
  row_refs :: "(string \<times> int) list"

definition row_query :: "row \<Rightarrow> pydict" where
  "row_query r = query_of (row_endpoint r) (row_posted r)"

definition entry :: "row list \<Rightarrow> int \<Rightarrow> pydict" where
  "entry rows n = (if 0 < n \<and> n \<le> int (length rows) then row_posted (rows ! (nat n - 1)) else [])"

text \<open>A reference is shown as the object it refers to.\<close>

definition shown :: "row list \<Rightarrow> pyval \<Rightarrow> pyval" where
  "shown rows v = (case v of
      PyInt n \<Rightarrow> PyDict ((''id'', PyInt n) # entry rows n @ [(''name'', PyStr '''')]) | _ \<Rightarrow> PyNone)"

definition POSTED_REFS :: "string list" where
  "POSTED_REFS = [''role'', ''untagged_vlan'']"

definition row_view :: "row list \<Rightarrow> nat \<Rightarrow> pydict" where
  "row_view rows i = (''id'', PyInt (int (Suc i)))
     # map (\<lambda>a. (a, shown rows (case map_of (row_refs (rows ! i)) a of None \<Rightarrow> PyNone | Some n \<Rightarrow> PyInt n))) REFS
     @ map (\<lambda>a. (a, shown rows (dict_get (row_posted (rows ! i)) a))) POSTED_REFS
     @ row_posted (rows ! i) @ [(''name'', PyStr '''')]"

text \<open>What the server accepts of the object in row \<open>i\<close>\<close>

definition is_text :: "pyval \<Rightarrow> bool" where
  "is_text v = (case v of PyStr _ \<Rightarrow> True | _ \<Rightarrow> False)"

definition is_int :: "pyval \<Rightarrow> bool" where
  "is_int v = (case v of PyInt _ \<Rightarrow> True | _ \<Rightarrow> False)"

definition refers_back :: "nat \<Rightarrow> pyval \<Rightarrow> bool" where
  "refers_back i v = (case v of PyInt n \<Rightarrow> 0 < n \<and> n \<le> int i | _ \<Rightarrow> False)"

definition vlan_ok :: "row list \<Rightarrow> nat \<Rightarrow> pyval \<Rightarrow> bool" where
  "vlan_ok rows i v = (case v of PyNone \<Rightarrow> True
     | PyInt n \<Rightarrow> refers_back i v \<and> is_int (dict_get (entry rows n) ''vid'') | _ \<Rightarrow> False)"

definition row_ok :: "row list \<Rightarrow> nat \<Rightarrow> bool" where
  "row_ok rows i = (let p = row_posted (rows ! i) in
     case row_endpoint (rows ! i) of
       Devices \<Rightarrow> is_text (dict_get p ''name'') \<and> (is_int (dict_get p ''role'') \<or> dict_get p ''role'' = PyNone)
     | Interfaces \<Rightarrow> is_text (dict_get p ''name'') \<and> refers_back i (dict_get p ''device'')
         \<and> vlan_ok rows i (dict_get p ''untagged_vlan'')
     | MacAddresses \<Rightarrow> is_text (dict_get p ''mac_address'')
     | IpAddresses \<Rightarrow> dict_get p ''assigned_object_id'' = PyNone \<or> refers_back i (dict_get p ''assigned_object_id'')
     | _ \<Rightarrow> True)"

definition row_of :: "row list \<Rightarrow> endpoint \<Rightarrow> pydict \<Rightarrow> nat option" where
  "row_of rows e q = find (\<lambda>i. row_endpoint (rows ! i) = e \<and> row_query (rows ! i) = q \<and> row_ok rows i) [0..<length rows]"

definition rows_stored :: "row list \<Rightarrow> endpoint \<Rightarrow> pydict \<Rightarrow> pydict option" where
  "rows_stored rows e q = map_option (row_view rows) (row_of rows e q)"

definition rows_create :: "endpoint \<Rightarrow> pydict \<Rightarrow> (row list, exn, pydict) act" where
  "rows_create e p rows =
     (let rows' = rows @ [\<lparr>row_endpoint = e, row_posted = p, row_refs = []\<rparr>]
      in if row_ok rows' (length rows) then (Inr (row_view rows' (length rows)), rows')
         else (Inl (ExternalError ''400''), rows))"

definition rows_update :: "pydict \<Rightarrow> pydict \<Rightarrow> (row list, exn, pydict) act" where
  "rows_update r p rows =
     (let i = nat (rid r) - 1 in
      case p of
        [(a, PyInt n)] \<Rightarrow>
          if 0 < rid r \<and> i < length rows \<and> row_endpoint (rows ! i) = Interfaces
          then (Inr ((''id'', PyInt (rid r)) # map (\<lambda>b. (b, PyNone)) REFS),
                rows[i := (rows ! i)\<lparr>row_refs := (a, n) # row_refs (rows ! i)\<rparr>])
          else (Inl (ExternalError ''404''), rows)
      | _ \<Rightarrow> (Inl (ExternalError ''400''), rows))"

definition rows_api :: "row list netbox_api" where
  "rows_api = \<lparr>api_get = \<lambda>e q rows. (Inr (rows_stored rows e q), rows),
     api_create = rows_create, api_update = rows_update\<rparr>"

text \<open>The loader's client\<close>

definition device_of :: "pydict \<Rightarrow> nb_device" where
  "device_of x = \<lparr>nbd_id = rid x, nbd_name = text_attr x ''name'',
     nbd_role = map_option (\<lambda>d. text_attr d ''slug'') (nested x ''role'')\<rparr>"

definition vlan_of :: "pydict \<Rightarrow> nb_vlan" where
  "vlan_of d = \<lparr>nbv_vid = the (int_attr d ''vid''), nbv_name = text_attr d ''name''\<rparr>"

definition iface_of :: "pydict \<Rightarrow> nb_iface" where
  "iface_of x = \<lparr>nbi_id = rid x, nbi_name = the (text_attr x ''name''),
     nbi_primary_mac = map_option (\<lambda>d. \<lparr>nbm_mac_address = text_attr d ''mac_address'', nbm_text = ''''\<rparr>)
       (nested x ''primary_mac_address''),
     nbi_mtu = int_attr x ''mtu'',
     nbi_untagged_vlan = map_option vlan_of (nested x ''untagged_vlan''),
     nbi_custom_fields = nested x ''custom_fields''\<rparr>"

definition row_text :: "row list \<Rightarrow> string \<Rightarrow> nat \<Rightarrow> string" where
  "row_text rows k i = (case dict_get (row_posted (rows ! i)) k of PyStr s \<Rightarrow> s | _ \<Rightarrow> '''')"

definition ifaces_at :: "row list \<Rightarrow> int \<Rightarrow> nat list" where
  "ifaces_at rows d = filter (\<lambda>i. row_of rows Interfaces (iface_query d (row_text rows ''name'' i)) = Some i) [0..<length rows]"

definition ips_at :: "row list \<Rightarrow> int \<Rightarrow> nat list" where
  "ips_at rows n = filter (\<lambda>i. row_of rows IpAddresses [(''address'', PyStr (row_text rows ''address'' i))] = Some i
     \<and> dict_get (row_posted (rows ! i)) ''assigned_object_id'' = PyInt n) [0..<length rows]"

definition rows_client :: "row list \<Rightarrow> nb_client" where
  "rows_client rows =
     \<lparr>nb_get_device = (\<lambda>tag. Inr (map_option device_of (rows_stored rows Devices [(''asset_tag'', PyStr tag)]))),
      nb_list_interfaces = (\<lambda>d. Inr (map (\<lambda>i. iface_of (row_view rows i)) (ifaces_at rows d))),
      nb_list_ips = (\<lambda>n. Inr (map (row_text rows ''address'') (ips_at rows n))),
      nb_status = Inr ()\<rparr>"

section \<open>What a record shows\<close>

lemma rid_view [simp]: "rid (row_view rows i) = int (Suc i)"
  by (simp add: rid_def row_view_def)

lemma shown_id: "nested_id (shown rows v) = (case v of PyInt n \<Rightarrow> PyInt n | _ \<Rightarrow> PyNone)"
  by (cases v) (simp_all add: shown_def nested_id_def dict_get_def py_truthy_def)

lemma view_ref: "a \<in> set REFS \<Longrightarrow> map_of (row_view rows i) a =
    Some (shown rows (case map_of (row_refs (rows ! i)) a of None \<Rightarrow> PyNone | Some n \<Rightarrow> PyInt n))"
  unfolding REFS_def row_view_def set_simps insert_iff empty_iff by (elim disjE FalseE) simp_all

lemma ref_view: "a \<in> set REFS \<Longrightarrow> ref a (row_view rows i) =
    (case map_of (row_refs (rows ! i)) a of None \<Rightarrow> PyNone | Some n \<Rightarrow> PyInt n)"
  by (simp add: ref_def dict_get_def view_ref shown_id split: option.splits)

lemma view_posted_ref: "a \<in> set POSTED_REFS \<Longrightarrow> dict_get (row_view rows i) a =
    shown rows (dict_get (row_posted (rows ! i)) a)"
  unfolding REFS_def POSTED_REFS_def row_view_def dict_get_def set_simps insert_iff empty_iff
  by (elim disjE FalseE) simp_all

lemma ref_posted: "a \<in> set POSTED_REFS \<Longrightarrow> ref a (row_view rows i) =
    (case dict_get (row_posted (rows ! i)) a of PyInt n \<Rightarrow> PyInt n | _ \<Rightarrow> PyNone)"
  by (simp add: ref_def view_posted_ref shown_id)

definition POSTED_SCALARS :: "string list" where
  "POSTED_SCALARS = [''u_height'', ''assigned_object_id'', ''mtu'', ''slug'', ''vid'', ''mac_address'', ''custom_fields'']"

lemma view_name: "map_of (row_view rows i) ''name'' =
    (case map_of (row_posted (rows ! i)) ''name'' of None \<Rightarrow> Some (PyStr '''') | Some v \<Rightarrow> Some v)"
  by (simp add: row_view_def REFS_def POSTED_REFS_def map_add_def split: option.splits)

lemma view_scalar: "k \<in> set POSTED_SCALARS \<Longrightarrow> dict_get (row_view rows i) k = dict_get (row_posted (rows ! i)) k"
  unfolding POSTED_SCALARS_def REFS_def POSTED_REFS_def row_view_def dict_get_def set_simps insert_iff empty_iff
  by (elim disjE FalseE) (simp_all add: map_add_def split: option.splits)

lemma view_custom: "custom (row_view rows i) k = custom (row_posted (rows ! i)) k"
  by (simp add: custom_def nested_def view_scalar POSTED_SCALARS_def)

lemma complete_view: "complete_record e (row_view rows i)"
  unfolding complete_record_def
proof (intro conjI impI ballI)
  show "\<exists>n > 0. map_of (row_view rows i) ''id'' = Some (PyInt n)" by (simp add: row_view_def)
  show "map_of (row_view rows i) ''name'' \<noteq> None" by (simp add: view_name split: option.splits)
  fix a assume a: "a \<in> set REFS"
  show "map_of (row_view rows i) a \<noteq> None" using view_ref [OF a] by simp
  show "ref a (row_view rows i) = PyNone \<or> (\<exists>n. ref a (row_view rows i) = PyInt n)"
    using ref_view [OF a] by (simp split: option.splits)
qed

lemma row_ofD: "row_of rows e q = Some i \<Longrightarrow>
    i < length rows \<and> row_endpoint (rows ! i) = e \<and> row_query (rows ! i) = q \<and> row_ok rows i"
  by (auto simp: row_of_def find_Some_iff)

text \<open>Rows that differ at most in their references\<close>

definition same_posted :: "row list \<Rightarrow> row list \<Rightarrow> nat \<Rightarrow> bool" where
  "same_posted rows rows' n \<longleftrightarrow> n \<le> length rows \<and> n \<le> length rows'
     \<and> (\<forall>i < n. row_endpoint (rows ! i) = row_endpoint (rows' ! i) \<and> row_posted (rows ! i) = row_posted (rows' ! i))"

lemma same_posted_entry:
  assumes "same_posted rows rows' n" and "0 < v" and "v \<le> int n"
  shows "entry rows v = entry rows' v"
proof -
  have "nat v - 1 < n" using assms(2,3) by linarith
  then show ?thesis using assms by (simp add: entry_def same_posted_def)
qed

lemma same_posted_ok:
  assumes "same_posted rows rows' n" and "i < n"
  shows "row_ok rows i = row_ok rows' i"
proof -
  have "vlan_ok rows i v = vlan_ok rows' i v" for v
    using same_posted_entry [OF assms(1)] assms(2) by (auto simp: vlan_ok_def refers_back_def split: pyval.splits)
  then show ?thesis using assms by (simp add: row_ok_def same_posted_def Let_def split: endpoint.split)
qed

lemma same_posted_find:
  assumes "same_posted rows rows' n"
  shows "find (\<lambda>i. row_endpoint (rows ! i) = e \<and> row_query (rows ! i) = q \<and> row_ok rows i) [0..<n]
    = find (\<lambda>i. row_endpoint (rows' ! i) = e \<and> row_query (rows' ! i) = q \<and> row_ok rows' i) [0..<n]"
  using assms same_posted_ok [OF assms] by (intro find_cong) (auto simp: same_posted_def row_query_def)


text \<open>Adding a row and pointing a reference elsewhere\<close>

abbreviation new_row :: "endpoint \<Rightarrow> pydict \<Rightarrow> row" where
  "new_row e p \<equiv> \<lparr>row_endpoint = e, row_posted = p, row_refs = []\<rparr>"

definition point_row :: "string \<Rightarrow> int \<Rightarrow> row \<Rightarrow> row" where
  "point_row a n r = r\<lparr>row_refs := (a, n) # row_refs r\<rparr>"

lemma same_append: "same_posted rows (rows @ [r]) (length rows)"
  by (simp add: same_posted_def nth_append)

lemma point_row_nth:
  "row_endpoint (s[i := point_row a n (s ! i)] ! j) = row_endpoint (s ! j)"
  "row_posted (s[i := point_row a n (s ! i)] ! j) = row_posted (s ! j)"
  "row_refs (s[i := point_row a n (s ! i)] ! j) =
    (if j = i \<and> i < length s then (a, n) # row_refs (s ! j) else row_refs (s ! j))"
  by (cases "i < length s"; cases "j = i"; simp add: point_row_def list_update_beyond)+

lemma same_point: "same_posted rows (rows[i := point_row a n (rows ! i)]) (length rows)"
  by (simp add: same_posted_def point_row_nth)

lemma row_of_point [simp]: "row_of (rows[i := point_row a n (rows ! i)]) e q = row_of rows e q"
  using same_posted_find [OF same_point, of rows e q i a n] by (simp add: row_of_def)

lemma find_append: "find P (xs @ ys) = (case find P xs of None \<Rightarrow> find P ys | Some x \<Rightarrow> Some x)"
  by (induction xs) auto

lemma row_of_append:
  "row_of (rows @ [r]) e q = (case row_of rows e q of
     Some i \<Rightarrow> Some i
   | None \<Rightarrow> if row_endpoint r = e \<and> row_query r = q \<and> row_ok (rows @ [r]) (length rows)
       then Some (length rows) else None)"
  using same_posted_find [OF same_append, of rows e q r] by (simp add: row_of_def find_append split: option.splits)

lemma rows_create_Inr:
  assumes "api_create rows_api e p s = (Inr r, t)"
  shows "t = s @ [new_row e p]" "r = row_view t (length s)" "row_ok t (length s)"
  using assms by (auto simp: rows_api_def rows_create_def Let_def split: if_splits)

lemma rows_update_Inr:
  assumes "api_update rows_api r [(a, v)] s = (Inr r', t)"
  obtains i n where "v = PyInt n" "rid r = int (Suc i)" "i < length s" "row_endpoint (s ! i) = Interfaces"
    "r' = (''id'', PyInt (rid r)) # map (\<lambda>b. (b, PyNone)) REFS" "t = s[i := point_row a n (s ! i)]"
proof -
  obtain n where "v = PyInt n" using assms by (cases v) (simp_all add: rows_api_def rows_update_def)
  moreover from this have "rid r = int (Suc (nat (rid r) - 1))" "nat (rid r) - 1 < length s"
    "row_endpoint (s ! (nat (rid r) - 1)) = Interfaces"
    "r' = (''id'', PyInt (rid r)) # map (\<lambda>b. (b, PyNone)) REFS"
    "t = s[nat (rid r) - 1 := point_row a n (s ! (nat (rid r) - 1))]"
    using assms by (auto simp: rows_api_def rows_update_def Let_def point_row_def split: if_splits)
  ultimately show thesis by (rule that)
qed

section \<open>Serving requests\<close>

text \<open>What is read of a row depends on what was posted.\<close>

lemma same_posted_view:
  assumes "row_posted (rows ! i) = row_posted (rows' ! i)"
  shows "core (row_view rows i) (row_view rows' i)" "same_read (row_view rows i) (row_view rows' i)"
proof -
  have d: "dict_get (row_view rows i) k = dict_get (row_view rows' i) k" if "k \<in> set (''name'' # POSTED_SCALARS)" for k
  proof (cases "k = ''name''")
    case True
    then show ?thesis using assms by (simp add: dict_get_def view_name)
  qed (use that assms in \<open>simp add: view_scalar\<close>)
  show "core (row_view rows i) (row_view rows' i)" using d by (simp add: core_def SCALARS_def POSTED_SCALARS_def)
  show "same_read (row_view rows i) (row_view rows' i)"
    using d assms by (simp add: same_read_def READ_SCALARS_def POSTED_SCALARS_def ref_posted POSTED_REFS_def view_custom)
qed

lemma kept_append:
  assumes "rows_stored s e q = Some x"
  obtains i where "row_of s e q = Some i" "x = row_view s i" "i < length s"
    "rows_stored (s @ [r]) e q = Some (row_view (s @ [r]) i)"
  using assms row_ofD by (auto simp: rows_stored_def row_of_append)

lemma kept_point:
  assumes "rows_stored s e q = Some x"
  obtains j where "row_of s e q = Some j" "x = row_view s j" "j < length s"
    "rows_stored (s[i := point_row a n (s ! i)]) e q = Some (row_view (s[i := point_row a n (s ! i)]) j)"
  using assms row_ofD by (auto simp: rows_stored_def)


lemma rows_creates: "creates rows_api rows_stored"
  unfolding creates_def
proof (intro allI impI)
  fix e p s r t
  assume none: "rows_stored s e (query_of e p) = None" and run: "api_create rows_api e p s = (Inr r, t)"
  note c = rows_create_Inr [OF run]
  have "rows_stored t e (query_of e p) = Some r"
    using none c by (auto simp: rows_stored_def row_of_append row_query_def)
  moreover have "dict_get r k = dict_get p k" if "k \<in> set SCALARS" "map_of p k \<noteq> None" for k
  proof (cases "k = ''name''")
    case True
    then show ?thesis using that(2) c by (auto simp: dict_get_def view_name)
  qed (use that c in \<open>auto simp: SCALARS_def POSTED_SCALARS_def view_scalar\<close>)
  moreover have "evolves rows_stored (\<lambda>_ _. False) s t"
    unfolding evolves_def
  proof (intro allI impI)
    fix e q x assume "rows_stored s e q = Some x"
    then obtain i where i: "x = row_view s i" "i < length s" "rows_stored t e q = Some (row_view t i)"
      unfolding c(1) by (rule kept_append)
    then have "core x (row_view t i)" "\<forall>a \<in> set REFS. ref a x = ref a (row_view t i)"
      using same_posted_view(1) [of s i t] by (simp_all add: c(1) nth_append ref_view)
    then show "\<exists>y. rows_stored t e q = Some y \<and> core x y
        \<and> (\<forall>a \<in> set REFS. \<not> (e = Interfaces \<and> False) \<longrightarrow> ref a x = ref a y)" using i(3) by blast
  qed
  ultimately show "evolves rows_stored (\<lambda>_ _. False) s t \<and> complete_record e r
     \<and> (\<exists>x. rows_stored t e (query_of e p) = Some x \<and> rid x = rid r \<and> (\<forall>a \<in> set REFS. ref a x = ref a r)
          \<and> (\<forall>k \<in> set SCALARS. map_of p k \<noteq> None \<longrightarrow> dict_get x k = dict_get p k))"
    using complete_view c(2) by blast
qed

lemma point_row_evolves:
  assumes i: "i < length s" "row_endpoint (s ! i) = Interfaces"
  shows "evolves rows_stored
    (\<lambda>q b. b = a \<and> (\<exists>x. rows_stored s Interfaces q = Some x \<and> rid x = int (Suc i))) s (s[i := point_row a n (s ! i)])"
  unfolding evolves_def
proof (intro allI impI)
  fix e q x assume x: "rows_stored s e q = Some x"
  let ?t = "s[i := point_row a n (s ! i)]"
  obtain j where j: "row_of s e q = Some j" "x = row_view s j" "rows_stored ?t e q = Some (row_view ?t j)"
    using x by (rule kept_point)
  have "core x (row_view ?t j)" unfolding j(2) by (rule same_posted_view) (simp add: point_row_nth)
  moreover have "ref b x = ref b (row_view ?t j)"
    if b: "b \<in> set REFS" "\<not> (e = Interfaces \<and> b = a \<and> (\<exists>x. rows_stored s Interfaces q = Some x \<and> rid x = int (Suc i)))" for b
  proof (cases "j = i")
    case True
    then have "e = Interfaces" "rid x = int (Suc i)" using row_ofD [OF j(1)] i j(2) by auto
    then have "b \<noteq> a" using b(2) x by auto
    then show ?thesis by (simp add: j(2) ref_view [OF b(1)] point_row_nth)
  qed (simp add: j(2) ref_view [OF b(1)] point_row_nth)
  ultimately show "\<exists>y. rows_stored ?t e q = Some y \<and> core x y
     \<and> (\<forall>b \<in> set REFS. \<not> (e = Interfaces \<and> b = a
            \<and> (\<exists>x. rows_stored s Interfaces q = Some x \<and> rid x = int (Suc i))) \<longrightarrow> ref b x = ref b y)"
    using j(3) by blast
qed

lemma rows_updates: "updates rows_api rows_stored"
  unfolding updates_def
proof (intro ballI allI impI)
  fix a r n s r' t
  assume a: "a \<in> set REFS" and run: "api_update rows_api r [(a, PyInt n)] s = (Inr r', t)"
  obtain i n' where n': "PyInt n = PyInt n'" and i: "rid r = int (Suc i)" "i < length s"
      "row_endpoint (s ! i) = Interfaces" and r': "r' = (''id'', PyInt (rid r)) # map (\<lambda>b. (b, PyNone)) REFS"
      and t': "t = s[i := point_row a n' (s ! i)]"
    using run by (rule rows_update_Inr)
  have t: "t = s[i := point_row a n (s ! i)]" using n' t' by simp
  have refs: "map_of r' b = Some PyNone" if "b \<in> set REFS" for b
    using that unfolding r' REFS_def set_simps insert_iff empty_iff by (elim disjE FalseE) simp_all
  have none: "\<forall>b \<in> set REFS. ref b r' = PyNone"
    using refs by (simp add: ref_def dict_get_def nested_id_def py_truthy_def)
  have rid: "rid r' = rid r" by (simp add: r' rid_def)
  have "complete_record Interfaces r'"
    using i(1) refs none by (simp add: complete_record_def) (simp add: r')
  moreover have "\<exists>y. rows_stored t Interfaces q = Some y \<and> ref a y = PyInt n"
    if x: "rows_stored s Interfaces q = Some x \<and> rid x = rid r" for q x
  proof -
    obtain j where j: "x = row_view s j" "rows_stored t Interfaces q = Some (row_view t j)"
      using conjunct1 [OF x] unfolding t by (rule kept_point)
    then have "j = i" using x i(1) by simp
    then show ?thesis using j(2) i(2) by (simp add: t ref_view [OF a] point_row_def)
  qed
  ultimately show "complete_record Interfaces r' \<and> rid r' = rid r
     \<and> (\<forall>b \<in> set REFS. ref b r' = PyNone \<or> ref b r' = (if b = a then PyInt n else ref b r))
     \<and> evolves rows_stored (\<lambda>q b. b = a \<and> (\<exists>x. rows_stored s Interfaces q = Some x \<and> rid x = rid r)) s t
     \<and> (\<forall>q x. rows_stored s Interfaces q = Some x \<and> rid x = rid r \<longrightarrow>
          (\<exists>y. rows_stored t Interfaces q = Some y \<and> ref a y = PyInt n))"
    using rid none point_row_evolves [OF i(2,3), of a n] unfolding t i(1) by blast
qed

lemma rows_ids: "ids_identify rows_stored"
  unfolding ids_identify_def rows_stored_def by (auto dest!: row_ofD)

lemma rows_serve: "serves_netbox rows_api rows_stored"
  unfolding serves_netbox_def using rows_ids rows_creates rows_updates complete_view
  by (auto simp: rows_api_def rows_stored_def)


section \<open>Keeping the inventory\<close>

lemma append_extends:
  assumes "t = s @ [new_row e p]"
  shows "extends rows_stored {(e, query_of e p)} s t"
  unfolding extends_def
proof (intro conjI allI impI)
  fix e' q assume "rows_stored t e' q \<noteq> None"
  then show "rows_stored s e' q \<noteq> None \<or> (e', q) \<in> {(e, query_of e p)}"
    by (auto simp: assms rows_stored_def row_of_append row_query_def split: option.splits if_splits)
next
  fix e' q x assume "rows_stored s e' q = Some x"
  then obtain i where i: "x = row_view s i" "i < length s" "rows_stored t e' q = Some (row_view t i)"
    unfolding assms by (rule kept_append)
  then show "\<exists>y. rows_stored t e' q = Some y \<and> same_read x y"
    using same_posted_view(2) [of s i t] by (auto simp: assms nth_append)
qed

lemma stored_row:
  assumes "rows_stored s e q = Some x"
  obtains i where "row_of s e q = Some i" "x = row_view s i" "i < length s" "row_endpoint (s ! i) = e"
    "q = query_of e (row_posted (s ! i))" "row_ok s i"
proof -
  obtain i where i: "row_of s e q = Some i" "x = row_view s i" using assms by (auto simp: rows_stored_def)
  then show thesis using that row_ofD [OF i(1)] by (auto simp: row_query_def)
qed

lemma int_val: "is_int v \<longleftrightarrow> (\<exists>n. v = PyInt n)" and text_val: "is_text v \<longleftrightarrow> (\<exists>t. v = PyStr t)"
  and refers_back_val: "refers_back i v \<longleftrightarrow> (\<exists>n. v = PyInt n \<and> 0 < n \<and> n \<le> int i)"
  by (cases v; auto simp: is_int_def is_text_def refers_back_def)+

lemma vlan_okD: "vlan_ok s i v \<Longrightarrow> v = PyNone \<or> (\<exists>n m. v = PyInt n \<and> 0 < n \<and> n \<le> int i \<and> dict_get (entry s n) ''vid'' = PyInt m)"
  by (auto simp: vlan_ok_def refers_back_def int_val split: pyval.splits)

lemma view_text:
  assumes "dict_get (row_posted (s ! i)) ''name'' = PyStr n"
  shows "dict_get (row_view s i) ''name'' = PyStr n"
  using assms by (simp add: dict_get_def view_name split: option.splits)

lemma rows_adds: "adds_objects rows_api rows_stored"
  unfolding adds_objects_def
proof (intro allI impI)
  fix e p s r t
  assume none: "rows_stored s e (query_of e p) = None" and run: "api_create rows_api e p s = (Inr r, t)"
  note c = rows_create_Inr [OF run]
  have rid: "rid r = int (Suc (length s))" by (simp add: c(2))
  have rb: "reads_back e p x" if "rows_stored t e (query_of e p) = Some x" for x
  proof -
    have "x = row_view t (length s)"
      using that none c by (auto simp: rows_stored_def row_of_append row_query_def)
    then show ?thesis
      using c(3) by (auto simp: reads_back_def c(1) row_ok_def Let_def view_scalar POSTED_SCALARS_def view_custom
          ref_posted POSTED_REFS_def text_val int_val view_text dest!: vlan_okD)
  qed
  have "rows_stored t Interfaces (iface_query (rid r) n) = None" if e: "e = Devices" for n
  proof (rule ccontr)
    assume "rows_stored t Interfaces (iface_query (rid r) n) \<noteq> None"
    then obtain y where "rows_stored t Interfaces (iface_query (rid r) n) = Some y" by blast
    then obtain i where i: "i < length t" "row_endpoint (t ! i) = Interfaces"
        "iface_query (rid r) n = query_of Interfaces (row_posted (t ! i))" "row_ok t i"
      by (rule stored_row)
    then have "dict_get (row_posted (t ! i)) ''device'' = PyInt (int (Suc (length s)))"
      by (simp add: iface_query_def query_of_def rid)
    then show False using i by (simp add: row_ok_def Let_def refers_back_def c(1))
  qed
  moreover have "dict_get y ''assigned_object_id'' \<noteq> PyInt (rid r)"
    if e: "e = Interfaces" and y: "rows_stored t IpAddresses q = Some y" for q y
  proof
    assume a: "dict_get y ''assigned_object_id'' = PyInt (rid r)"
    obtain i where i: "y = row_view t i" "i < length t" "row_endpoint (t ! i) = IpAddresses" "row_ok t i"
      using y by (rule stored_row)
    then show False using a by (simp add: row_ok_def Let_def refers_back_def c(1) rid view_scalar POSTED_SCALARS_def)
  qed
  ultimately show "extends rows_stored {(e, query_of e p)} s t
     \<and> (\<forall>x. rows_stored t e (query_of e p) = Some x \<longrightarrow> reads_back e p x)
     \<and> (e = Devices \<longrightarrow> (\<forall>n. rows_stored t Interfaces (iface_query (rid r) n) = None))
     \<and> (e = Interfaces \<longrightarrow> (\<forall>q y. rows_stored t IpAddresses q = Some y \<longrightarrow>
          dict_get y ''assigned_object_id'' \<noteq> PyInt (rid r)))"
    using append_extends [OF c(1)] rb by blast
qed

lemma rows_patches: "patches_refs rows_api rows_stored"
  unfolding patches_refs_def
proof (intro ballI allI impI)
  fix a r v s r' t
  assume run: "api_update rows_api r [(a, v)] s = (Inr r', t)"
  obtain i n where t: "t = s[i := point_row a n (s ! i)]" using run by (rule rows_update_Inr)
  show "extends rows_stored {} s t"
    unfolding extends_def
  proof (intro conjI allI impI)
    show "rows_stored s e q \<noteq> None \<or> (e, q) \<in> {}" if "rows_stored t e q \<noteq> None" for e q
      using that by (simp add: t rows_stored_def)
    fix e q x assume "rows_stored s e q = Some x"
    then obtain j where j: "x = row_view s j" "rows_stored t e q = Some (row_view t j)" unfolding t by (rule kept_point)
    then show "\<exists>y. rows_stored t e q = Some y \<and> same_read x y"
      using same_posted_view(2) [of s j t] by (simp add: t point_row_nth)
  qed
qed

lemma rows_keyed:
  assumes "rows_stored s e q = Some x"
  shows "keyed e q x"
proof -
  obtain i where i: "x = row_view s i" "row_endpoint (s ! i) = e" "q = query_of e (row_posted (s ! i))" "row_ok s i"
    using assms by (rule stored_row)
  have none: "nested x ''untagged_vlan'' = None" if "ref ''untagged_vlan'' x = PyNone"
    using that by (auto simp: i(1) ref_posted POSTED_REFS_def nested_def view_posted_ref shown_def split: pyval.splits)
  show ?thesis
    using i(4) by (auto simp: keyed_def i(1-3) none [unfolded i(1)] query_of_def view_scalar POSTED_SCALARS_def
        row_ok_def Let_def text_val refers_back_val dict_get_def [of "[_]"] dict_get_def [of "_ # _"])
qed

lemma entry_at: "j < length s \<Longrightarrow> entry s (1 + int j) = row_posted (s ! j)"
  by (simp add: entry_def nat_add_distrib)

lemma view_shown: "a \<in> set REFS \<or> a \<in> set POSTED_REFS \<Longrightarrow>
    dict_get (row_view s i) a = shown s (ref a (row_view s i))"
proof (elim disjE)
  assume "a \<in> set REFS"
  then show ?thesis by (simp add: dict_get_def view_ref ref_view)
next
  assume "a \<in> set POSTED_REFS"
  then show ?thesis by (simp add: view_posted_ref ref_posted shown_def split: pyval.split)
qed

lemma entry_view:
  assumes "j < length s" and "k \<in> {''slug'', ''vid'', ''name'', ''mac_address''}"
  shows "dict_get ((''id'', v) # entry s (int (Suc j)) @ [(''name'', PyStr '''')]) k = dict_get (row_view s j) k"
proof (cases "k = ''name''")
  case True
  then show ?thesis using assms(1) by (simp add: dict_get_def view_name entry_at map_add_def split: option.splits)
next
  case False
  then have "k \<in> set POSTED_SCALARS" "k \<noteq> ''id''" using assms(2) by (auto simp: POSTED_SCALARS_def)
  then show ?thesis
    using assms(1) False by (simp add: view_scalar) (simp add: dict_get_def entry_at map_add_def split: option.splits)
qed

lemma rows_nest:
  assumes "a \<in> set REFS \<or> a \<in> set POSTED_REFS"
  shows "nests rows_stored e a e'"
  unfolding nests_def
proof (intro allI impI)
  fix s q x q' y
  assume x: "rows_stored s e q = Some x" and y: "rows_stored s e' q' = Some y" and r: "ref a x = PyInt (rid y)"
  obtain i where i: "x = row_view s i" using x by (rule stored_row)
  obtain j where j: "y = row_view s j" "j < length s" using y by (rule stored_row)
  have "dict_get x a = shown s (PyInt (rid y))"
    using view_shown [OF assms, of s i] r by (simp add: i)
  then show "\<exists>d. dict_get x a = PyDict d \<and> (\<forall>k \<in> set (brief e'). dict_get d k = dict_get y k)"
    using entry_view [OF j(2)] by (auto simp: shown_def j(1) brief_def split: endpoint.splits)
qed


text \<open>The loader's queries\<close>

lemma shown_device: "shows_device x (device_of x)"
  by (simp add: shows_device_def device_of_def)

lemma shown_iface:
  assumes "row_ok s i" and "row_endpoint (s ! i) = Interfaces" and "i < length s"
  shows "shows_iface (row_view s i) (iface_of (row_view s i))"
proof -
  let ?x = "row_view s i" and ?v = "dict_get (row_posted (s ! i)) ''untagged_vlan''"
  have ok: "is_text (dict_get (row_posted (s ! i)) ''name'')" "vlan_ok s i ?v"
    using assms(1,2) by (simp_all add: row_ok_def Let_def)
  obtain n where name: "dict_get ?x ''name'' = PyStr n" using ok(1) view_text by (auto simp: text_val)
  have "shows_vlan d (vlan_of d)" if d: "nested ?x ''untagged_vlan'' = Some d" for d
  proof -
    have "dict_get ?x ''untagged_vlan'' = shown s ?v" by (simp add: view_posted_ref POSTED_REFS_def)
    then obtain k where k: "?v = PyInt k" "d = (''id'', PyInt k) # entry s k @ [(''name'', PyStr '''')]"
      using d by (auto simp: nested_def shown_def split: pyval.splits)
    then obtain m where "dict_get (entry s k) ''vid'' = PyInt m" using vlan_okD [OF ok(2)] by auto
    then have "dict_get d ''vid'' = PyInt m"
      by (auto simp: k(2) dict_get_def map_add_def split: option.splits)
    then show ?thesis by (simp add: shows_vlan_def vlan_of_def int_attr_def)
  qed
  then show ?thesis
    using name by (auto simp: shows_iface_def iface_of_def option.rel_map shows_mac_def text_attr_def
        intro!: option.rel_refl_strong)
qed

lemma row_text_at:
  assumes "row_of s e q = Some i" shows "i < length s"
  using row_ofD [OF assms] by simp

lemma distinct_by_row:
  assumes "\<And>i. i \<in> set is \<Longrightarrow> row_of s e (q (f i)) = Some i" and "distinct is"
  shows "distinct (map f is)"
  using assms(2) by (auto simp: distinct_map intro!: inj_onI) (metis assms(1) option.inject)

lemma listed_interface:
  "n \<in> set (map (row_text s ''name'') (ifaces_at s d)) \<longleftrightarrow> rows_stored s Interfaces (iface_query d n) \<noteq> None"
proof
  assume "rows_stored s Interfaces (iface_query d n) \<noteq> None"
  then obtain i where i: "row_of s Interfaces (iface_query d n) = Some i" by (auto simp: rows_stored_def)
  have "row_text s ''name'' i = n"
    using row_ofD [OF i] by (auto simp: row_query_def query_of_def iface_query_def row_text_def)
  then show "n \<in> set (map (row_text s ''name'') (ifaces_at s d))"
    using i row_text_at [OF i] by (auto simp: ifaces_at_def)
qed (auto simp: ifaces_at_def rows_stored_def)

lemma listed_ip:
  "a \<in> set (map (row_text s ''address'') (ips_at s n)) \<longleftrightarrow>
     (\<exists>y. rows_stored s IpAddresses [(''address'', PyStr a)] = Some y \<and> dict_get y ''assigned_object_id'' = PyInt n)"
proof
  assume "\<exists>y. rows_stored s IpAddresses [(''address'', PyStr a)] = Some y \<and> dict_get y ''assigned_object_id'' = PyInt n"
  then obtain i where i: "row_of s IpAddresses [(''address'', PyStr a)] = Some i"
      "dict_get (row_posted (s ! i)) ''assigned_object_id'' = PyInt n"
    by (auto simp: rows_stored_def view_scalar POSTED_SCALARS_def)
  have "row_text s ''address'' i = a"
    using row_ofD [OF i(1)] by (auto simp: row_query_def query_of_def row_text_def)
  then show "a \<in> set (map (row_text s ''address'') (ips_at s n))"
    using i row_text_at [OF i(1)] by (auto simp: ips_at_def)
qed (auto simp: ips_at_def rows_stored_def view_scalar POSTED_SCALARS_def)

lemma listed_shows:
  "list_all2 (\<lambda>n i. shows_iface (the (rows_stored s Interfaces (iface_query d n))) i)
     (map (row_text s ''name'') (ifaces_at s d)) (map (\<lambda>i. iface_of (row_view s i)) (ifaces_at s d))"
proof -
  have "shows_iface (the (rows_stored s Interfaces (iface_query d (row_text s ''name'' i)))) (iface_of (row_view s i))"
    if "i \<in> set (ifaces_at s d)" for i
  proof -
    have i: "row_of s Interfaces (iface_query d (row_text s ''name'' i)) = Some i"
      using that by (simp add: ifaces_at_def)
    then show ?thesis using row_ofD [OF i] shown_iface by (simp add: rows_stored_def)
  qed
  then show ?thesis by (simp add: list_all2_map1 list_all2_map2 list.rel_refl_strong)
qed

lemma rows_list: "lists rows_stored rows_client"
  unfolding lists_def
proof (intro allI conjI)
  fix s tag
  show "\<exists>r. nb_get_device (rows_client s) tag = Inr r
      \<and> rel_option shows_device (rows_stored s Devices [(''asset_tag'', PyStr tag)]) r"
    by (simp add: rows_client_def option.rel_map shown_device option.rel_refl)
next
  fix s :: "row list" and d
  have "distinct (map (row_text s ''name'') (ifaces_at s d))"
    by (rule distinct_by_row [where s = s and e = Interfaces and q = "iface_query d"]) (simp_all add: ifaces_at_def)
  then show "\<exists>ifs ns. nb_list_interfaces (rows_client s) d = Inr ifs \<and> distinct ns
      \<and> (\<forall>n. n \<in> set ns \<longleftrightarrow> rows_stored s Interfaces (iface_query d n) \<noteq> None)
      \<and> list_all2 (\<lambda>n i. shows_iface (the (rows_stored s Interfaces (iface_query d n))) i) ns ifs"
    using listed_interface listed_shows by (auto simp: rows_client_def)
next
  fix s :: "row list" and n
  have "distinct (map (row_text s ''address'') (ips_at s n))"
    by (rule distinct_by_row [where s = s and e = IpAddresses and q = "\<lambda>a. [(''address'', PyStr a)]"]) (simp_all add: ips_at_def)
  then show "\<exists>as. nb_list_ips (rows_client s) n = Inr as \<and> distinct as
      \<and> (\<forall>a. a \<in> set as \<longleftrightarrow> (\<exists>y. rows_stored s IpAddresses [(''address'', PyStr a)] = Some y
           \<and> dict_get y ''assigned_object_id'' = PyInt n))"
    using listed_ip by (auto simp: rows_client_def)
qed

lemma rows_inventory: "keeps_inventory rows_api rows_stored rows_client"
  unfolding keeps_inventory_def
  using rows_adds rows_patches rows_keyed rows_list
  by (simp add: rows_nest REFS_def POSTED_REFS_def)

end
