(* ===== verification/Populate_Props.thy ===== *)
theory Populate_Props
  imports Netbox_Server
begin

text \<open>
  Properties of the fixture loader: a malformed file is reported as a load error that names
  the file, the report of a run accounts for every object of every fixture, and a second run
  finds everything in place and changes nothing.
\<close>

section \<open>Fixture files\<close>

lemma construct_error: "construct cls req opt v = Inl e \<Longrightarrow> \<exists>m. e = TypeError m"
  by (auto simp: construct_def Let_def split: pyval.splits option.splits if_splits)

lemmas construct_errors = construct_error [of "''DeviceTypeSpec''", folded construct_device_type_def]

lemma rmap_error: "rmap f xs = Inl e \<Longrightarrow> \<exists>x \<in> set xs. f x = Inl e"
  by (induction xs) (auto simp: rbind_eq_Inl)

lemma dict_from_pairs_error:
  "dict_from_pairs i xs d = Inl e \<Longrightarrow> \<exists>m. e = TypeError m \<or> e = ValueError m"
  by (induction i xs d rule: dict_from_pairs.induct) (auto split: sum.splits list.splits if_splits)

lemma dict_or_empty_error: "dict_or_empty v = Inl e \<Longrightarrow> \<exists>m. e = TypeError m \<or> e = ValueError m"
  by (auto simp: dict_or_empty_def rbind_eq_Inl split: if_splits pyval.splits
      dest: py_iter_error dict_from_pairs_error)

lemma required_key_error: "required_key d k = Inl e \<Longrightarrow> e = KeyError k"
  by (auto simp: required_key_def split: option.splits)

lemma fixture_of_error:
  assumes "fixture_of data = Inl e"
  shows "\<exists>m. e = KeyError m \<or> e = TypeError m \<or> e = ValueError m"
  using assms
  by (auto simp: fixture_of_def rbind_eq_Inl construct_device_type_def construct_vlan_def
      construct_interface_def
      dest!: required_key_error construct_error rmap_error py_iter_error dict_or_empty_error)

text \<open>When reading the file and parsing YAML fail only with the errors they declare, loading a
  fixture either succeeds or raises a \<open>FixtureLoadError\<close> that carries the path of the file,
  whatever the YAML document is.\<close>

theorem load_fixture_errors:
  assumes "\<And>e. read_text path \<noteq> Inl (Undeclared e)"
    and "\<And>content e. read_text path = Inr content \<Longrightarrow> safe_load content \<noteq> Inl (Undeclared e)"
    and "load_fixture read_text safe_load path = Inl err"
  shows "\<exists>detail. err = FixtureLoadError path detail"
  using assms
  by (fastforce simp: load_fixture_def split: sum.splits lib_error.splits pyval.splits exn.splits
      dest: fixture_of_error)

text \<open>A document that is not a mapping, and one whose device type is a string.\<close>

definition sample_doc :: "string \<Rightarrow> lib_error + pyval" where
  "sample_doc content = (if content = ''- a'' then Inr (PyList [PyStr ''a''])
     else Inr (PyDict [(''asset_tag'', PyInt 7), (''hostname'', PyStr ''h''), (''device_role'', PyStr ''cpu''),
       (''site'', PyStr ''lab''), (''device_type'', PyStr ''R660''), (''interfaces'', PyList [])]))"

theorem load_fixture_errors_witness:
  "(\<exists>detail. load_fixture Inr sample_doc ''- a'' = Inl (FixtureLoadError ''- a'' detail))
   \<and> (\<exists>detail. load_fixture Inr sample_doc ''doc'' = Inl (FixtureLoadError ''doc'' detail))"
proof -
  have ok: "sample_doc content \<noteq> Inl (Undeclared e)" for content e by (simp add: sample_doc_def)
  obtain e1 where "load_fixture Inr sample_doc ''- a'' = Inl e1"
    by (simp add: load_fixture_def sample_doc_def)
  moreover obtain e2 where "load_fixture Inr sample_doc ''doc'' = Inl e2"
    by (simp add: load_fixture_def sample_doc_def fixture_of_def required_key_def
        construct_device_type_def construct_def)
  ultimately show ?thesis
    using load_fixture_errors [of Inr "''- a''" sample_doc e1] load_fixture_errors [of Inr "''doc''" sample_doc e2] ok
    by simp
qed


section \<open>The report\<close>

text \<open>
  \<open>logs m kinds\<close>: whenever \<open>m\<close> succeeds, the report has counted one more created or skipped
  object for every entry of \<open>kinds\<close>.
\<close>

definition total :: "populate_report \<Rightarrow> string \<Rightarrow> nat" where
  "total rep kind = counter_get (pop_created rep) kind + counter_get (pop_skipped rep) kind"

definition logs :: "('s pop_state, exn, 'a) act \<Rightarrow> string list \<Rightarrow> bool" where
  "logs m kinds \<longleftrightarrow> (\<forall>st x st'. m st = (Inr x, st') \<longrightarrow>
     (\<forall>k. total (pop_report st') k = total (pop_report st) k + count_list kinds k))"

lemma count_list_append: "count_list (xs @ ys) k = count_list xs k + count_list ys k"
  by (induction xs) auto

lemma logs_aret: "logs (aret x) []"
  and logs_alift: "logs (alift r) []"
  and logs_on_server: "logs (on_server m) []"
  by (auto simp: logs_def on_server_def split: prod.splits)

lemma logs_note_created: "logs (note_created kind) [kind]"
  and logs_note_skipped: "logs (note_skipped kind) [kind]"
  by (auto simp: logs_def note_created_def note_skipped_def total_def add_created_def
      add_skipped_def counter_get_add)

lemma logs_abind: "logs m ks \<Longrightarrow> (\<And>x. logs (f x) ls) \<Longrightarrow> logs (abind m f) (ks @ ls)"
  by (fastforce simp: logs_def abind_eq_Inr count_list_append)

lemma logs_afold: "(\<And>x acc. logs (f x acc) (ks x)) \<Longrightarrow> logs (afold f xs acc) (concat (map ks xs))"
  by (induction xs arbitrary: acc) (auto intro: logs_aret logs_abind)

lemma logs_aiter: "(\<And>x. logs (f x) (ks x)) \<Longrightarrow> logs (aiter f xs) (concat (map ks xs))"
  by (induction xs) (auto intro: logs_aret logs_abind)

lemma logs_if: "(c \<Longrightarrow> logs m ks) \<Longrightarrow> (\<not> c \<Longrightarrow> logs n ls) \<Longrightarrow> logs (if c then m else n) (if c then ks else ls)"
  by simp

lemma logs_ensure: "logs (ensure api kind e q chk payload) [kind]"
proof -
  have "logs (case x of
       Some r \<Rightarrow> abind (alift (chk r)) (\<lambda>_. abind (note_skipped kind) (\<lambda>_. aret r))
     | None \<Rightarrow> abind (alift payload) (\<lambda>p. abind (on_server (api_create api e p)) (\<lambda>obj.
         abind (note_created kind) (\<lambda>_. aret obj)))) [kind]" for x
    using logs_abind [OF logs_alift logs_abind [OF logs_note_skipped logs_aret]]
      logs_abind [OF logs_alift logs_abind [OF logs_on_server logs_abind [OF logs_note_created logs_aret]]]
    by (auto split: option.splits)
  from logs_abind [OF logs_on_server this] show ?thesis by (simp add: ensure_def)
qed

lemma logs_after_lift: "(\<And>x. logs (f x) ks) \<Longrightarrow> logs (abind (alift r) f) ks"
  using logs_abind [OF logs_alift, of f ks r] by simp

lemma logs_after_call: "(\<And>x. logs (f x) ks) \<Longrightarrow> logs (abind (on_server m) f) ks"
  using logs_abind [OF logs_on_server, of f ks m] by simp

lemma logs_last: "logs m ks \<Longrightarrow> (\<And>x. logs (f x) []) \<Longrightarrow> logs (abind m f) ks"
  using logs_abind [of m ks f "[]"] by simp

lemma logs_point_to: "logs (point_to api kind name a target ifaces) [kind]"
proof -
  have "logs (if \<not> py_eq (nested_id current) target
     then abind (on_server (api_update api r [(a, target)])) (\<lambda>r'.
          abind (note_created kind) (\<lambda>_. aret (ifaces(name := Some r'))))
     else abind (note_skipped kind) (\<lambda>_. aret ifaces)) [kind]" for r current
    by (simp add: logs_after_call logs_last logs_note_created logs_note_skipped logs_aret)
  then show ?thesis unfolding point_to_def by (intro logs_after_lift) simp
qed

definition wiring_kinds :: "interface_spec \<Rightarrow> string list" where
  "wiring_kinds spec = map (\<lambda>_. ''lag_membership'') (if_lag_members spec)
     @ (if given (if_parent spec) then [''interface_parent''] else [])"

definition mac_kinds :: "interface_spec \<Rightarrow> string list" where
  "mac_kinds spec = (if given (if_mac spec) then [''mac_address'', ''primary_mac_assignment''] else [])"

definition ip_kinds :: "interface_spec \<Rightarrow> string list" where
  "ip_kinds spec = (if given (if_ip spec) then [''ip_address''] else [])"

definition fixture_kinds :: "host_fixture \<Rightarrow> string list" where
  "fixture_kinds fx = [''site'', ''manufacturer'', ''device_type'', ''device_role'']
     @ map (\<lambda>_. ''vlan'') (fx_vlans fx) @ [''device''] @ map (\<lambda>_. ''interface'') (fx_interfaces fx)
     @ concat (map wiring_kinds (fx_interfaces fx)) @ concat (map mac_kinds (fx_interfaces fx))
     @ concat (map ip_kinds (fx_interfaces fx))"

lemma logs_wire: "logs (wire_relationships api spec ifaces) (wiring_kinds spec)"
proof -
  have "logs (wire_member api spec n acc) [''lag_membership'']" for n acc
    unfolding wire_member_def by (intro logs_after_lift logs_point_to)
  from logs_afold [OF this]
  have lag: "logs (afold (wire_member api spec) ns acc) (map (\<lambda>_. ''lag_membership'') ns)" for ns acc
    by (simp add: concat_map_singleton)
  have parent: "logs (wire_parent api spec acc) (if given (if_parent spec) then [''interface_parent''] else [])"
    for acc
    unfolding wire_parent_def by (intro logs_if logs_after_lift logs_point_to logs_aret)
  show ?thesis
    unfolding wire_relationships_def wiring_kinds_def by (intro logs_abind lag parent)
qed

lemma logs_mac: "logs (ensure_mac_address api spec ifaces) (mac_kinds spec)"
proof -
  have "logs (abind (ensure api k e q c p) (\<lambda>obj. abind (alift (attr obj ''id'')) (\<lambda>i. point_to api k' n a i ifaces)))
      ([k] @ [k'])" for k e q c p k' n a
    by (intro logs_abind logs_ensure logs_after_lift logs_point_to)
  then show ?thesis
    unfolding ensure_mac_address_def mac_kinds_def Let_def
    by (intro logs_if logs_after_lift logs_aret) simp
qed

lemma logs_ip: "logs (ensure_ip_address api ifaces spec) (ip_kinds spec)"
proof -
  have "logs (abind (ensure api k e q c p) (\<lambda>_. aret ())) [k]" for k e q c p
    using logs_abind [OF logs_ensure logs_aret] by simp
  then show ?thesis
    unfolding ensure_ip_address_def ip_kinds_def Let_def
    by (intro logs_if logs_after_lift logs_aret) simp
qed

lemma logs_put_vlan: "logs (put_vlan api site v acc) [''vlan'']"
  using logs_abind [OF logs_after_lift [OF logs_ensure] logs_aret]
  by (simp add: put_vlan_def ensure_vlan_def)

lemma logs_put_interface: "logs (put_interface api device vmap spec acc) [''interface'']"
  using logs_abind [OF logs_after_lift [OF logs_ensure] logs_aret]
  by (simp add: put_interface_def ensure_interface_def)

lemma logs_apply_objects: "logs (apply_objects api fx)
    ([''site''] @ [''manufacturer''] @ [''device_type''] @ [''device_role'']
     @ map (\<lambda>_. ''vlan'') (fx_vlans fx) @ [''device''] @ [])"
proof -
  have vmap: "logs (afold (put_vlan api site) vs acc) (map (\<lambda>_. ''vlan'') vs)" for site vs acc
    using logs_afold [OF logs_put_vlan, where xs = vs] by (simp add: concat_map_singleton)
  show ?thesis
    unfolding apply_objects_def ensure_site_def ensure_manufacturer_def ensure_device_type_def
      ensure_device_role_def ensure_device_def Let_def
    by (intro logs_abind logs_ensure logs_aret vmap)
qed

lemma logs_apply_interfaces: "logs (apply_interfaces api specs device vmap)
    (map (\<lambda>_. ''interface'') specs @ concat (map wiring_kinds specs) @ concat (map mac_kinds specs)
     @ concat (map ip_kinds specs))"
proof -
  have ifs: "logs (afold (put_interface api device vmap) specs acc) (map (\<lambda>_. ''interface'') specs)" for acc
    using logs_afold [OF logs_put_interface, where xs = specs] by (simp add: concat_map_singleton)
  show ?thesis
    unfolding apply_interfaces_def
    by (intro logs_abind ifs logs_afold logs_aiter logs_wire logs_mac logs_ip)
qed

lemma logs_apply_one: "logs (apply_one api fx) (fixture_kinds fx)"
proof -
  have "logs (case x of (device, vmap) \<Rightarrow> apply_interfaces api (fx_interfaces fx) device vmap)
    (map (\<lambda>_. ''interface'') (fx_interfaces fx) @ concat (map wiring_kinds (fx_interfaces fx))
     @ concat (map mac_kinds (fx_interfaces fx)) @ concat (map ip_kinds (fx_interfaces fx)))" for x
    by (cases x) (simp add: logs_apply_interfaces)
  from logs_abind [OF logs_apply_objects this] show ?thesis
    by (simp add: apply_one_def fixture_kinds_def)
qed

text \<open>C38: the report of a successful run accounts for every object of every fixture exactly once,
  as created or as skipped, kind by kind, whatever the server does.\<close>

theorem populate_accounts:
  assumes "populate api fixtures s = (Inr rep, t)"
  shows "counter_get (pop_created rep) kind + counter_get (pop_skipped rep) kind
    = count_list (concat (map fixture_kinds fixtures)) kind"
proof -
  obtain st where "aiter (apply_one api) fixtures \<lparr>pop_server = s, pop_report = empty_populate_report\<rparr> = (Inr (), st)"
      "rep = pop_report st"
    using assms by (auto simp: populate_def split: prod.splits sum.splits)
  with logs_aiter [where f = "apply_one api" and ks = fixture_kinds, OF logs_apply_one, of fixtures]
  have "total rep kind = total empty_populate_report kind + count_list (concat (map fixture_kinds fixtures)) kind"
    by (force simp: logs_def)
  then show ?thesis by (simp add: total_def empty_populate_report_def counter_get_def)
qed



section \<open>Running twice\<close>

text \<open>C37: when Netbox serves requests as documented and the fixtures describe different hosts, a
  second run with the same fixtures is a no-op: it succeeds, creates nothing and leaves the
  server as the first run left it, from whatever state the first run started.\<close>

theorem populate_idempotent:
  assumes "serves_netbox api stored" and "wf_fixtures fixtures"
    and "populate api fixtures s = (Inr rep, t)"
  shows "\<exists>rep'. populate api fixtures t = (Inr rep', t) \<and> populate_no_op rep'"
  using settled_no_op [OF assms(1) populate_settles [OF assms]] by (auto simp: populate_no_op_def)

definition plain_iface :: "string \<Rightarrow> string \<Rightarrow> interface_spec" where
  "plain_iface name type = \<lparr>if_name = name, if_type = type, if_mac = None, if_mtu = Some 1500, if_parent = None,
     if_lag_members = [], if_untagged_vlan = None, if_ip = None, if_custom_fields = []\<rparr>"

definition small_fixture :: host_fixture where
  "small_fixture = \<lparr>fx_asset_tag = ''T1'', fx_hostname = ''h1'', fx_device_role = ''cpu'', fx_site = ''lab'',
     fx_device_type = \<lparr>dt_manufacturer = ''Acme'', dt_model = ''M'', dt_slug = ''m'', dt_u_height = 1\<rparr>,
     fx_vlans = [\<lparr>vs_vid = 100, vs_name = ''mgmt''\<rparr>],
     fx_interfaces = [(plain_iface ''nsa'' ''x'')\<lparr>if_mac := Some ''aa''\<rparr>,
       (plain_iface ''bond0'' ''lag'')\<lparr>if_lag_members := [''nsa'']\<rparr>,
       (plain_iface ''b.100'' ''virtual'')\<lparr>if_parent := Some ''bond0'', if_untagged_vlan := Some 100,
          if_ip := Some ''10.0.0.1/24''\<rparr>],
     fx_custom_fields = []\<rparr>"

lemma small_run: "\<exists>t. populate rows_api [small_fixture] [] = (Inr \<lparr>
    pop_created = [(''site'', 1), (''manufacturer'', 1), (''device_type'', 1), (''device_role'', 1), (''vlan'', 1),
      (''device'', 1), (''interface'', 3), (''lag_membership'', 1), (''interface_parent'', 1),
      (''mac_address'', 1), (''primary_mac_assignment'', 1), (''ip_address'', 1)], pop_skipped = []\<rparr>, t)"
  by (rule exI [of _ "snd (populate rows_api [small_fixture] [])"]) code_simp


lemma small_wf: "wf_fixtures [small_fixture]"
  by (simp add: wf_fixtures_def wf_specs_def small_fixture_def plain_iface_def)

theorem populate_idempotent_witness:
  "\<exists>t rep'. fst (populate rows_api [small_fixture] []) \<in> range Inr
     \<and> populate rows_api [small_fixture] t = (Inr rep', t) \<and> populate_no_op rep'"
proof -
  obtain rep t where run: "populate rows_api [small_fixture] [] = (Inr rep, t)" using small_run by blast
  from populate_idempotent [OF rows_serve small_wf run] show ?thesis using run by auto
qed

theorem populate_accounts_witness:
  "\<exists>rep t. populate rows_api [small_fixture] [] = (Inr rep, t)
     \<and> counter_get (pop_created rep) ''interface'' + counter_get (pop_skipped rep) ''interface'' = 3"
proof -
  obtain rep t where run: "populate rows_api [small_fixture] [] = (Inr rep, t)" using small_run by blast
  from populate_accounts [OF run, of "''interface''"] show ?thesis
    using run by (simp add: fixture_kinds_def small_fixture_def plain_iface_def wiring_kinds_def mac_kinds_def
        ip_kinds_def given_def)
qed

text \<open>
  Two things the code does that its documentation does not say: an error of the client leaves
  \<open>populate\<close> as it is raised, and a fixture that cannot be loaded leaves \<open>main\<close> as an exception.
\<close>

lemma populate_raw_error:
  assumes "api_get api Sites [(''slug'', PyStr (fx_site fx))] s = (Inl e, t)"
  shows "populate api (fx # fixtures) s = (Inl e, t)"
  using assms
  by (simp add: populate_def apply_one_def apply_objects_def ensure_site_def ensure_def on_server_def abind_def)

lemma main_load_error_escapes:
  assumes "given token" and "load p = Inl (FixtureLoadError p detail)"
  shows "populate_main connect load url token token_file [p] s = (Inl (FixtureLoadError p detail), s)"
  using assms by (simp add: populate_main_def)

end
