(* ===== verification/Fixture_Props.thy ===== *)
theory Fixture_Props
  imports Populate_Props
begin

text \<open>
  The composition of the fixture loader, Netbox and the host loader: the host intent a fixture
  describes is the one loaded from a server populated with it.
\<close>

section \<open>Two clients the loader cannot tell apart\<close>

definition looks_same :: "nb_client \<Rightarrow> nb_client \<Rightarrow> nb_iface \<Rightarrow> nb_iface \<Rightarrow> bool" where
  "looks_same c d i j \<longleftrightarrow> nbi_name i = nbi_name j \<and> nbi_mtu i = nbi_mtu j
     \<and> nbi_untagged_vlan i = nbi_untagged_vlan j
     \<and> (\<forall>tag m. read_mac i tag = Inr m \<longrightarrow> read_mac j tag = Inr m)
     \<and> (\<forall>n. read_sriov_vfs i n = read_sriov_vfs j n)
     \<and> (\<forall>a. nb_list_ips c (nbi_id i) = Inr [a] \<longrightarrow> nb_list_ips d (nbi_id j) = Inr [a])"

lemma same_single_ip:
  assumes "looks_same c d i j" and "fetch_single_ip c i tag = Inr a"
  shows "fetch_single_ip d j tag = Inr a"
proof -
  obtain ips where ips: "nb_list_ips c (nbi_id i) = Inr ips" "length ips = 1" "parse_interface (hd ips) = Inr a"
    using assms(2) by (auto simp: fetch_single_ip_def split: sum.splits if_splits)
  then obtain x where x: "ips = [x]" by (auto simp: length_Suc_conv)
  have "nb_list_ips d (nbi_id j) = Inr [x]" using assms(1) ips(1) x by (simp add: looks_same_def)
  then show ?thesis using ips(3) x by (simp add: fetch_single_ip_def)
qed

lemma same_build_vlan:
  assumes "looks_same c d i j" and "build_vlan c tag i = Inr v"
  shows "build_vlan d tag j = Inr v"
proof -
  have "nbi_name i = nbi_name j" "nbi_mtu i = nbi_mtu j" "nbi_untagged_vlan i = nbi_untagged_vlan j"
    using assms(1) by (simp_all add: looks_same_def)
  then have "read_vlan_id j tag = read_vlan_id i tag" "read_vlan_role j tag = read_vlan_role i tag"
      "read_mtu i = read_mtu j" "nbi_name i = nbi_name j"
    by (simp_all add: read_vlan_id_def read_vlan_role_def read_mtu_def fun_eq_iff Let_def cong: option.case_cong)
  moreover obtain vid r a g where "read_vlan_id i tag = Inr vid" "read_vlan_role i tag = Inr r"
      "fetch_single_ip c i tag = Inr a"
      "(if r = MGMT then rbind (derive_gateway a) (\<lambda>g. Inr (Some g)) else Inr None) = Inr g"
      "mk_vlan_child (nbi_name i) BOND_NAME vid r (read_mtu i 1500) a g [] None = Inr v"
    using assms(2) by (auto simp: build_vlan_def rbind_eq_Inr Let_def)
  ultimately show ?thesis
    using same_single_ip [OF assms(1), of tag a] by (simp add: build_vlan_def Let_def)
qed

lemma same_build_roce:
  assumes "looks_same c d i j" and "build_roce c tag i = Inr v"
  shows "build_roce d tag j = Inr v"
proof -
  have "nbi_name i = nbi_name j" "nbi_mtu i = nbi_mtu j" "read_sriov_vfs i = read_sriov_vfs j"
      "\<And>m. read_mac i tag = Inr m \<Longrightarrow> read_mac j tag = Inr m"
    using assms(1) by (simp_all add: looks_same_def fun_eq_iff)
  moreover from this(2) have "read_mtu i = read_mtu j" by (simp add: read_mtu_def fun_eq_iff)
  ultimately show ?thesis
    using assms(2) same_single_ip [OF assms(1)] by (auto simp: build_roce_def rbind_eq_Inr Let_def)
qed

lemma same_build_ib:
  assumes "looks_same c d i j" and "build_ib c tag i = Inr v"
  shows "build_ib d tag j = Inr v"
proof -
  have "nbi_name i = nbi_name j" "nbi_mtu i = nbi_mtu j" "\<And>m. read_mac i tag = Inr m \<Longrightarrow> read_mac j tag = Inr m"
    using assms(1) by (simp_all add: looks_same_def)
  moreover from this(2) have "read_mtu i = read_mtu j" by (simp add: read_mtu_def fun_eq_iff)
  ultimately show ?thesis
    using assms(2) same_single_ip [OF assms(1)] by (auto simp: build_ib_def rbind_eq_Inr Let_def)
qed

lemma same_filtered:
  assumes "list_all2 (looks_same c d) ifs jfs"
    and "\<And>i j. nbi_name i = nbi_name j \<Longrightarrow> P i = P j"
    and "\<And>i j v. looks_same c d i j \<Longrightarrow> f i = Inr v \<Longrightarrow> g j = Inr v"
    and "rmap f (filter P ifs) = Inr vs"
  shows "rmap g (filter P jfs) = Inr vs"
  using assms(1,4)
proof (induction arbitrary: vs rule: list_all2_induct)
  case (Cons i ifs j jfs)
  have "P i = P j" using Cons.hyps(1) by (intro assms(2)) (simp add: looks_same_def)
  then show ?case
    using Cons assms(3) [OF Cons.hyps(1)] by (auto simp: rbind_eq_Inr split: if_splits)
qed simp

lemma same_named:
  assumes "list_all2 (looks_same c d) ifs jfs" and "iface_named ifs name = Some i"
  obtains j where "iface_named jfs name = Some j" "looks_same c d i j"
proof -
  have "list_all2 (looks_same c d) (rev ifs) (rev jfs)" using assms(1) by (simp add: list_all2_rev)
  then have "map_of (map (\<lambda>i. (nbi_name i, i)) (rev ifs)) name = Some i \<Longrightarrow>
      \<exists>j. map_of (map (\<lambda>i. (nbi_name i, i)) (rev jfs)) name = Some j \<and> looks_same c d i j"
    by (induction rule: list_all2_induct) (auto simp: looks_same_def split: if_splits)
  then show thesis using assms(2) that by (auto simp: iface_named_def rev_map)
qed

lemma same_ns_nics:
  assumes "list_all2 (looks_same c d) ifs jfs" and "build_ns_nics ifs tag = Inr nics"
  shows "build_ns_nics jfs tag = Inr nics"
proof -
  have "build_ns_nic jfs tag name = Inr m" if "build_ns_nic ifs tag name = Inr m" for name m
  proof -
    from that obtain i mac where i: "iface_named ifs name = Some i" "read_mac i tag = Inr mac"
        "mk_bond_member name (PyStr mac) (read_mtu i 9000) = Inr m"
      by (auto simp: build_ns_nic_def rbind_eq_Inr split: option.splits)
    obtain j where j: "iface_named jfs name = Some j" "looks_same c d i j" by (rule same_named [OF assms(1) i(1)])
    then show ?thesis using i(2,3) by (simp add: build_ns_nic_def looks_same_def read_mtu_def)
  qed
  then show ?thesis using assms(2) by (auto simp: build_ns_nics_def rmap_eq_Inr elim: list_all2_mono)
qed

lemma same_bond:
  assumes "list_all2 (looks_same c d) ifs jfs" and "build_bond ifs nics tag = Inr b"
  shows "build_bond jfs nics tag = Inr b"
proof -
  obtain i where i: "iface_named ifs BOND_NAME = Some i"
    using assms(2) by (auto simp: build_bond_def split: option.splits)
  obtain j where "iface_named jfs BOND_NAME = Some j" "looks_same c d i j" by (rule same_named [OF assms(1) i])
  then show ?thesis using assms(2) i by (simp add: build_bond_def looks_same_def read_mtu_def)
qed

lemma load_looks_same:
  assumes load: "load_host_intent c tag = Inr i"
    and c: "nb_get_device c tag = Inr (Some dev)" "nb_list_interfaces c (nbd_id dev) = Inr ifs"
    and d: "nb_get_device d tag = Inr (Some dev')" "nb_list_interfaces d (nbd_id dev') = Inr jfs"
    and dev: "nbd_name dev = nbd_name dev'" "nbd_role dev = nbd_role dev'"
    and same: "list_all2 (looks_same c d) ifs jfs"
  shows "load_host_intent d tag = Inr i"
proof -
  have role: "parse_role dev = parse_role dev'" unfolding parse_role_def dev ..
  have vlans: "build_vlans c ifs tag = Inr vs \<Longrightarrow> build_vlans d jfs tag = Inr vs" for vs
    unfolding build_vlans_def
    by (rule same_filtered [OF same _ same_build_vlan]) (simp_all add: is_vlan_iface_def)
  have roce: "build_roce_underlays c ifs tag = Inr us \<Longrightarrow> build_roce_underlays d jfs tag = Inr us" for us
  proof -
    assume "build_roce_underlays c ifs tag = Inr us"
    then obtain ms where ms: "rmap (build_roce c tag) (filter is_roce_iface ifs) = Inr ms" "us = sort_key nic_name ms"
      by (auto simp: build_roce_underlays_def rbind_eq_Inr)
    have "rmap (build_roce d tag) (filter is_roce_iface jfs) = Inr ms"
      by (rule same_filtered [OF same _ same_build_roce ms(1)]) (simp_all add: is_roce_iface_def)
    then show "build_roce_underlays d jfs tag = Inr us" by (simp add: build_roce_underlays_def ms(2))
  qed
  have ib: "build_ib_underlays c ifs tag = Inr us \<Longrightarrow> build_ib_underlays d jfs tag = Inr us" for us
  proof -
    assume "build_ib_underlays c ifs tag = Inr us"
    then obtain ms where ms: "rmap (build_ib c tag) (filter is_ib_iface ifs) = Inr ms" "us = sort_key nic_name ms"
      by (auto simp: build_ib_underlays_def rbind_eq_Inr)
    have "rmap (build_ib d tag) (filter is_ib_iface jfs) = Inr ms"
      by (rule same_filtered [OF same _ same_build_ib ms(1)]) (simp_all add: is_ib_iface_def)
    then show "build_ib_underlays d jfs tag = Inr us" by (simp add: build_ib_underlays_def ms(2))
  qed
  show ?thesis
    using load c d role dev(1) same_ns_nics [OF same] same_bond [OF same] vlans roce ib
    unfolding load_host_intent_def rbind_eq_Inr fetch_device_def fetch_interfaces_def by auto
qed

section \<open>The inventory a fixture describes\<close>

definition fixture_iface :: "host_fixture \<Rightarrow> nat \<Rightarrow> interface_spec \<Rightarrow> nb_iface" where
  "fixture_iface fx k spec =
     \<lparr>nbi_id = int k, nbi_name = if_name spec,
      nbi_primary_mac = (if given (if_mac spec)
        then Some \<lparr>nbm_mac_address = if_mac spec, nbm_text = the (if_mac spec)\<rparr> else None),
      nbi_mtu = (case if_mtu spec of None \<Rightarrow> None | Some m \<Rightarrow> if m = 0 then None else Some m),
      nbi_untagged_vlan = (case if_untagged_vlan spec of None \<Rightarrow> None
        | Some v \<Rightarrow> if v = 0 then None
            else map_option (\<lambda>name. \<lparr>nbv_vid = v, nbv_name = Some name\<rparr>)
                   (map_of (map (\<lambda>w. (vs_vid w, vs_name w)) (fx_vlans fx)) v)),
      nbi_custom_fields = Some (if_custom_fields spec)\<rparr>"

definition fixture_ifaces :: "host_fixture \<Rightarrow> nb_iface list" where
  "fixture_ifaces fx = map (\<lambda>(k, spec). fixture_iface fx k spec) (enumerate 0 (fx_interfaces fx))"

definition fixture_ips :: "host_fixture \<Rightarrow> int \<Rightarrow> string list" where
  "fixture_ips fx n =
     (if 0 \<le> n \<and> nat n < length (fx_interfaces fx) \<and> given (if_ip (fx_interfaces fx ! nat n))
      then [the (if_ip (fx_interfaces fx ! nat n))] else [])"

definition fixture_client :: "host_fixture \<Rightarrow> nb_client" where
  "fixture_client fx =
     \<lparr>nb_get_device = (\<lambda>t. Inr (if t = fx_asset_tag fx
        then Some \<lparr>nbd_id = 1, nbd_name = Some (fx_hostname fx), nbd_role = Some (Some (fx_device_role fx))\<rparr>
        else None)),
      nb_list_interfaces = (\<lambda>_. Inr (fixture_ifaces fx)),
      nb_list_ips = (\<lambda>n. Inr (fixture_ips fx n)),
      nb_status = Inr ()\<rparr>"

text \<open>What the loader sees of a stored interface is what the fixture says of it.\<close>

lemma fixture_vlan:
  assumes "fixture_vlans stored s fx vmap" and "map_of (map (\<lambda>w. (vs_vid w, vs_name w)) (fx_vlans fx)) v = Some name"
  shows "\<exists>r q y. vmap v = Some r \<and> stored s Vlans q = Some y \<and> rid y = rid r
    \<and> dict_get y ''vid'' = PyInt v \<and> dict_get y ''name'' = PyStr name"
proof -
  from map_of_SomeD [OF assms(2)] obtain w where w: "w \<in> set (fx_vlans fx)" "vs_vid w = v" "vs_name w = name" by auto
  from assms(1) w(1) have "\<exists>r q y. vmap (vs_vid w) = Some r \<and> complete_record Vlans r
      \<and> stored s Vlans q = Some y \<and> rid y = rid r \<and> dict_get y ''vid'' = PyInt (vs_vid w)
      \<and> dict_get y ''name'' = PyStr (vs_name w)"
    unfolding fixture_vlans_def by blast
  then show ?thesis unfolding w(2,3) by blast
qed

lemma seen_vlan:
  assumes L: "keeps_inventory api stored client" and V: "fixture_vlans stored s fx vmap"
    and x: "stored s Interfaces q = Some x" "as_posted spec vmap x" and j: "shows_iface x j"
  shows "nbi_untagged_vlan j = nbi_untagged_vlan (fixture_iface fx k spec)"
proof -
  let ?names = "map_of (map (\<lambda>w. (vs_vid w, vs_name w)) (fx_vlans fx))"
  have rel: "rel_option shows_vlan (nested x ''untagged_vlan'') (nbi_untagged_vlan j)"
    and val: "ref ''untagged_vlan'' x = vlan_value spec vmap"
    and key: "ref ''untagged_vlan'' x = PyNone \<Longrightarrow> nested x ''untagged_vlan'' = None"
    using j x(2) inventory_laws(1) [OF L, OF x(1)] by (simp_all add: shows_iface_def as_posted_def keyed_def)
  have none: "nbi_untagged_vlan j = None" if "vlan_value spec vmap = PyNone"
    using rel key val that by simp
  have out: "vmap v = None" if "?names v = None" for v
  proof -
    have "v \<notin> vs_vid ` set (fx_vlans fx)" using that by (simp add: map_of_eq_None_iff image_image)
    then show ?thesis using V by (auto simp: fixture_vlans_def)
  qed
  show ?thesis
  proof (cases "if_untagged_vlan spec")
    case (Some v)
    show ?thesis
    proof (cases "v = 0 \<or> ?names v = None")
      case True
      then have "vlan_value spec vmap = PyNone" using Some out by (auto simp: vlan_value_def)
      then show ?thesis using none True Some by (auto simp: fixture_iface_def)
    next
      case False
      then obtain name where name: "?names v = Some name" by auto
      from fixture_vlan [OF V name] obtain r q' y where y: "vmap v = Some r" "stored s Vlans q' = Some y" "rid y = rid r"
          "dict_get y ''vid'' = PyInt v" "dict_get y ''name'' = PyStr name" by blast
      have "ref ''untagged_vlan'' x = PyInt (rid y)" using val Some False y(1,3) by (simp add: vlan_value_def)
      then obtain d where d: "dict_get x ''untagged_vlan'' = PyDict d" "dict_get d ''vid'' = PyInt v"
          "dict_get d ''name'' = PyStr name"
        using inventory_laws(3) [OF L, unfolded nests_def, rule_format, OF x(1) y(2)] y(4,5)
        by (auto simp: brief_def)
      then obtain w where "nbi_untagged_vlan j = Some w" "shows_vlan d w"
        using rel by (auto simp: nested_def option_rel_Some1)
      then have "nbi_untagged_vlan j = Some \<lparr>nbv_vid = v, nbv_name = Some name\<rparr>"
        using d by (cases w) (simp add: shows_vlan_def text_attr_def)
      then show ?thesis using Some False name by (simp add: fixture_iface_def)
    qed
  qed (use none in \<open>simp add: vlan_value_def fixture_iface_def\<close>)
qed


lemma seen_mac:
  assumes L: "keeps_inventory api stored client" and own: "owned_mac stored s d spec"
    and x: "stored s Interfaces (iface_query d (if_name spec)) = Some x" and j: "shows_iface x j"
    and m: "read_mac (fixture_iface fx k spec) tag = Inr m"
  shows "read_mac j tag = Inr m"
proof -
  have g: "given (if_mac spec)" and low: "m = py_lower (the (if_mac spec))"
    using m by (auto simp: read_mac_def fixture_iface_def given_def split: if_splits option.splits)
  obtain y where y: "stored s MacAddresses [(''mac_address'', PyStr (the (if_mac spec)))] = Some y"
      "ref ''primary_mac_address'' x = PyInt (rid y)"
    using own g x by (auto simp: owned_mac_def points_def)
  obtain mac where mac: "dict_get y ''mac_address'' = PyStr mac" "py_lower mac = m"
    using inventory_laws(1) [OF L, OF y(1)] low by (auto simp: keyed_def dict_get_def)
  have "mac \<noteq> ''''" using mac(2) low g by (auto simp: py_lower_def given_def split: option.splits)
  moreover obtain w where "dict_get x ''primary_mac_address'' = PyDict w" "dict_get w ''mac_address'' = PyStr mac"
    using inventory_laws(4) [OF L, unfolded nests_def, rule_format, OF x y] mac(1) by (auto simp: brief_def)
  moreover from this have "nested x ''primary_mac_address'' = Some w" "text_attr w ''mac_address'' = Some mac"
    by (simp_all add: nested_def text_attr_def)
  ultimately show ?thesis
    using j mac(2) by (auto simp: shows_iface_def shows_mac_def option_rel_Some1 read_mac_def)
qed

lemma seen_sriov:
  assumes "as_posted spec vmap x" and "shows_iface x j"
  shows "read_sriov_vfs (fixture_iface fx k spec) n = read_sriov_vfs j n"
proof -
  have "custom x ''sriov_vfs'' = dict_get (case nbi_custom_fields j of None \<Rightarrow> [] | Some d \<Rightarrow> d) ''sriov_vfs''"
    using assms(2) by (simp add: shows_iface_def custom_def dict_get_def split: option.splits)
  then show ?thesis using assms(1) by (simp add: read_sriov_vfs_def fixture_iface_def as_posted_def Let_def)
qed

lemma lists_ips:
  assumes "lists stored client"
  obtains as where "nb_list_ips (client s) i = Inr as" "distinct as"
    "\<And>a. a \<in> set as \<longleftrightarrow> (\<exists>y. stored s IpAddresses [(''address'', PyStr a)] = Some y
       \<and> dict_get y ''assigned_object_id'' = PyInt i)"
proof -
  from assms have "\<exists>as. nb_list_ips (client s) i = Inr as \<and> distinct as
      \<and> (\<forall>a. a \<in> set as \<longleftrightarrow> (\<exists>y. stored s IpAddresses [(''address'', PyStr a)] = Some y
           \<and> dict_get y ''assigned_object_id'' = PyInt i))"
    by (simp only: lists_def)
  then show thesis using that by blast
qed

lemma lists_interfaces:
  assumes "lists stored client"
  obtains ifs ns where "nb_list_interfaces (client s) d = Inr ifs" "distinct ns"
    "\<And>n. n \<in> set ns \<longleftrightarrow> stored s Interfaces (iface_query d n) \<noteq> None"
    "list_all2 (\<lambda>n i. shows_iface (the (stored s Interfaces (iface_query d n))) i) ns ifs"
proof -
  from assms have "\<exists>ifs ns. nb_list_interfaces (client s) d = Inr ifs \<and> distinct ns
      \<and> (\<forall>n. n \<in> set ns \<longleftrightarrow> stored s Interfaces (iface_query d n) \<noteq> None)
      \<and> list_all2 (\<lambda>n i. shows_iface (the (stored s Interfaces (iface_query d n))) i) ns ifs"
    by (simp only: lists_def)
  then show thesis using that by blast
qed

lemma lists_device:
  assumes "lists stored client" and "stored s Devices [(''asset_tag'', PyStr tag)] = Some x"
  obtains dev where "nb_get_device (client s) tag = Inr (Some dev)" "shows_device x dev"
proof -
  from assms(1) have "\<exists>r. nb_get_device (client s) tag = Inr r
      \<and> rel_option shows_device (stored s Devices [(''asset_tag'', PyStr tag)]) r"
    by (simp only: lists_def)
  then show thesis using that assms(2) by (auto simp: option_rel_Some1)
qed

lemma distinct_singleton: "distinct xs \<Longrightarrow> set xs = {a} \<Longrightarrow> xs = [a]"
  by (cases xs rule: remdups_adj.cases) auto

lemma seen_ips:
  assumes S: "serves_netbox api stored" and L: "keeps_inventory api stored client"
    and own: "owned_ip stored s d spec" and ex: "exact_iface stored s d vmap spec"
    and x: "stored s Interfaces (iface_query d (if_name spec)) = Some x" and ip: "given (if_ip spec)"
  shows "nb_list_ips (client s) (rid x) = Inr [the (if_ip spec)]"
proof -
  let ?a = "the (if_ip spec)"
  obtain as where as: "nb_list_ips (client s) (rid x) = Inr as" "distinct as"
      "\<And>a. a \<in> set as \<longleftrightarrow> (\<exists>y. stored s IpAddresses [(''address'', PyStr a)] = Some y
         \<and> dict_get y ''assigned_object_id'' = PyInt (rid x))"
    using lists_ips [OF inventory_laws(5) [OF L], of s "rid x"] by blast
  obtain y where y: "stored s IpAddresses [(''address'', PyStr ?a)] = Some y"
    using own ip by (auto simp: owned_ip_def)
  have "\<exists>z. stored s Interfaces (iface_query d (if_name spec)) = Some z \<and> dict_get y ''assigned_object_id'' = PyInt (rid z)"
    by (rule owned_ip_owner [OF S L own ip, OF y]) (simp add: ip_key_def)
  then have "?a \<in> set as" unfolding as(3) using x y by simp
  moreover have "a = ?a" if "a \<in> set as" for a
  proof -
    have "(IpAddresses, [(''address'', PyStr a)]) = ip_key spec"
      using ex x as(3) that unfolding exact_iface_def by fastforce
    then show ?thesis by (simp add: ip_key_def)
  qed
  ultimately have "set as = {?a}" by blast
  then show ?thesis using as(1) distinct_singleton [OF as(2)] by simp
qed

lemma seen_iface:
  assumes S: "serves_netbox api stored" and L: "keeps_inventory api stored client"
    and V: "fixture_vlans stored s fx vmap" and spec: "k < length (fx_interfaces fx)" "spec = fx_interfaces fx ! k"
    and ex: "exact_iface stored s d vmap spec" and own: "owned_mac stored s d spec" "owned_ip stored s d spec"
    and x: "stored s Interfaces (iface_query d (if_name spec)) = Some x" and j: "shows_iface x j"
  shows "looks_same (fixture_client fx) (client s) (fixture_iface fx k spec) j"
proof -
  have p: "as_posted spec vmap x" using ex x by (auto simp: exact_iface_def)
  have ips: "nb_list_ips (client s) (nbi_id j) = Inr [a]"
    if "nb_list_ips (fixture_client fx) (nbi_id (fixture_iface fx k spec)) = Inr [a]" for a
  proof -
    from that have "given (if_ip spec)" "a = the (if_ip spec)"
      by (auto simp: fixture_client_def fixture_iface_def fixture_ips_def spec split: if_splits)
    then show ?thesis using seen_ips [OF S L own(2) ex x] j by (simp add: shows_iface_def)
  qed
  have "nbi_mtu (fixture_iface fx k spec) = nbi_mtu j"
    using p j by (simp add: as_posted_def shows_iface_def int_attr_def mtu_value_def fixture_iface_def split: option.splits)
  moreover have "nbi_name (fixture_iface fx k spec) = nbi_name j"
    using p j by (simp add: as_posted_def shows_iface_def fixture_iface_def)
  ultimately show ?thesis
    unfolding looks_same_def
    using ips seen_vlan [OF L V x p j] seen_mac [OF L own(1) x j] seen_sriov [OF p j] by simp
qed


section \<open>The inventory in the order the server lists it\<close>

lemma fixture_ifaces_nth:
  "length (fixture_ifaces fx) = length (fx_interfaces fx)"
  "k < length (fx_interfaces fx) \<Longrightarrow> fixture_ifaces fx ! k = fixture_iface fx k (fx_interfaces fx ! k)"
  by (simp_all add: fixture_ifaces_def nth_enumerate_eq)

lemma fixture_ifaces_names: "map nbi_name (fixture_ifaces fx) = map if_name (fx_interfaces fx)"
  by (rule nth_equalityI) (simp_all add: fixture_ifaces_nth, simp add: fixture_iface_def)

definition listed_as :: "host_fixture \<Rightarrow> string list \<Rightarrow> nb_iface list" where
  "listed_as fx ns = map (\<lambda>n. the (map_of (zip (map if_name (fx_interfaces fx)) (fixture_ifaces fx)) n)) ns"

lemma listed_as_name:
  assumes "distinct (map if_name (fx_interfaces fx))" and "k < length (fx_interfaces fx)"
  shows "map_of (zip (map if_name (fx_interfaces fx)) (fixture_ifaces fx)) (if_name (fx_interfaces fx ! k))
    = Some (fixture_iface fx k (fx_interfaces fx ! k))"
  using map_of_zip_nth [of "map if_name (fx_interfaces fx)" "fixture_ifaces fx" k] assms
  by (simp add: fixture_ifaces_nth)

lemma listed_as_perm:
  assumes d: "distinct (map if_name (fx_interfaces fx))" and ns: "distinct ns" "set ns = if_name ` set (fx_interfaces fx)"
  shows "mset (listed_as fx ns) = mset (fixture_ifaces fx)"
proof -
  have "listed_as fx (map if_name (fx_interfaces fx)) = fixture_ifaces fx"
    by (rule nth_equalityI) (simp_all add: listed_as_def fixture_ifaces_nth listed_as_name [OF d])
  moreover have "mset ns = mset (map if_name (fx_interfaces fx))"
    using set_eq_iff_mset_eq_distinct [OF ns(1) d] ns(2) by simp
  then have "mset (listed_as fx ns) = mset (listed_as fx (map if_name (fx_interfaces fx)))"
    by (simp only: listed_as_def mset_map)
  ultimately show ?thesis by simp
qed

definition listing :: "host_fixture \<Rightarrow> string list \<Rightarrow> nb_client" where
  "listing fx ns = (fixture_client fx)\<lparr>nb_list_interfaces := (\<lambda>_. Inr (listed_as fx ns))\<rparr>"

lemma listing_load:
  assumes d: "distinct (map if_name (fx_interfaces fx))" and ns: "distinct ns" "set ns = if_name ` set (fx_interfaces fx)"
    and load: "load_host_intent (fixture_client fx) tag = Inr i"
  shows "\<exists>j. load_host_intent (listing fx ns) tag = Inr j \<and> same_up_to_order i j"
proof (rule load_reordered [OF _ load])
  show "reordered (fixture_client fx) (listing fx ns) tag"
    using d listed_as_perm [OF d ns] fixture_ifaces_names
    by (simp add: reordered_def listing_def fixture_client_def)
qed

lemma seen_device:
  assumes L: "keeps_inventory api stored client" and K: "host_known stored s fx d"
  obtains dev where "nb_get_device (client s) (fx_asset_tag fx) = Inr (Some dev)" "nbd_id dev = d"
    "nbd_name dev = Some (fx_hostname fx)" "nbd_role dev = Some (Some (fx_device_role fx))"
proof -
  obtain x y where x: "stored s Devices [(''asset_tag'', PyStr (fx_asset_tag fx))] = Some x" "rid x = d"
      "dict_get x ''name'' = PyStr (fx_hostname fx)" "ref ''role'' x = PyInt (rid y)"
      and y: "stored s DeviceRoles [(''slug'', PyStr (fx_device_role fx))] = Some y"
    using K by (auto simp: host_known_def device_query_def)
  obtain dev where dev: "nb_get_device (client s) (fx_asset_tag fx) = Inr (Some dev)" "shows_device x dev"
    using lists_device [OF inventory_laws(5) [OF L], OF x(1)] by blast
  have "dict_get y ''slug'' = PyStr (fx_device_role fx)"
    using inventory_laws(1) [OF L, OF y] by (simp add: keyed_def dict_get_def)
  then have "map_option (\<lambda>w. text_attr w ''slug'') (nested x ''role'') = Some (Some (fx_device_role fx))"
    using inventory_laws(2) [OF L, unfolded nests_def, rule_format, OF x(1) y x(4)]
    by (auto simp: brief_def nested_def text_attr_def)
  then show thesis using that dev x(2,3) by (simp add: shows_device_def text_attr_def)
qed

lemma stocked_looks_same:
  assumes S: "serves_netbox api stored" and L: "keeps_inventory api stored client"
    and wf: "wf_specs (fx_interfaces fx)"
    and P: "placed stored s d (fx_interfaces fx)" and I: "inventoried stored s fx d"
  obtains jfs ns where "nb_list_interfaces (client s) d = Inr jfs" "distinct ns"
    "set ns = if_name ` set (fx_interfaces fx)"
    "list_all2 (looks_same (listing fx ns) (client s)) (listed_as fx ns) jfs"
proof -
  obtain jfs ns where ns: "nb_list_interfaces (client s) d = Inr jfs" "distinct ns"
      "\<And>n. n \<in> set ns \<longleftrightarrow> stored s Interfaces (iface_query d n) \<noteq> None"
      "list_all2 (\<lambda>n i. shows_iface (the (stored s Interfaces (iface_query d n))) i) ns jfs"
    using lists_interfaces [OF inventory_laws(5) [OF L], of s d] by blast
  have set_ns: "set ns = if_name ` set (fx_interfaces fx)"
    using I P ns(3) by (fastforce simp: inventoried_def placed_def)
  obtain vmap where V: "fixture_vlans stored s fx vmap"
      "\<And>spec. spec \<in> set (fx_interfaces fx) \<Longrightarrow> exact_iface stored s d vmap spec"
    using I unfolding inventoried_def by blast
  have d: "distinct (map if_name (fx_interfaces fx))" using wf by (simp add: wf_specs_def)
  have same: "looks_same (listing fx ns) (client s)
      (the (map_of (zip (map if_name (fx_interfaces fx)) (fixture_ifaces fx)) n)) j"
    if n: "n \<in> set ns" and j: "shows_iface (the (stored s Interfaces (iface_query d n))) j" for n j
  proof -
    obtain k where k: "k < length (fx_interfaces fx)" "n = if_name (fx_interfaces fx ! k)"
      using n set_ns by (auto simp: in_set_conv_nth)
    let ?spec = "fx_interfaces fx ! k"
    have spec: "?spec \<in> set (fx_interfaces fx)" using k(1) by simp
    obtain x where x: "stored s Interfaces (iface_query d (if_name ?spec)) = Some x" "shows_iface x j"
      using n ns(3) j k(2) by auto
    have "owned_mac stored s d ?spec" "owned_ip stored s d ?spec"
      using P spec by (simp_all add: placed_def)
    note seen_iface [OF S L V(1) k(1) refl V(2) [OF spec] this x]
    then show ?thesis by (simp add: listing_def looks_same_def k listed_as_name [OF d])
  qed
  have "list_all2 (looks_same (listing fx ns) (client s)) (listed_as fx ns) jfs"
    unfolding listed_as_def list_all2_map1
    by (rule list.rel_mono_strong [OF ns(4)]) (rule same)
  then show thesis using that ns(1,2) set_ns by blast
qed

section \<open>What a populated server loads to\<close>

lemma populated_loads:
  assumes "serves_netbox api stored" and "keeps_inventory api stored client"
    and "wf_fixtures fixtures" and "fx \<in> set fixtures" and "stored s Devices (device_query fx) = None"
    and "populate api fixtures s = (Inr rep, t)"
    and "load_host_intent (fixture_client fx) (fx_asset_tag fx) = Inr i"
  shows "\<exists>j. load_host_intent (client t) (fx_asset_tag fx) = Inr j \<and> same_up_to_order i j"
proof -
  obtain d where d: "placed stored t d (fx_interfaces fx)" "inventoried stored t fx d"
    using populate_stocks [OF assms(1-6)] by (auto simp: stocked_def)
  have wf: "wf_specs (fx_interfaces fx)" using assms(3,4) by (simp add: wf_fixtures_def)
  obtain jfs ns where ns: "nb_list_interfaces (client t) d = Inr jfs" "distinct ns"
      "set ns = if_name ` set (fx_interfaces fx)"
      "list_all2 (looks_same (listing fx ns) (client t)) (listed_as fx ns) jfs"
    by (rule stocked_looks_same [OF assms(1,2) wf d])
  have "host_known stored t fx d" using d(2) by (simp add: inventoried_def)
  then obtain dev where dev: "nb_get_device (client t) (fx_asset_tag fx) = Inr (Some dev)" "nbd_id dev = d"
      "nbd_name dev = Some (fx_hostname fx)" "nbd_role dev = Some (Some (fx_device_role fx))"
    by (rule seen_device [OF assms(2)])
  obtain j where j: "load_host_intent (listing fx ns) (fx_asset_tag fx) = Inr j" "same_up_to_order i j"
    using listing_load [OF _ ns(2,3) assms(7)] wf by (auto simp: wf_specs_def)
  have "load_host_intent (client t) (fx_asset_tag fx) = Inr j"
  proof (rule load_looks_same [OF j(1) _ _ dev(1) _ _ _ ns(4)])
    show "nb_get_device (listing fx ns) (fx_asset_tag fx) = Inr (Some
        \<lparr>nbd_id = 1, nbd_name = Some (fx_hostname fx), nbd_role = Some (Some (fx_device_role fx))\<rparr>)"
      by (simp add: listing_def fixture_client_def)
    show "nb_list_interfaces (client t) (nbd_id dev) = Inr jfs" using ns(1) dev(2) by simp
  qed (simp_all add: listing_def dev)
  then show ?thesis using j(2) by blast
qed


text \<open>C5: a fixture and the host loaded from the Netbox it was applied to are the same: when a run of
  the fixture loader succeeds on a server that did not know the host, loading that host by its
  asset tag gives, up to the order of its VLANs, the intent the fixture itself describes, and
  renders to the same bytes as long as VLAN ids differ, whatever the server held before and
  whatever the other fixtures of the run add to it.\<close>

theorem populated_host_loads:
  assumes "serves_netbox api stored" and "keeps_inventory api stored client"
    and "wf_fixtures fixtures" and "fx \<in> set fixtures" and "stored s Devices (device_query fx) = None"
    and "populate api fixtures s = (Inr rep, t)"
    and "load_host_intent (fixture_client fx) (fx_asset_tag fx) = Inr i"
  shows "\<exists>j. load_host_intent (client t) (fx_asset_tag fx) = Inr j \<and> same_up_to_order i j
    \<and> (inj_on vlan_id (set (vlans i)) \<longrightarrow> (\<forall>(env :: 't environment) clock k now.
         render_for env clock i k now = render_for env clock j k now))"
proof -
  obtain j where j: "load_host_intent (client t) (fx_asset_tag fx) = Inr j" "same_up_to_order i j"
    using populated_loads [OF assms] by blast
  have "renderable i" using load_wf_intent [OF assms(7)] by (simp add: wf_intent_def)
  then have "render_for env clock i k now = render_for env clock j k now"
    if "inj_on vlan_id (set (vlans i))" for env :: "'t environment" and clock k now
    using j(2) that by (intro render_for_order_free)
  then show ?thesis using j by blast
qed

section \<open>The cpu host\<close>

text \<open>The fixture fixtures/netbox/data/cpu-host.yaml\<close>

definition cpu_nic_spec :: "string \<Rightarrow> string \<Rightarrow> interface_spec" where
  "cpu_nic_spec name mac = \<lparr>if_name = name, if_type = ''200gbase-x-qsfp56'', if_mac = Some mac, if_mtu = Some 9000,
     if_parent = None, if_lag_members = [], if_untagged_vlan = None, if_ip = None, if_custom_fields = []\<rparr>"

definition cpu_vlan_spec :: "string \<Rightarrow> int \<Rightarrow> int \<Rightarrow> string \<Rightarrow> interface_spec" where
  "cpu_vlan_spec name mtu vid ip = \<lparr>if_name = name, if_type = ''virtual'', if_mac = None, if_mtu = Some mtu,
     if_parent = Some ''bond0'', if_lag_members = [], if_untagged_vlan = Some vid, if_ip = Some ip,
     if_custom_fields = []\<rparr>"

definition cpu_fixture :: host_fixture where
  "cpu_fixture = \<lparr>fx_asset_tag = ''SN-CPU-001'', fx_hostname = ''k8s-cp-01.pod07.site03.internal'',
     fx_device_role = ''cpu'', fx_site = ''site03'',
     fx_device_type = \<lparr>dt_manufacturer = ''Dell'', dt_model = ''PowerEdge R660'', dt_slug = ''poweredge-r660'', dt_u_height = 1\<rparr>,
     fx_vlans = [\<lparr>vs_vid = 100, vs_name = ''mgmt''\<rparr>, \<lparr>vs_vid = 200, vs_name = ''storage''\<rparr>,
       \<lparr>vs_vid = 300, vs_name = ''ingress''\<rparr>],
     fx_interfaces = [cpu_nic_spec ''nsa'' ''aa:bb:cc:00:01:01'', cpu_nic_spec ''nsb'' ''aa:bb:cc:00:01:02'',
       \<lparr>if_name = ''bond0'', if_type = ''lag'', if_mac = None, if_mtu = Some 9000, if_parent = None,
          if_lag_members = [''nsa'', ''nsb''], if_untagged_vlan = None, if_ip = None, if_custom_fields = []\<rparr>,
       cpu_vlan_spec ''bond0.100'' 1500 100 ''10.42.10.11/24'', cpu_vlan_spec ''bond0.200'' 9000 200 ''10.42.20.11/24'',
       cpu_vlan_spec ''bond0.300'' 1500 300 ''10.42.30.11/24''],
     fx_custom_fields = []\<rparr>"

lemma cpu_fixture_run: "\<exists>rep t. populate rows_api [cpu_fixture] [] = (Inr rep, t)"
proof -
  have "case fst (populate rows_api [cpu_fixture] []) of Inl e \<Rightarrow> False | Inr rep \<Rightarrow> True" by code_simp
  then show ?thesis by (cases "populate rows_api [cpu_fixture] []") (auto split: sum.splits)
qed

lemma cpu_fixture_wf: "wf_fixtures [cpu_fixture]"
  by (simp add: wf_fixtures_def wf_specs_def cpu_fixture_def cpu_nic_spec_def cpu_vlan_spec_def)

lemma cpu_fixture_builds:
  "build_ns_nics (fixture_ifaces cpu_fixture) ''SN-CPU-001'' = Inr cpu_members"
  "build_bond (fixture_ifaces cpu_fixture) cpu_members ''SN-CPU-001'' = Inr cpu_bond"
  "build_vlans (fixture_client cpu_fixture) (fixture_ifaces cpu_fixture) ''SN-CPU-001'' = Inr cpu_vlans"
  "build_roce_underlays (fixture_client cpu_fixture) (fixture_ifaces cpu_fixture) ''SN-CPU-001'' = Inr []"
  "build_ib_underlays (fixture_client cpu_fixture) (fixture_ifaces cpu_fixture) ''SN-CPU-001'' = Inr []"
  by code_simp+

lemma cpu_fixture_load: "load_host_intent (fixture_client cpu_fixture) (fx_asset_tag cpu_fixture) = Inr cpu_intent"
proof -
  have "fetch_device (fixture_client cpu_fixture) ''SN-CPU-001'' = Inr cpu_device"
    by (simp add: fetch_device_def fixture_client_def cpu_fixture_def cpu_device_def)
  moreover have "fetch_interfaces (fixture_client cpu_fixture) cpu_device ''SN-CPU-001'' = Inr (fixture_ifaces cpu_fixture)"
    by (simp add: fetch_interfaces_def fixture_client_def)
  ultimately have "load_host_intent (fixture_client cpu_fixture) ''SN-CPU-001'' = Inr cpu_intent"
    using cpu_fixture_builds cpu_fetch(3) cpu_mk
    by (simp add: load_host_intent_def cpu_device_def str_opt_def)
  then show ?thesis by (simp add: cpu_fixture_def)
qed

theorem populated_host_loads_witness:
  "\<exists>rep t j. populate rows_api [cpu_fixture] [] = (Inr rep, t)
     \<and> load_host_intent (rows_client t) (fx_asset_tag cpu_fixture) = Inr j \<and> same_up_to_order cpu_intent j
     \<and> render_for template_tree () cpu_intent (Kind NETWORK_CONFIG) None
         = render_for template_tree () j (Kind NETWORK_CONFIG) None"
proof -
  obtain rep t where run: "populate rows_api [cpu_fixture] [] = (Inr rep, t)" using cpu_fixture_run by blast
  have "rows_stored [] Devices (device_query cpu_fixture) = None" by (simp add: rows_stored_def row_of_def)
  moreover have "inj_on vlan_id (set (vlans cpu_intent))" by (simp add: cpu_intent_def cpu_vlans_def)
  ultimately show ?thesis
    using populated_host_loads [OF rows_serve rows_inventory cpu_fixture_wf _ _ run cpu_fixture_load, where 't = unit]
      run by auto
qed

end
