(* ===== verification/Startup.thy ===== *)
theory Startup
  imports Pyval
begin

text \<open>
  What the process sets up once: logging (src/host_config/logging_config.py), the metric
  collectors (src/host_config/observability/metrics.py) and the Jinja environment
  (src/host_config/render/environment.py). The standard \<open>logging\<close> module is modelled as far as
  \<open>configure_logging\<close> uses it; the Prometheus registry is a parameter.
\<close>

section \<open>Logging\<close>

text \<open>
  \<open>getattr(logging, name)\<close> for an upper-case name: a level number, or one of the module's
  other upper-case attributes, which are not levels.
\<close>

datatype log_attr = Level int | NotALevel string

definition logging_attr :: "string \<Rightarrow> log_attr option" where
  "logging_attr = map_of
     [(''CRITICAL'', Level 50), (''FATAL'', Level 50), (''ERROR'', Level 40), (''WARNING'', Level 30),
      (''WARN'', Level 30), (''INFO'', Level 20), (''DEBUG'', Level 10), (''NOTSET'', Level 0),
      (''BASIC_FORMAT'', NotALevel ''str''), (''_STYLES'', NotALevel ''dict'')]"

datatype log_renderer = ConsoleRenderer | JSONRenderer

text \<open>
  The state: the root logger of \<open>logging\<close>, whether it has handlers and its level, and the
  configuration of structlog.
\<close>

record structlog_config =
  log_renderer :: log_renderer
  filtering_level :: int
  cache_logger_on_first_use :: bool

record log_state =
  root_has_handlers :: bool
  root_level :: int
  structlog :: "structlog_config option"

definition fresh_log_state :: log_state where
  "fresh_log_state = \<lparr>root_has_handlers = False, root_level = 30, structlog = None\<rparr>"

text \<open>
  \<open>logging.basicConfig(level=numeric)\<close>: nothing if the root logger has handlers; otherwise it
  gets one, and then its level is set, which fails for a value that is not a level.
\<close>

definition basic_config :: "log_attr \<Rightarrow> (log_state, exn, unit) act" where
  "basic_config numeric st =
     (if root_has_handlers st then (Inr (), st)
      else case numeric of
        Level n \<Rightarrow> (Inr (), st\<lparr>root_has_handlers := True, root_level := n\<rparr>)
      | NotALevel t \<Rightarrow>
          (Inl (if t = ''str'' then ValueError ''Unknown level'' else TypeError ''Level not an integer or a valid string''),
           st\<lparr>root_has_handlers := True\<rparr>))"

definition resolved_level :: "string option \<Rightarrow> (string \<Rightarrow> string option) \<Rightarrow> string" where
  "resolved_level level environ = map upper_char
     (case level of
        None \<Rightarrow> (case environ ''LOG_LEVEL'' of None \<Rightarrow> ''INFO'' | Some l \<Rightarrow> l)
      | Some l \<Rightarrow> if l = '''' then (case environ ''LOG_LEVEL'' of None \<Rightarrow> ''INFO'' | Some l' \<Rightarrow> l') else l)"

definition numeric_level :: "string \<Rightarrow> log_attr" where
  "numeric_level resolved = (case logging_attr resolved of None \<Rightarrow> Level 20 | Some a \<Rightarrow> a)"

definition chosen_renderer :: "(string \<Rightarrow> string option) \<Rightarrow> log_renderer" where
  "chosen_renderer environ =
     (if py_lower (case environ ''LOG_FORMAT'' of None \<Rightarrow> ''json'' | Some f \<Rightarrow> f) = ''console''
      then ConsoleRenderer else JSONRenderer)"

definition configure_logging ::
  "string option \<Rightarrow> (string \<Rightarrow> string option) \<Rightarrow> (log_state, exn, unit) act" where
  "configure_logging level environ =
     (let numeric = numeric_level (resolved_level level environ) in
      abind (basic_config numeric) (\<lambda>_.
      case numeric of
        Level n \<Rightarrow> amodify (\<lambda>st. st\<lparr>structlog := Some \<lparr>log_renderer = chosen_renderer environ,
          filtering_level = n, cache_logger_on_first_use = False\<rparr>\<rparr>)
      | NotALevel t \<Rightarrow> athrow (ExternalError ''make_filtering_bound_logger'')))"


section \<open>Metric collectors\<close>

datatype collector_kind = Counter | Histogram "int list" | Gauge

record collector_spec =
  metric_kind :: collector_kind
  metric_name :: string
  metric_doc :: string
  metric_labels :: "string list"

text \<open>\<open>_LATENCY_BUCKETS\<close>, in milliseconds\<close>

definition LATENCY_BUCKETS :: "int list" where
  "LATENCY_BUCKETS = [1, 5, 10, 25, 50, 100, 250, 500, 1000, 2500, 5000, 10000]"

definition METRICS :: "collector_spec list" where
  "METRICS =
     [\<lparr>metric_kind = Counter, metric_name = ''host_config_requests_total'',
       metric_doc = ''Total HTTP requests, by method, matched route template, and status code.'',
       metric_labels = [''method'', ''path'', ''status'']\<rparr>,
      \<lparr>metric_kind = Histogram LATENCY_BUCKETS, metric_name = ''host_config_request_duration_seconds'',
       metric_doc = ''End-to-end HTTP request duration, by method and matched route template.'',
       metric_labels = [''method'', ''path'']\<rparr>,
      \<lparr>metric_kind = Gauge, metric_name = ''host_config_active_requests'',
       metric_doc = ''Number of HTTP requests currently in flight.'', metric_labels = []\<rparr>,
      \<lparr>metric_kind = Counter, metric_name = ''host_config_renders_total'',
       metric_doc = ''Total renders, by host role and outcome '' @
         ''(success|validation_error|netbox_error|template_error).'',
       metric_labels = [''role'', ''outcome'']\<rparr>,
      \<lparr>metric_kind = Histogram LATENCY_BUCKETS, metric_name = ''host_config_render_duration_seconds'',
       metric_doc = ''Render duration (Netbox load + template emit), by host role.'',
       metric_labels = [''role'']\<rparr>,
      \<lparr>metric_kind = Histogram LATENCY_BUCKETS, metric_name = ''host_config_netbox_query_duration_seconds'',
       metric_doc = ''Duration of Netbox queries, by logical endpoint.'', metric_labels = [''endpoint'']\<rparr>,
      \<lparr>metric_kind = Counter, metric_name = ''host_config_cache_events_total'',
       metric_doc = ''Cache events by type (hit|miss|evict|error). Populated by the nginx '' @
         ''cache tier / log exporter, not by the renderer process.'',
       metric_labels = [''type'']\<rparr>]"

text \<open>The registry: constructing a collector registers it, and \<open>REGISTRY._names_to_collectors[name]\<close>.\<close>

record ('s, 'c) prometheus =
  new_collector :: "collector_spec \<Rightarrow> ('s, exn, 'c) act"
  collector_named :: "string \<Rightarrow> 's \<Rightarrow> exn + 'c"

text \<open>\<open>_safe_counter\<close>, \<open>_safe_histogram\<close>, \<open>_safe_gauge\<close>\<close>

definition safe_collector :: "('s, 'c) prometheus \<Rightarrow> collector_spec \<Rightarrow> ('s, exn, 'c) act" where
  "safe_collector reg spec s = (case new_collector reg spec s of
      (Inr c, t) \<Rightarrow> (Inr c, t)
    | (Inl e, t) \<Rightarrow>
        if is_a e ''ValueError'' then (collector_named reg (metric_name spec) t, t) else (Inl e, t))"

definition load_metrics :: "('s, 'c) prometheus \<Rightarrow> ('s, exn, 'c list) act" where
  "load_metrics reg = amap (safe_collector reg) METRICS"


section \<open>Jinja environment\<close>

record jinja_options =
  jinja_root :: string
  strict_undefined :: bool
  autoescape :: bool
  trim_blocks :: bool
  lstrip_blocks :: bool
  keep_trailing_newline :: bool

definition make_environment :: "string \<Rightarrow> string option \<Rightarrow> jinja_options" where
  "make_environment TEMPLATES_ROOT templates_root =
     (let root = (case templates_root of None \<Rightarrow> TEMPLATES_ROOT | Some r \<Rightarrow> r)
      in \<lparr>jinja_root = root, strict_undefined = True, autoescape = False, trim_blocks = True,
          lstrip_blocks = True, keep_trailing_newline = True\<rparr>)"


section \<open>Properties\<close>

text \<open>Configuring the logging a second time changes what structlog filters and how it renders,
  but the root logger keeps the level of the first call; with the same settings nothing changes.\<close>

theorem logging_configured_once:
  assumes "configure_logging level environ st = (Inr (), st1)"
    and "configure_logging level' environ' st1 = (Inr (), st2)"
  shows "root_level st2 = root_level st1
    \<and> (\<exists>n. numeric_level (resolved_level level' environ') = Level n
         \<and> structlog st2 = Some \<lparr>log_renderer = chosen_renderer environ', filtering_level = n,
             cache_logger_on_first_use = False\<rparr>)
    \<and> (level' = level \<and> environ' = environ \<longrightarrow> st2 = st1)"
  using assms
  by (auto simp: configure_logging_def Let_def basic_config_def abind_def split: log_attr.splits if_splits)

definition debug_env :: "string \<Rightarrow> string option" where
  "debug_env = map_of [(''LOG_LEVEL'', ''debug''), (''LOG_FORMAT'', ''Console'')]"

theorem logging_configured_once_witness:
  "\<exists>st1 st2. configure_logging None (\<lambda>_. None) fresh_log_state = (Inr (), st1)
     \<and> configure_logging None debug_env st1 = (Inr (), st2)
     \<and> root_level st1 = 20 \<and> root_level st2 = 20
     \<and> structlog st2 = Some \<lparr>log_renderer = ConsoleRenderer, filtering_level = 10, cache_logger_on_first_use = False\<rparr>"
proof -
  obtain st1 where 1: "configure_logging None (\<lambda>_. None) fresh_log_state = (Inr (), st1)" "root_level st1 = 20"
    "root_has_handlers st1"
    by (simp add: configure_logging_def Let_def resolved_level_def numeric_level_def logging_attr_def
        upper_char_def basic_config_def fresh_log_state_def abind_def)
  have n: "numeric_level (resolved_level None debug_env) = Level 10" by code_simp
  then obtain st2 where 2: "configure_logging None debug_env st1 = (Inr (), st2)"
    using 1(3) by (simp add: configure_logging_def Let_def basic_config_def abind_def)
  have "chosen_renderer debug_env = ConsoleRenderer" by code_simp
  then show ?thesis using logging_configured_once [OF 1(1) 2] 1(1,2) 2 n by auto
qed


text \<open>
  What the module relies on of the registry, over \<open>registered\<close>, the collector known under a
  name: a construction that succeeds is found under its name and displaces no other, one whose
  name is taken raises \<open>ValueError\<close> and changes nothing.
\<close>

definition registers :: "('s, 'c) prometheus \<Rightarrow> ('s \<Rightarrow> string \<Rightarrow> 'c option) \<Rightarrow> bool" where
  "registers reg registered \<longleftrightarrow>
     (\<forall>spec s c t. new_collector reg spec s = (Inr c, t) \<longrightarrow> registered t (metric_name spec) = Some c
        \<and> (\<forall>n d. registered s n = Some d \<longrightarrow> registered t n = Some d))
     \<and> (\<forall>spec s e t. new_collector reg spec s = (Inl e, t) \<longrightarrow> t = s)
     \<and> (\<forall>spec s c. registered s (metric_name spec) = Some c \<longrightarrow>
          (\<exists>m. new_collector reg spec s = (Inl (ValueError m), s)))
     \<and> (\<forall>s n c. registered s n = Some c \<longleftrightarrow> collector_named reg n s = Inr c)"

lemma safe_collector_Inr:
  assumes R: "registers reg registered" and run: "safe_collector reg spec s = (Inr c, t)"
  shows "registered t (metric_name spec) = Some c \<and> (\<forall>n d. registered s n = Some d \<longrightarrow> registered t n = Some d)"
proof (cases "new_collector reg spec s")
  case (Pair r u)
  show ?thesis
  proof (cases r)
    case (Inr d)
    then have "new_collector reg spec s = (Inr c, t)" using run Pair by (simp add: safe_collector_def)
    then show ?thesis using R unfolding registers_def by blast
  next
    case (Inl e)
    then have "u = s" using R Pair unfolding registers_def by blast
    then have "collector_named reg (metric_name spec) s = Inr c" "t = s"
      using run Pair Inl by (auto simp: safe_collector_def split: if_splits)
    then show ?thesis using R unfolding registers_def by blast
  qed
qed

lemma safe_collector_again:
  assumes R: "registers reg registered" and c: "registered s (metric_name spec) = Some c"
  shows "safe_collector reg spec s = (Inr c, s)"
proof -
  obtain m where "new_collector reg spec s = (Inl (ValueError m), s)"
    using R c unfolding registers_def by blast
  moreover have "collector_named reg (metric_name spec) s = Inr c" using R c unfolding registers_def by blast
  ultimately show ?thesis by (simp add: safe_collector_def exn_class_defs)
qed

lemma safe_collectors_Inr:
  assumes R: "registers reg registered"
  shows "amap (safe_collector reg) specs s = (Inr cs, t) \<Longrightarrow>
    list_all2 (\<lambda>spec c. registered t (metric_name spec) = Some c) specs cs
    \<and> (\<forall>n d. registered s n = Some d \<longrightarrow> registered t n = Some d)"
proof (induction specs arbitrary: s cs)
  case (Cons spec specs)
  from Cons.prems obtain c u ds where 1: "safe_collector reg spec s = (Inr c, u)"
      "amap (safe_collector reg) specs u = (Inr ds, t)" "cs = c # ds"
    by (auto simp: abind_eq_Inr)
  from safe_collector_Inr [OF R 1(1)] Cons.IH [OF 1(2)] show ?case by (simp add: 1(3))
qed simp

lemma safe_collectors_again:
  assumes R: "registers reg registered"
  shows "list_all2 (\<lambda>spec c. registered t (metric_name spec) = Some c) specs cs \<Longrightarrow>
    amap (safe_collector reg) specs t = (Inr cs, t)"
  by (induction specs arbitrary: cs)
     (auto simp: list_all2_Cons1 abind_def safe_collector_again [OF R])

text \<open>C39: evaluating the metrics module again in the same process gives the same collectors and
  leaves the registry as it is, instead of failing on duplicate series.\<close>

theorem metrics_reload:
  assumes "registers reg registered" and "load_metrics reg s = (Inr collectors, t)"
  shows "load_metrics reg t = (Inr collectors, t)"
  using safe_collectors_again [OF assms(1)] safe_collectors_Inr [OF assms(1)] assms(2)
  unfolding load_metrics_def by blast

definition name_registry :: "(string list, string) prometheus" where
  "name_registry =
     \<lparr>new_collector = \<lambda>spec s. if metric_name spec \<in> set s then (Inl (ValueError ''Duplicated timeseries''), s)
        else (Inr (metric_name spec), metric_name spec # s),
      collector_named = \<lambda>n s. if n \<in> set s then Inr n else Inl (KeyError n)\<rparr>"

lemma name_registry_registers: "registers name_registry (\<lambda>s n. if n \<in> set s then Some n else None)"
  by (auto simp: registers_def name_registry_def split: if_splits)

theorem metrics_reload_witness:
  "\<exists>cs t. load_metrics name_registry [] = (Inr cs, t) \<and> load_metrics name_registry t = (Inr cs, t) \<and> length t = 7"
proof -
  have "load_metrics name_registry [] = (Inr (map metric_name METRICS), rev (map metric_name METRICS))"
    by code_simp
  from metrics_reload [OF name_registry_registers this] this show ?thesis
    by (auto simp: METRICS_def)
qed

end
