(* ===== verification/Yaml.thy ===== *)
theory Yaml
  imports Pyval
begin

text \<open>
  A reader of the YAML the templates write: block mappings and sequences of plain one-word
  scalars. A document is cut into tokens with their columns, nested by column, and each group
  of siblings must be aligned. What the reader does not understand (quotes, flow collections,
  comments, blank values, repeated keys, siblings out of line) it refuses. Scalars are read as
  the text they are, before any tag is resolved. The round trip: a value written in block
  style reads back as itself.
\<close>

section \<open>Tokens\<close>

datatype token = Dash | Key string | Text string

type_synonym placed_token = "nat \<times> token"

definition is_graph :: "char \<Rightarrow> bool" where
  "is_graph c \<longleftrightarrow> (let n = of_char c :: nat in 33 \<le> n \<and> n \<le> 126)"

definition is_alnum :: "char \<Rightarrow> bool" where
  "is_alnum c \<longleftrightarrow> (let n = of_char c :: nat in
     (48 \<le> n \<and> n \<le> 57) \<or> (65 \<le> n \<and> n \<le> 90) \<or> (97 \<le> n \<and> n \<le> 122))"

text \<open>A word that is a plain scalar wherever it stands: no indicator in front, no colon behind.\<close>

definition plain_scalar :: "string \<Rightarrow> bool" where
  "plain_scalar s \<longleftrightarrow> s \<noteq> [] \<and> is_alnum (hd s) \<and> list_all is_graph s \<and> last s \<noteq> CHR '':''"

text \<open>A line without its indentation: \<open>- \<close> any number of times, then \<open>key:\<close>, \<open>key: word\<close> or \<open>word\<close>\<close>

definition lex_entry :: "nat \<Rightarrow> string \<Rightarrow> placed_token list option" where
  "lex_entry n s =
     (let w = takeWhile (\<lambda>c. c \<noteq> CHR '' '') s; rest = drop (length w) s in
      if rest = [] then
        (if w \<noteq> [] \<and> last w = CHR '':'' then
           (if plain_scalar (butlast w) then Some [(n, Key (butlast w))] else None)
         else if plain_scalar w then Some [(n, Text w)] else None)
      else if w \<noteq> [] \<and> last w = CHR '':'' \<and> plain_scalar (butlast w) \<and> plain_scalar (tl rest)
        then Some [(n, Key (butlast w)), (n + length w + 1, Text (tl rest))]
      else None)"

fun lex_at :: "nat \<Rightarrow> string \<Rightarrow> placed_token list option" where
  "lex_at n (a # b # s) =
     (if a = CHR ''-'' \<and> b = CHR '' '' then map_option ((#) (n, Dash)) (lex_at (n + 2) s)
      else lex_entry n (a # b # s))"
| "lex_at n s = lex_entry n s"

fun lex_from :: "nat \<Rightarrow> string \<Rightarrow> placed_token list option" where
  "lex_from n [] = Some []"
| "lex_from n (c # s) = (if c = CHR '' '' then lex_from (Suc n) s else lex_at n (c # s))"

definition lex :: "string list \<Rightarrow> placed_token list option" where
  "lex ls = map_option concat (those (map (lex_from 0) ls))"

section \<open>Nesting\<close>

datatype tree = Node (column: nat) token "tree list"

text \<open>A token takes what follows it further to the right.\<close>

primrec forest :: "placed_token list \<Rightarrow> tree list" where
  "forest [] = []"
| "forest (t # ts) =
     (let f = forest ts; kids = takeWhile (\<lambda>k. fst t < column k) f
      in Node (fst t) (snd t) kids # drop (length kids) f)"

datatype part = Leaf string | Item pyval | Entry string pyval

definition items_of :: "part list \<Rightarrow> pyval list option" where
  "items_of ps = those (map (\<lambda>p. case p of Item v \<Rightarrow> Some v | _ \<Rightarrow> None) ps)"

definition entries_of :: "part list \<Rightarrow> pydict option" where
  "entries_of ps = those (map (\<lambda>p. case p of Entry k v \<Rightarrow> Some (k, v) | _ \<Rightarrow> None) ps)"

text \<open>The siblings of one level: a scalar alone, or the items of a sequence, or the entries of a mapping\<close>

definition together :: "part list \<Rightarrow> pyval option" where
  "together ps = (case ps of
      [] \<Rightarrow> None
    | Leaf s # rest \<Rightarrow> if rest = [] then Some (PyStr s) else None
    | Item _ # _ \<Rightarrow> map_option PyList (items_of ps)
    | Entry _ _ # _ \<Rightarrow> (case entries_of ps of
          Some d \<Rightarrow> if distinct (map fst d) then Some (PyDict d) else None
        | None \<Rightarrow> None))"

definition assemble :: "(nat \<times> part option) list \<Rightarrow> pyval option" where
  "assemble ps =
     (if list_all (\<lambda>p. fst p = fst (hd ps)) ps
      then (case those (map snd ps) of None \<Rightarrow> None | Some parts \<Rightarrow> together parts)
      else None)"

primrec part_of :: "tree \<Rightarrow> part option" where
  "part_of (Node n t kids) =
     (let value = assemble (map (\<lambda>k. (column k, part_of k)) kids) in
      case t of
        Text s \<Rightarrow> if kids = [] then Some (Leaf s) else None
      | Dash \<Rightarrow> map_option Item value
      | Key k \<Rightarrow> map_option (Entry k) value)"

definition read_trees :: "tree list \<Rightarrow> pyval option" where
  "read_trees ts = assemble (map (\<lambda>t. (column t, part_of t)) ts)"

definition read_yaml :: "string list \<Rightarrow> pyval option" where
  "read_yaml ls = (case lex ls of None \<Rightarrow> None | Some ts \<Rightarrow> read_trees (forest ts))"

section \<open>Writing a value in block style\<close>

definition gap :: "string \<Rightarrow> pyval \<Rightarrow> nat" where
  "gap k v = (case v of PyStr _ \<Rightarrow> length k + 2 | _ \<Rightarrow> 2)"

fun tokens :: "nat \<Rightarrow> pyval \<Rightarrow> placed_token list" where
  "tokens n (PyStr s) = [(n, Text s)]"
| "tokens n (PyList vs) = concat (map (\<lambda>v. (n, Dash) # tokens (n + 2) v) vs)"
| "tokens n (PyDict d) = concat (map (\<lambda>(k, v). (n, Key k) # tokens (n + gap k v) v) d)"
| "tokens n _ = []"

fun writable :: "pyval \<Rightarrow> bool" where
  "writable (PyStr s) = True"
| "writable (PyList vs) \<longleftrightarrow> vs \<noteq> [] \<and> (\<forall>v \<in> set vs. writable v)"
| "writable (PyDict d) \<longleftrightarrow> d \<noteq> [] \<and> distinct (map fst d) \<and> (\<forall>(k, v) \<in> set d. writable v)"
| "writable _ \<longleftrightarrow> False"


text \<open>The lines of that style: an item's first line follows its dash, a one-word value its key.\<close>

definition indented :: "nat \<Rightarrow> string list \<Rightarrow> string list" where
  "indented n ls = map (\<lambda>l. replicate n (CHR '' '') @ l) ls"

definition as_item :: "string list \<Rightarrow> string list" where
  "as_item ls = (case ls of [] \<Rightarrow> [] | l # rest \<Rightarrow> (''- '' @ l) # indented 2 rest)"

fun block :: "pyval \<Rightarrow> string list" where
  "block (PyStr s) = [s]"
| "block (PyList vs) = concat (map (\<lambda>v. as_item (block v)) vs)"
| "block (PyDict d) = concat (map (\<lambda>(k, v). case v of
      PyStr s \<Rightarrow> [k @ '': '' @ s]
    | _ \<Rightarrow> (k @ '':'') # indented 2 (block v)) d)"
| "block _ = []"

fun plain_words :: "pyval \<Rightarrow> bool" where
  "plain_words (PyStr s) = plain_scalar s"
| "plain_words (PyList vs) \<longleftrightarrow> (\<forall>v \<in> set vs. plain_words v)"
| "plain_words (PyDict d) \<longleftrightarrow> (\<forall>(k, v) \<in> set d. plain_scalar k \<and> plain_words v)"
| "plain_words _ \<longleftrightarrow> False"


section \<open>What is written reads back\<close>

lemma those_map: "(\<And>x. x \<in> set xs \<Longrightarrow> f x = Some (g x)) \<Longrightarrow> those (map f xs) = Some (map g xs)"
  by (induction xs) auto

lemma those_append: "those (xs @ ys) = (case those xs of None \<Rightarrow> None
    | Some as \<Rightarrow> (case those ys of None \<Rightarrow> None | Some bs \<Rightarrow> Some (as @ bs)))"
  by (induction xs) (auto split: option.splits)

lemma forest_columns: "t \<in> set (forest xs) \<Longrightarrow> column t \<in> fst ` set xs"
  by (induction xs) (auto simp: Let_def dest: in_set_dropD)

lemma forest_under:
  assumes "\<forall>x \<in> set xs. n < fst x"
  shows "forest ((n, t) # xs) = [Node n t (forest xs)]"
proof -
  have t: "takeWhile (\<lambda>k. n < column k) (forest xs) = forest xs"
    using assms forest_columns by (fastforce simp: takeWhile_eq_all_conv)
  show ?thesis unfolding forest.simps Let_def fst_conv snd_conv t by simp
qed

lemma forest_first: "ys \<noteq> [] \<Longrightarrow> \<exists>k ks. forest ys = k # ks \<and> column k = fst (hd ys)"
  by (cases ys) (auto simp: Let_def)

lemma takeWhile_append_stop: "\<not> P y \<Longrightarrow> takeWhile P (xs @ y # ys) = takeWhile P xs"
  by (induction xs) auto

lemma forest_append:
  assumes "ys = [] \<or> (\<forall>x \<in> set xs. fst (hd ys) \<le> fst x)"
  shows "forest (xs @ ys) = forest xs @ forest ys"
  using assms
proof (induction xs)
  case (Cons x xs)
  have t: "takeWhile (\<lambda>k. fst x < column k) (forest xs @ forest ys) = takeWhile (\<lambda>k. fst x < column k) (forest xs)"
  proof (cases "ys = []")
    case False
    from forest_first [OF this] obtain k ks where "forest ys = k # ks" "column k = fst (hd ys)" by blast
    then show ?thesis using False Cons.prems by (simp add: takeWhile_append_stop)
  qed simp
  have "forest (xs @ ys) = forest xs @ forest ys" using Cons.IH Cons.prems by auto
  then show ?case using t length_takeWhile_le [of "\<lambda>k. fst x < column k" "forest xs"] by (simp add: Let_def)
qed simp

lemma forest_block:
  assumes "\<And>x. x \<in> set xs \<Longrightarrow> \<forall>p \<in> set (h x). n < fst p"
  shows "forest (concat (map (\<lambda>x. (n, g x) # h x) xs)) = map (\<lambda>x. Node n (g x) (forest (h x))) xs"
  using assms
proof (induction xs)
  case (Cons x xs)
  let ?rest = "concat (map (\<lambda>x. (n, g x) # h x) xs)"
  have "?rest = [] \<or> fst (hd ?rest) = n" by (cases xs) simp_all
  then have "forest (((n, g x) # h x) @ ?rest) = forest ((n, g x) # h x) @ forest ?rest"
    using Cons.prems [of x] by (intro forest_append) (auto intro: less_imp_le)
  moreover have "forest ((n, g x) # h x) = [Node n (g x) (forest (h x))]"
    by (rule forest_under) (rule Cons.prems, simp)
  moreover have "forest ?rest = map (\<lambda>x. Node n (g x) (forest (h x))) xs"
    by (rule Cons.IH) (rule Cons.prems, simp)
  ultimately show ?case by (simp del: forest.simps)
qed simp

lemma tokens_columns: "p \<in> set (tokens n v) \<Longrightarrow> n \<le> fst p"
proof (induction n v arbitrary: p rule: tokens.induct)
  case (2 n vs)
  from this(2) consider "p = (n, Dash)" | v where "v \<in> set vs" "p \<in> set (tokens (n + 2) v)"
    by (auto split: if_splits)
  then show ?case by cases (auto dest: 2(1))
next
  case (3 n d)
  from this(2) consider k where "p = (n, Key k)" | k v where "(k, v) \<in> set d" "p \<in> set (tokens (n + gap k v) v)"
    by (auto split: if_splits)
  then show ?case by cases (auto dest: 3(1))
qed simp_all

lemma assemble_level:
  assumes "\<And>x. x \<in> set xs \<Longrightarrow> part_of (Node n (g x) (k x)) = Some (p x)"
  shows "read_trees (map (\<lambda>x. Node n (g x) (k x)) xs) = together (map p xs)"
proof -
  have "those (map (\<lambda>x. part_of (Node n (g x) (k x))) xs) = Some (map p xs)"
    by (rule those_map) (rule assms)
  moreover have "list_all (\<lambda>c. c = n) (map (\<lambda>x. n) xs)" by (simp add: list_all_iff)
  ultimately show ?thesis
    by (cases xs) (simp_all add: read_trees_def assemble_def o_def list_all_iff del: part_of.simps)
qed

lemma forest_list:
  "forest (tokens n (PyList vs)) = map (\<lambda>v. Node n Dash (forest (tokens (n + 2) v))) vs"
  unfolding tokens.simps by (rule forest_block) (auto dest!: tokens_columns)

lemma gap_pos: "0 < gap k v"
  by (simp add: gap_def split: pyval.splits)

lemma tokens_dict: "tokens n (PyDict d) =
    concat (map (\<lambda>e. (n, Key (fst e)) # tokens (n + gap (fst e) (snd e)) (snd e)) d)"
  by (simp add: case_prod_beta')

lemma forest_dict: "forest (tokens n (PyDict d)) =
    map (\<lambda>e. Node n (Key (fst e)) (forest (tokens (n + gap (fst e) (snd e)) (snd e)))) d"
proof -
  have "n < fst p" if "p \<in> set (tokens (n + gap k v) v)" for p k v
    using tokens_columns [OF that] gap_pos [of k v] by linarith
  then show ?thesis unfolding tokens_dict by (intro forest_block) simp
qed

lemma together_items: "vs \<noteq> [] \<Longrightarrow> together (map Item vs) = Some (PyList vs)"
proof -
  assume "vs \<noteq> []"
  moreover have "items_of (map Item vs) = Some (map (\<lambda>v. v) vs)"
    unfolding items_of_def map_map by (rule those_map) simp
  ultimately show ?thesis by (cases vs) (simp_all add: together_def)
qed

lemma together_entries:
  "d \<noteq> [] \<Longrightarrow> distinct (map fst d) \<Longrightarrow> together (map (\<lambda>e. Entry (fst e) (snd e)) d) = Some (PyDict d)"
proof -
  assume "d \<noteq> []" "distinct (map fst d)"
  moreover have "entries_of (map (\<lambda>e. Entry (fst e) (snd e)) d) = Some (map (\<lambda>e. e) d)"
    unfolding entries_of_def map_map by (rule those_map) simp
  ultimately show ?thesis by (cases d) (simp_all add: together_def)
qed

lemma tokens_read_back: "writable v \<Longrightarrow> read_trees (forest (tokens n v)) = Some v"
proof (induction n v rule: tokens.induct)
  case (1 n s)
  then show ?case by (simp add: read_trees_def assemble_def together_def)
next
  case (2 n vs)
  have "part_of (Node n Dash (forest (tokens (n + 2) v))) = Some (Item v)" if "v \<in> set vs" for v
    using 2 that by (simp add: read_trees_def)
  then have "read_trees (forest (tokens n (PyList vs))) = together (map Item vs)"
    unfolding forest_list by (intro assemble_level [where g = "\<lambda>_. Dash"])
  then show ?case using 2(2) together_items [of vs] by simp
next
  case (3 n d)
  have "part_of (Node n (Key (fst e)) (forest (tokens (n + gap (fst e) (snd e)) (snd e))))
      = Some (Entry (fst e) (snd e))" if "e \<in> set d" for e
  proof (cases e)
    case (Pair k v)
    have "writable v" using 3(2) that Pair by auto
    then have "read_trees (forest (tokens (n + gap k v) v)) = Some v"
      using 3(1) that Pair by blast
    then show ?thesis using Pair by (simp add: read_trees_def)
  qed
  then have "read_trees (forest (tokens n (PyDict d))) = together (map (\<lambda>e. Entry (fst e) (snd e)) d)"
    unfolding forest_dict by (intro assemble_level [where g = "\<lambda>e. Key (fst e)"])
  then show ?case using 3(2) together_entries [of d] by simp
qed simp_all



section \<open>The lines are cut into the tokens\<close>

lemma plain_scalar_head:
  assumes "plain_scalar s"
  obtains c r where "s = c # r" "c \<noteq> CHR '' ''" "c \<noteq> CHR ''-''" "c \<noteq> CHR '':''"
proof (cases s)
  case (Cons c r)
  then have "is_alnum c" using assms by (simp add: plain_scalar_def)
  then have "c \<noteq> CHR '' ''" "c \<noteq> CHR ''-''" "c \<noteq> CHR '':''" by (auto simp: is_alnum_def)
  with Cons show ?thesis by (rule that)
qed (use assms in \<open>simp add: plain_scalar_def\<close>)

lemma plain_scalar_no_space: "plain_scalar s \<Longrightarrow> c \<in> set s \<Longrightarrow> c \<noteq> CHR '' ''"
  by (auto simp: plain_scalar_def list_all_iff is_graph_def)

lemma takeWhile_word: "plain_scalar s \<Longrightarrow> takeWhile (\<lambda>c. c \<noteq> CHR '' '') s = s"
  using plain_scalar_no_space by (simp add: takeWhile_eq_all_conv)

lemma takeWhile_key:
  "plain_scalar k \<Longrightarrow> takeWhile (\<lambda>c. c \<noteq> CHR '' '') (k @ CHR '':'' # r) = k @ CHR '':'' # takeWhile (\<lambda>c. c \<noteq> CHR '' '') r"
  using plain_scalar_no_space by (subst takeWhile_append2) simp_all

lemma lex_entry_word: "plain_scalar s \<Longrightarrow> lex_entry n s = Some [(n, Text s)]"
  by (simp add: lex_entry_def takeWhile_word) (simp add: plain_scalar_def)

lemma lex_entry_key: "plain_scalar k \<Longrightarrow> lex_entry n (k @ '':'') = Some [(n, Key k)]"
  by (simp add: lex_entry_def takeWhile_key)

lemma lex_entry_pair: "plain_scalar k \<Longrightarrow> plain_scalar s \<Longrightarrow>
    lex_entry n (k @ '': '' @ s) = Some [(n, Key k), (n + (length k + 2), Text s)]"
  by (simp add: lex_entry_def takeWhile_key)

text \<open>A line begins at its first character.\<close>

lemma lex_from_spaces: "lex_from n (replicate m (CHR '' '') @ s) = lex_from (n + m) s"
  by (induction m arbitrary: n) simp_all

lemma lex_from_word:
  assumes "plain_scalar k"
  shows "lex_from n (k @ r) = lex_entry n (k @ r) \<and> lex_at n (k @ r) = lex_entry n (k @ r)"
proof -
  obtain c q where "k = c # q" "c \<noteq> CHR '' ''" "c \<noteq> CHR ''-''" using plain_scalar_head [OF assms] by metis
  then show ?thesis by (cases "q @ r") simp_all
qed

lemma lex_append:
  "lex as = Some ts \<Longrightarrow> lex bs = Some us \<Longrightarrow> lex (as @ bs) = Some (ts @ us)"
  by (auto simp: lex_def those_append)

lemma lex_concat:
  assumes "\<And>x. x \<in> set xs \<Longrightarrow> lex (f x) = Some (g x)"
  shows "lex (concat (map f xs)) = Some (concat (map g xs))"
  using assms
proof (induction xs)
  case (Cons x xs)
  have "lex (concat (map f xs)) = Some (concat (map g xs))" by (rule Cons.IH) (rule Cons.prems, simp)
  moreover have "lex (f x) = Some (g x)" by (rule Cons.prems) simp
  ultimately show ?case using lex_append by simp
qed (simp add: lex_def)

lemma lex_Cons: "lex (l # ls) = (case lex_from 0 l of None \<Rightarrow> None
    | Some t \<Rightarrow> (case lex ls of None \<Rightarrow> None | Some ts \<Rightarrow> Some (t @ ts)))"
  by (simp add: lex_def o_def split: option.splits)

lemma indented_Cons: "indented n (l # ls) = (replicate n (CHR '' '') @ l) # indented n ls"
  by (simp add: indented_def)

lemma indented_indented: "indented m (indented n ls) = indented (m + n) ls"
  by (simp add: indented_def replicate_add)

lemma indented_concat: "indented n (concat (map f xs)) = concat (map (\<lambda>x. indented n (f x)) xs)"
  by (simp add: indented_def map_concat o_def)


lemma lex_word_line: "plain_scalar s \<Longrightarrow> lex (indented n [s]) = Some [(n, Text s)]"
  using lex_from_word [of s n "[]"]
  by (simp add: indented_def lex_def lex_from_spaces lex_entry_word)

lemma lex_key_line:
  assumes "plain_scalar k"
  shows "lex (indented n ((k @ '':'') # ls)) = (case lex (indented n ls) of None \<Rightarrow> None
    | Some ts \<Rightarrow> Some ((n, Key k) # ts))"
  using lex_from_word [OF assms, of n "'':''"] lex_entry_key [OF assms, of n]
  by (simp add: indented_Cons lex_Cons lex_from_spaces split: option.splits)

lemma lex_pair_line:
  "plain_scalar k \<Longrightarrow> plain_scalar s \<Longrightarrow>
    lex (indented n [k @ '': '' @ s]) = Some [(n, Key k), (n + (length k + 2), Text s)]"
  using lex_from_word [of k n "'': '' @ s"] lex_entry_pair [of k s n]
  by (simp add: indented_def lex_def lex_from_spaces)

lemma lex_item:
  assumes "lex (indented (n + 2) ls) = Some ts" and "ls = (c # s) # rest" and "c \<noteq> CHR '' ''"
  shows "lex (indented n (as_item ls)) = Some ((n, Dash) # ts)"
proof -
  have "lex_from 0 (replicate n (CHR '' '') @ ''- '' @ c # s) = map_option ((#) (n, Dash)) (lex_from (n + 2) (c # s))"
    using assms(3) by (simp add: lex_from_spaces)
  moreover have "lex_from 0 (replicate (n + 2) (CHR '' '') @ c # s) = lex_from (n + 2) (c # s)"
    unfolding lex_from_spaces by (simp only: add_0)
  ultimately show ?thesis
    using assms(1) unfolding assms(2) as_item_def list.case indented_Cons indented_indented lex_Cons
    by (cases "lex_from (n + 2) (c # s)"; cases "lex (indented (n + 2) rest)")
       (simp_all del: lex_from.simps)
qed

lemma block_item: "writable v \<Longrightarrow> plain_words v \<Longrightarrow> \<exists>c s rest. block v = (c # s) # rest \<and> c \<noteq> CHR '' ''"
proof (induction v)
  case (PyStr s)
  then have s: "plain_scalar s" by simp
  from plain_scalar_head [OF this] obtain c r where "s = c # r" "c \<noteq> CHR '' ''" by metis
  then show ?case by simp
next
  case (PyList vs)
  then obtain w ws where vs: "vs = w # ws" by (cases vs) auto
  then have "\<exists>c s rest. block w = (c # s) # rest \<and> c \<noteq> CHR '' ''" using PyList by simp
  then show ?case by (auto simp: vs as_item_def)
next
  case (PyDict d)
  then obtain k w r where d: "d = (k, w) # r" and k: "plain_scalar k" by (cases d) auto
  obtain c q where "k = c # q" "c \<noteq> CHR '' ''" using plain_scalar_head [OF k] by metis
  then show ?case by (simp add: d split: pyval.splits)
qed simp_all

lemma lex_block: "writable v \<Longrightarrow> plain_words v \<Longrightarrow> lex (indented n (block v)) = Some (tokens n v)"
proof (induction n v rule: tokens.induct)
  case (1 n s)
  then show ?case by (simp add: lex_word_line)
next
  case (2 n vs)
  have "lex (indented n (as_item (block v))) = Some ((n, Dash) # tokens (n + 2) v)" if "v \<in> set vs" for v
  proof -
    have v: "writable v" "plain_words v" using 2 that by auto
    from block_item [OF v] obtain c s rest where "block v = (c # s) # rest" "c \<noteq> CHR '' ''" by blast
    then show ?thesis using lex_item 2(1) [OF that v] by blast
  qed
  then show ?case unfolding block.simps tokens.simps indented_concat by (rule lex_concat)
next
  case (3 n d)
  have "lex (indented n (case e of (k, v) \<Rightarrow> case v of PyStr s \<Rightarrow> [k @ '': '' @ s]
        | _ \<Rightarrow> (k @ '':'') # indented 2 (block v)))
      = Some (case e of (k, v) \<Rightarrow> (n, Key k) # tokens (n + gap k v) v)" if e: "e \<in> set d" for e
  proof (cases e)
    case (Pair k v)
    have v: "writable v" "plain_words v" "plain_scalar k" using 3 e Pair by auto
    then have "lex (indented (n + gap k v) (block v)) = Some (tokens (n + gap k v) v)"
      using 3(1) e Pair by blast
    then show ?thesis using v Pair lex_pair_line [OF v(3)] lex_key_line [OF v(3)]
      by (cases v) (simp_all add: indented_indented gap_def)
  qed
  then show ?case unfolding block.simps tokens.simps indented_concat by (rule lex_concat)
qed simp_all

text \<open>Lines in block style, at any indentation and with blank lines between them, read back.\<close>

lemma lex_skips_blank: "lex (filter (\<lambda>l. l \<noteq> []) ls) = lex ls"
proof (induction ls)
  case (Cons l ls)
  then show ?case by (cases l) (simp_all add: lex_Cons split: option.splits)
qed simp

lemma read_block:
  assumes "writable v" and "plain_words v" and "filter (\<lambda>l. l \<noteq> []) ls = indented n (block v)"
  shows "read_yaml ls = Some v"
proof -
  have "lex ls = Some (tokens n v)"
    using lex_skips_blank [of ls] lex_block [OF assms(1,2), of n] assms(3) by simp
  then show ?thesis by (simp add: read_yaml_def tokens_read_back [OF assms(1)])
qed

end
