(* ===== verification/Netplan_Document.thy ===== *)
theory Netplan_Document
  imports Yaml Rules
begin

text \<open>
  What the rendered Netplan configuration says: the document \<open>network-config.j2\<close> describes, as
  a value, for every role. The lemmas show that its lines are this value in block style, so a
  YAML reader gets it back, both from network-config and from the copy inside user-data, and
  that the value determines the interfaces it was made from.
\<close>

section \<open>The document\<close>

definition ethernet_entries :: "'a phys_iface_scheme \<Rightarrow> pydict" where
  "ethernet_entries nic =
     [(''match'', PyDict [(''macaddress'', PyStr (nic_mac nic))]),
      (''set-name'', PyStr (nic_name nic)),
      (''mtu'', PyStr (str_int (nic_mtu nic)))]"

definition address_entry :: "ipv4_interface \<Rightarrow> string \<times> pyval" where
  "address_entry a = (''addresses'', PyList [PyStr (interface_str a)])"

definition roce_entries :: "roce_underlay \<Rightarrow> pydict" where
  "roce_entries nic = ethernet_entries nic @
     [address_entry (roce_address nic), (''virtual-function-count'', PyStr (str_int (nic_sriov_vfs nic)))]"

definition ib_entries :: "infiniband_underlay \<Rightarrow> pydict" where
  "ib_entries nic = ethernet_entries nic @ [address_entry (ib_address nic)]"

definition stanza :: "('a \<Rightarrow> string) \<Rightarrow> ('a \<Rightarrow> pydict) \<Rightarrow> 'a \<Rightarrow> string \<times> pyval" where
  "stanza name f x = (name x, PyDict (f x))"

definition east_west_entries :: "host_intent \<Rightarrow> pydict" where
  "east_west_entries ctx = (case host_role ctx of
      CPU \<Rightarrow> []
    | GPU_B300 \<Rightarrow> map (stanza nic_name roce_entries) (roce_underlays ctx)
    | GPU_B200 \<Rightarrow> map (stanza nic_name roce_entries) (roce_underlays ctx)
    | GPU_H200 \<Rightarrow> map (stanza nic_name ib_entries) (ib_underlays ctx))"

definition bond_entries :: "bond \<Rightarrow> pydict" where
  "bond_entries b =
     [(''interfaces'', PyList (map PyStr (bond_members b))),
      (''mtu'', PyStr (str_int (bond_mtu b))),
      (''parameters'', PyDict
        [(''mode'', PyStr (bond_mode_value (bond_mode b))),
         (''lacp-rate'', PyStr (lacp_rate_value (bond_lacp_rate b))),
         (''transmit-hash-policy'', PyStr (hash_policy_value (bond_hash_policy b)))])]"

definition gateway_entries :: "32 word option \<Rightarrow> pydict" where
  "gateway_entries g = (case g of
      None \<Rightarrow> []
    | Some w \<Rightarrow> [(''routes'', PyList [PyDict [(''to'', PyStr ''default''), (''via'', PyStr (ipv4_str w))]])])"

definition dns_entries :: "32 word list \<Rightarrow> string option \<Rightarrow> pydict" where
  "dns_entries dns search =
     (if dns = [] then []
      else [(''nameservers'', PyDict ((''addresses'', PyList (map (\<lambda>ns. PyStr (ipv4_str ns)) dns)) #
        (case search of None \<Rightarrow> [] | Some d \<Rightarrow> [(''search'', PyList [PyStr d])])))])"

definition vlan_entries :: "vlan_child \<Rightarrow> pydict" where
  "vlan_entries vlan =
     [(''id'', PyStr (str_int (vlan_id vlan))),
      (''link'', PyStr (vlan_parent vlan)),
      (''mtu'', PyStr (str_int (vlan_mtu vlan))),
      address_entry (vlan_address vlan)] @
     gateway_entries (vlan_gateway vlan) @ dns_entries (vlan_dns vlan) (vlan_search_domain vlan)"

definition ethernets_of :: "host_intent \<Rightarrow> pydict" where
  "ethernets_of ctx = map (stanza nic_name ethernet_entries) (ns_nics ctx) @ east_west_entries ctx"

definition vlans_of :: "host_intent \<Rightarrow> pydict" where
  "vlans_of ctx = map (stanza vlan_name vlan_entries) (vlans ctx)"

definition netplan_document :: "host_intent \<Rightarrow> pyval" where
  "netplan_document ctx = PyDict [(''network'', PyDict
     [(''version'', PyStr ''2''),
      (''renderer'', PyStr ''networkd''),
      (''ethernets'', PyDict (ethernets_of ctx)),
      (''bonds'', PyDict [stanza bond_name bond_entries (host_bond ctx)]),
      (''vlans'', PyDict (vlans_of ctx))])]"


section \<open>The rendered lines are this document in block style\<close>

lemma block_Dict_append: "block (PyDict (as @ bs)) = block (PyDict as) @ block (PyDict bs)"
  by simp

lemma block_stanza: "block (PyDict [stanza name f x]) = (name x @ '':'') # indented 2 (block (PyDict (f x)))"
  by (simp add: stanza_def)

lemma block_stanzas: "block (PyDict (map (stanza name f) xs)) = concat (map (\<lambda>x. block (PyDict [stanza name f x])) xs)"
  by (simp add: o_def)

lemma block_entry:
  "block (PyDict ((k, PyStr s) # d)) = (k @ '': '' @ s) # block (PyDict d)"
  "block (PyDict ((k, PyList vs) # d)) = (k @ '':'') # indented 2 (block (PyList vs)) @ block (PyDict d)"
  "block (PyDict ((k, PyDict e) # d)) = (k @ '':'') # indented 2 (block (PyDict e)) @ block (PyDict d)"
  "block (PyDict []) = []"
  by simp_all

lemma indented_simps:
  "indented n [] = []" "indented n (as @ bs) = indented n as @ indented n bs"
  "indented n (l # ls) = (replicate n (CHR '' '') @ l) # indented n ls"
  "indented n (map f xs) = map (\<lambda>x. replicate n (CHR '' '') @ f x) xs"
  by (simp_all add: indented_def)

lemma as_item_word: "as_item [s] = [''- '' @ s]"
  by (simp add: as_item_def indented_def)

lemma block_words: "block (PyList (map (\<lambda>x. PyStr (f x)) xs)) = map (\<lambda>x. ''- '' @ f x) xs"
  by (induction xs) (simp_all add: as_item_word)

lemmas block_of_entries =
  ethernet_entries_def address_entry_def roce_entries_def ib_entries_def bond_entries_def
  gateway_entries_def dns_entries_def vlan_entries_def

lemma ethernet_block:
  "indented 4 (block (PyDict [stanza nic_name ethernet_entries nic])) = ethernet_lines nic"
  by (simp add: stanza_def block_of_entries block_entry indented_simps ethernet_lines_def
      numeral_eq_Suc del: block.simps)


lemma block_one_word: "block (PyList [PyStr s]) = [''- '' @ s]"
  by (simp add: as_item_word)

lemma block_route: "block (PyList [PyDict [(''to'', PyStr ''default''), (''via'', PyStr g)]])
    = [''- to: default'', ''  via: '' @ g]"
  by (simp add: as_item_def indented_def numeral_eq_Suc)

lemmas block_stanza_simps = stanza_def block_of_entries block_entry block_one_word block_words
  block_route block_Dict_append indented_simps

lemma roce_block: "indented 4 (block (PyDict [stanza nic_name roce_entries nic])) = roce_lines nic"
  by (simp add: block_stanza_simps roce_lines_def ethernet_lines_def numeral_eq_Suc del: block.simps)

lemma ib_block: "indented 4 (block (PyDict [stanza nic_name ib_entries nic])) = ib_lines nic"
  by (simp add: block_stanza_simps ib_lines_def ethernet_lines_def numeral_eq_Suc del: block.simps)

lemma bond_block: "indented 4 (block (PyDict [stanza bond_name bond_entries b])) = bond_lines b"
  by (simp add: block_stanza_simps bond_lines_def numeral_eq_Suc o_def del: block.simps)

lemma gateway_block: "indented 6 (block (PyDict (gateway_entries g))) = gateway_lines g"
  by (cases g) (simp_all add: block_stanza_simps gateway_lines_def numeral_eq_Suc del: block.simps)

lemma dns_block: "indented 6 (block (PyDict (dns_entries dns search))) = dns_lines dns search"
  by (cases search)
     (simp_all add: block_stanza_simps dns_lines_def numeral_eq_Suc o_def del: block.simps)

lemma vlan_block: "indented 4 (block (PyDict [stanza vlan_name vlan_entries v])) = vlan_lines v"
proof -
  have "indented 4 (indented 2 (block (PyDict (gateway_entries g @ dns_entries dns s))))
      = gateway_lines g @ dns_lines dns s" for g dns s
    using gateway_block dns_block by (simp add: indented_indented block_Dict_append indented_simps del: block.simps)
  then show ?thesis
    by (simp add: block_stanza vlan_entries_def address_entry_def block_entry block_one_word
        indented_simps vlan_lines_def numeral_eq_Suc del: block.simps)
qed

lemma stanzas_block:
  assumes "\<And>x. indented n (block (PyDict [stanza name f x])) = g x"
  shows "indented n (block (PyDict (map (stanza name f) xs))) = concat (map g xs)"
  unfolding block_stanzas indented_concat by (simp only: assms)

lemma ethernets_block: "indented 4 (block (PyDict (ethernets_of ctx)))
    = concat (map ethernet_lines (ns_nics ctx)) @ east_west_lines ctx"
proof -
  have "indented 4 (block (PyDict (east_west_entries ctx))) = east_west_lines ctx"
    by (cases "host_role ctx") (simp_all add: east_west_entries_def east_west_lines_def
        stanzas_block [OF roce_block] stanzas_block [OF ib_block] indented_simps del: block.simps(3),
        simp_all add: indented_simps)
  then show ?thesis
    by (simp add: ethernets_of_def block_Dict_append indented_simps stanzas_block [OF ethernet_block]
        del: block.simps)
qed

lemma nonempty_indented: "0 < n \<Longrightarrow> filter (\<lambda>l. l \<noteq> []) (indented n ls) = indented n ls"
  by (induction ls) (simp_all add: indented_def)

lemma network_config_parts:
  "network_config_lines ctx = [''network:'', ''  version: 2'', ''  renderer: networkd'', '''', ''  ethernets:'']
      @ indented 4 (block (PyDict (ethernets_of ctx))) @ ['''', ''  bonds:'']
      @ indented 4 (block (PyDict [stanza bond_name bond_entries (host_bond ctx)]))
      @ ['''', ''  vlans:''] @ indented 4 (block (PyDict (vlans_of ctx)))"
  unfolding network_config_lines_def vlans_of_def ethernets_block bond_block stanzas_block [OF vlan_block]
  by simp

lemma network_config_block:
  "filter (\<lambda>l. l \<noteq> []) (network_config_lines ctx) = indented 0 (block (netplan_document ctx))"
  unfolding network_config_parts
  by (simp add: nonempty_indented netplan_document_def block_entry indented_simps indented_indented
      del: block.simps) (simp add: indented_def numeral_eq_Suc)

lemma netplan_copy_block: "user_data_netplan_lines ctx = indented 6 (block (netplan_document ctx))"
proof -
  have "embedded ls = indented 6 (filter (\<lambda>l. l \<noteq> []) ls)" for ls
    by (simp add: embedded_def indented_def numeral_eq_Suc)
  then show ?thesis
    by (simp only: embedded_network_config network_config_block indented_indented) simp
qed


section \<open>Every word of it is plain\<close>

lemma plain_scalarI:
  "s \<noteq> [] \<Longrightarrow> is_alnum (hd s) \<Longrightarrow> is_alnum (last s) \<Longrightarrow> list_all is_graph s \<Longrightarrow> plain_scalar s"
  by (auto simp: plain_scalar_def is_alnum_def)

lemma digit_graph: "is_digit c \<Longrightarrow> is_graph c \<and> is_alnum c"
  by (auto simp: is_digit_def is_graph_def is_alnum_def)

lemma str_nat_ends: "is_alnum (hd (str_nat n)) \<and> is_alnum (last (str_nat n)) \<and> list_all is_graph (str_nat n)"
proof -
  have "\<forall>c \<in> set (str_nat n). is_graph c \<and> is_alnum c"
    using str_nat_digits [of n] digit_graph by (simp add: list_all_iff)
  then show ?thesis by (simp add: list_all_iff)
qed

lemma plain_str_nat: "plain_scalar (str_nat n)"
  using str_nat_ends by (intro plain_scalarI) simp_all

lemma plain_str_int: "0 \<le> n \<Longrightarrow> plain_scalar (str_int n)"
  by (simp add: str_int_def plain_str_nat)

lemma ipv4_str_ends: "is_alnum (hd (ipv4_str w)) \<and> is_alnum (last (ipv4_str w)) \<and> list_all is_graph (ipv4_str w)
    \<and> ipv4_str w \<noteq> []"
  using str_nat_ends by (simp add: ipv4_str_def is_graph_def)

lemma plain_ipv4_str: "plain_scalar (ipv4_str w)"
  using ipv4_str_ends by (intro plain_scalarI) simp_all

lemma plain_interface_str: "plain_scalar (interface_str a)"
  using ipv4_str_ends [of "if_ip a"] str_nat_ends [of "if_plen a"]
  by (intro plain_scalarI) (simp_all add: interface_str_def is_graph_def)

lemma mac_char_graph: "mac_char c \<Longrightarrow> is_graph c"
  by (auto simp: mac_char_def is_hex_lower_def is_digit_def is_graph_def)

lemma hex_alnum: "is_hex_lower c \<Longrightarrow> is_alnum c"
  by (auto simp: is_hex_lower_def is_digit_def is_alnum_def)

lemma mac_match_ends: "mac_match n s \<Longrightarrow> length s = 3 * n + 2 \<Longrightarrow> is_alnum (hd s) \<and> is_alnum (last s)"
  by (induction n s rule: mac_match.induct) (auto simp: hex_alnum split: list.splits)

lemma plain_mac: "canonical_mac m \<Longrightarrow> plain_scalar m"
  using mac_match_ends [of 5 m] canonical_mac_chars [of m]
  by (intro plain_scalarI) (auto simp: canonical_mac_def list_all_iff mac_char_graph)


definition good :: "pyval \<Rightarrow> bool" where
  "good v \<longleftrightarrow> writable v \<and> plain_words v"

lemma good_simps:
  "good (PyStr s) \<longleftrightarrow> plain_scalar s"
  "good (PyList vs) \<longleftrightarrow> vs \<noteq> [] \<and> (\<forall>v \<in> set vs. good v)"
  "good (PyDict d) \<longleftrightarrow> d \<noteq> [] \<and> distinct (map fst d) \<and> (\<forall>(k, v) \<in> set d. plain_scalar k \<and> good v)"
  by (auto simp: good_def)

text \<open>The words that come from the inventory and not from a number, an address or an enumeration.\<close>

definition printed_names :: "host_intent \<Rightarrow> string list" where
  "printed_names i = bond_name (host_bond i) # map nic_name (ns_nics i) @ map nic_name (roce_underlays i)
     @ map nic_name (ib_underlays i) @ map vlan_name (vlans i)
     @ concat (map (\<lambda>v. case vlan_search_domain v of None \<Rightarrow> [] | Some d \<Rightarrow> [d]) (vlans i))"

lemma plain_literals:
  "plain_scalar ''match''" "plain_scalar ''macaddress''" "plain_scalar ''set-name''" "plain_scalar ''mtu''"
  "plain_scalar ''addresses''" "plain_scalar ''virtual-function-count''" "plain_scalar ''interfaces''"
  "plain_scalar ''parameters''" "plain_scalar ''mode''" "plain_scalar ''lacp-rate''"
  "plain_scalar ''transmit-hash-policy''" "plain_scalar ''routes''" "plain_scalar ''to''"
  "plain_scalar ''via''" "plain_scalar ''default''" "plain_scalar ''nameservers''" "plain_scalar ''search''"
  "plain_scalar ''id''" "plain_scalar ''link''" "plain_scalar ''network''" "plain_scalar ''version''"
  "plain_scalar ''2''" "plain_scalar ''renderer''" "plain_scalar ''networkd''" "plain_scalar ''ethernets''"
  "plain_scalar ''bonds''" "plain_scalar ''vlans''"
  by (simp_all add: plain_scalar_def is_alnum_def is_graph_def)

lemma plain_enums:
  "plain_scalar (bond_mode_value m)" "plain_scalar (lacp_rate_value r)" "plain_scalar (hash_policy_value p)"
  by (cases m, simp_all add: bond_mode_value_def plain_scalar_def is_alnum_def is_graph_def)
     (cases r, simp_all add: lacp_rate_value_def is_alnum_def is_graph_def,
      cases p, simp_all add: hash_policy_value_def is_alnum_def is_graph_def)

lemmas good_words = good_simps plain_literals plain_enums plain_ipv4_str plain_interface_str

lemma plain_numbers:
  "int_in MIN_MTU MAX_MTU n \<Longrightarrow> plain_scalar (str_int n)"
  "int_in MIN_VLAN_ID MAX_VLAN_ID n \<Longrightarrow> plain_scalar (str_int n)"
  "int_in 0 128 n \<Longrightarrow> plain_scalar (str_int n)"
  by (auto simp: int_in_def MIN_MTU_def MIN_VLAN_ID_def intro!: plain_str_int)

lemma good_ethernet: "wf_phys nic \<Longrightarrow> plain_scalar (nic_name nic) \<Longrightarrow> good (PyDict (ethernet_entries nic))"
  by (simp add: ethernet_entries_def good_words wf_phys_def plain_mac plain_numbers)

lemma good_roce: "wf_sriov nic \<Longrightarrow> plain_scalar (nic_name nic) \<Longrightarrow> good (PyDict (roce_entries nic))"
  by (simp add: roce_entries_def ethernet_entries_def address_entry_def good_words wf_sriov_def wf_phys_def
      plain_mac plain_numbers)

lemma good_ib: "wf_phys nic \<Longrightarrow> plain_scalar (nic_name nic) \<Longrightarrow> good (PyDict (ib_entries nic))"
  by (simp add: ib_entries_def ethernet_entries_def address_entry_def good_words wf_phys_def
      plain_mac plain_numbers)

lemma good_bond:
  "wf_bond b \<Longrightarrow> list_all plain_scalar (bond_members b) \<Longrightarrow> good (PyDict (bond_entries b))"
  by (auto simp: bond_entries_def good_words wf_bond_def plain_numbers len_in_def list_all_iff)

lemma good_vlan:
  "wf_vlan v \<Longrightarrow> plain_scalar (vlan_parent v) \<Longrightarrow> (\<And>d. vlan_search_domain v = Some d \<Longrightarrow> plain_scalar d)
    \<Longrightarrow> good (PyDict (vlan_entries v))"
  by (auto simp: vlan_entries_def address_entry_def gateway_entries_def dns_entries_def good_words wf_vlan_def
      plain_numbers split: option.splits)

lemma good_stanzas:
  assumes "xs \<noteq> []" and "distinct (map name xs)"
    and "\<And>x. x \<in> set xs \<Longrightarrow> plain_scalar (name x) \<and> good (PyDict (f x))"
  shows "good (PyDict (map (stanza name f) xs))"
  using assms by (auto simp: good_simps(3) stanza_def o_def)



section \<open>The document of a well-formed intent\<close>

lemma mset_map_sort: "mset (map f (sort_key k xs)) = mset (map f xs)"
  by simp

lemma distinct_map_sort: "distinct (map f (sort_key k xs) @ ys) \<longleftrightarrow> distinct (map f xs @ ys)"
  by (simp add: distinct_map)

lemma renderable_canonicalize: "renderable (canonicalize i) \<longleftrightarrow> renderable i"
proof -
  have "length (filter P (sort_key k xs)) = length (filter P xs)" for P :: "vlan_child \<Rightarrow> bool" and k :: "vlan_child \<Rightarrow> int" and xs
    by (simp add: filter_sort)
  then show ?thesis
    by (simp add: renderable_unfold all_names_def all_ips_def distinct_map o_def)
qed

lemma wf_canonicalize: "wf_intent i \<Longrightarrow> wf_intent (canonicalize i)"
  by (simp add: wf_intent_def renderable_canonicalize wf_bond_def len_in_def)

lemma stanza_keys: "map fst (map (stanza name f) xs) = map name xs"
  by (simp add: stanza_def o_def)

lemma ethernet_names: "map fst (ethernets_of i) = map nic_name (ns_nics i) @ (case host_role i of
    CPU \<Rightarrow> [] | GPU_B300 \<Rightarrow> map nic_name (roce_underlays i) | GPU_B200 \<Rightarrow> map nic_name (roce_underlays i)
  | GPU_H200 \<Rightarrow> map nic_name (ib_underlays i))"
  by (cases "host_role i") (simp_all add: ethernets_of_def east_west_entries_def stanza_def o_def)

lemma good_ethernets:
  assumes "wf_intent i" and "list_all plain_scalar (printed_names i)"
  shows "good (PyDict (ethernets_of i))"
proof -
  have r: "renderable i" using assms(1) by (simp add: wf_intent_def)
  have names: "distinct (map fst (ethernets_of i))"
  proof -
    have "distinct (all_names (ns_nics i) (roce_underlays i) (vlans i) (ib_underlays i))"
      using r by (simp add: renderable_unfold)
    then show ?thesis unfolding ethernet_names all_names_def by (cases "host_role i") auto
  qed
  have entries: "plain_scalar k \<and> good v" if e: "(k, v) \<in> set (ethernets_of i)" for k v
  proof -
    consider nic where "nic \<in> set (ns_nics i)" "(k, v) = stanza nic_name ethernet_entries nic"
      | nic where "nic \<in> set (roce_underlays i)" "(k, v) = stanza nic_name roce_entries nic"
      | nic where "nic \<in> set (ib_underlays i)" "(k, v) = stanza nic_name ib_entries nic"
      using e by (auto simp: ethernets_of_def east_west_entries_def split: role.splits)
    then show ?thesis
      using assms by cases
        (auto simp: stanza_def wf_intent_def printed_names_def list_all_iff good_ethernet good_roce good_ib)
  qed
  have "ns_nics i \<noteq> []" using r by (auto simp: renderable_unfold)
  then show ?thesis using names entries by (auto simp: good_simps(3) ethernets_of_def)
qed

lemma good_document:
  assumes "wf_intent i" and "list_all plain_scalar (printed_names i)"
  shows "good (netplan_document i)"
proof -
  have r: "renderable i" using assms(1) by (simp add: wf_intent_def)
  have bond: "good (PyDict [stanza bond_name bond_entries (host_bond i)])"
  proof -
    have "list_all plain_scalar (bond_members (host_bond i))"
      using assms r by (auto simp: renderable_unfold printed_names_def list_all_iff)
    then have "good (PyDict (bond_entries (host_bond i)))"
      using assms(1) by (intro good_bond) (simp_all add: wf_intent_def)
    then show ?thesis using assms(2) by (simp add: good_simps(3) stanza_def printed_names_def)
  qed
  have vlans: "good (PyDict (vlans_of i))"
    unfolding vlans_of_def
  proof (rule good_stanzas)
    show "vlans i \<noteq> []" using renderable_three_vlans [OF r] by auto
    show "distinct (map vlan_name (vlans i))" using renderable_names [OF r] by simp
    fix v assume v: "v \<in> set (vlans i)"
    have "good (PyDict (vlan_entries v))"
      using assms v renderable_parent [OF r v]
      by (intro good_vlan) (force simp: wf_intent_def printed_names_def list_all_iff)+
    then show "plain_scalar (vlan_name v) \<and> good (PyDict (vlan_entries v))"
      using assms(2) v by (simp add: printed_names_def list_all_iff)
  qed
  show ?thesis using bond vlans good_ethernets [OF assms] by (simp add: netplan_document_def good_words)
qed


lemma printed_names_canonicalize:
  "list_all plain_scalar (printed_names (canonicalize i)) \<longleftrightarrow> list_all plain_scalar (printed_names i)"
  by (simp add: printed_names_def list_all_iff)

lemma read_document:
  assumes "wf_intent i" and "list_all plain_scalar (printed_names i)"
  shows "read_yaml (network_config_lines i) = Some (netplan_document i)"
    and "read_yaml (user_data_netplan_lines i) = Some (netplan_document i)"
proof -
  have good: "writable (netplan_document i)" "plain_words (netplan_document i)"
    using good_document [OF assms] by (simp_all add: good_def)
  show "read_yaml (network_config_lines i) = Some (netplan_document i)"
    by (rule read_block [OF good network_config_block])
  have "filter (\<lambda>l. l \<noteq> []) (user_data_netplan_lines i) = indented 6 (block (netplan_document i))"
    by (simp only: netplan_copy_block nonempty_indented [of 6] zero_less_numeral)
  then show "read_yaml (user_data_netplan_lines i) = Some (netplan_document i)"
    by (rule read_block [OF good])
qed


section \<open>The document determines the interfaces\<close>

lemma str_int_inj: "str_int m = str_int n \<longleftrightarrow> m = n"
proof -
  have "CHR ''-'' \<notin> set (str_nat k)" for k by (rule str_nat_no_char) (simp add: is_digit_def)
  then have "CHR ''-'' # s \<noteq> str_nat k" "str_nat k \<noteq> CHR ''-'' # s" for s k by (metis list.set_intros(1))+
  then show ?thesis by (auto simp: str_int_def)
qed

lemma interface_str_inj: "interface_str a = interface_str b \<longleftrightarrow> a = b"
proof
  assume "interface_str a = interface_str b"
  then have "split_char CHR ''/'' (interface_str a) = split_char CHR ''/'' (interface_str b)" by simp
  then show "a = b"
    by (simp add: interface_str_def split_char_append split_char_no_sep ipv4_str_no_slash str_nat_no_char)
qed simp

lemma ethernet_entries_inj:
  "ethernet_entries p = ethernet_entries q \<longleftrightarrow> nic_mac p = nic_mac q \<and> nic_name p = nic_name q \<and> nic_mtu p = nic_mtu q"
  by (auto simp: ethernet_entries_def str_int_inj)

lemma inj_stanzas:
  "inj (stanza nic_name (ethernet_entries :: bond_member \<Rightarrow> pydict))"
  "inj (stanza nic_name roce_entries)" "inj (stanza nic_name ib_entries)"
  by (auto simp: inj_def stanza_def roce_entries_def ib_entries_def ethernet_entries_inj address_entry_def
      str_int_inj interface_str_inj intro!: phys_iface.equality roce_underlay.equality infiniband_underlay.equality)

lemma roce_not_ib: "stanza nic_name roce_entries p \<noteq> stanza nic_name ib_entries q"
  by (simp add: stanza_def roce_entries_def ib_entries_def ethernet_entries_def address_entry_def)

lemma append_maps_eq:
  assumes "inj f" "inj g" "\<And>x y. f x \<noteq> g y"
  shows "map f as @ map g bs = map f cs @ map g ds \<longleftrightarrow> as = cs \<and> bs = ds"
proof (induction as arbitrary: cs)
  case Nil
  show ?case using assms(3) [THEN not_sym]
    by (cases cs; cases bs) (auto simp: inj_map_eq_map [OF assms(2)] inj_eq [OF assms(2)])
next
  case (Cons a as)
  show ?case using Cons.IH assms(3) assms(3) [THEN not_sym]
    by (cases cs; cases ds) (simp_all add: inj_eq [OF assms(1)])
qed

lemma east_west_both:
  assumes "renderable i"
  shows "east_west_entries i = map (stanza nic_name roce_entries) (roce_underlays i)
    @ map (stanza nic_name ib_entries) (ib_underlays i)"
  using renderable_backend [OF assms] by (cases "host_role i") (simp_all add: east_west_entries_def)

text \<open>All of a VLAN but its role, and the search domain only where there are name servers.\<close>

definition printed_vlan :: "vlan_child \<Rightarrow> vlan_child" where
  "printed_vlan v = v\<lparr>vlan_role := MGMT,
     vlan_search_domain := (if vlan_dns v = [] then None else vlan_search_domain v)\<rparr>"

lemma gateway_dns_inj:
  assumes "gateway_entries g @ dns_entries dns s = gateway_entries h @ dns_entries ens t"
  shows "g = h \<and> dns = ens \<and> (dns = [] \<or> s = t)"
proof -
  have words: "map (\<lambda>ns. PyStr (ipv4_str ns)) xs = map (\<lambda>ns. PyStr (ipv4_str ns)) ys \<longleftrightarrow> xs = ys" for xs ys
    by (rule inj_map_eq_map) (simp add: inj_def)
  have routes: "g = h \<and> dns_entries dns s = dns_entries ens t"
    using assms by (cases g; cases h) (auto simp: gateway_entries_def dns_entries_def split: if_splits)
  then show ?thesis
    by (cases s; cases t) (auto simp: dns_entries_def words split: if_splits)
qed

lemma vlan_stanza_inj:
  assumes "stanza vlan_name vlan_entries v = stanza vlan_name vlan_entries w"
  shows "printed_vlan v = printed_vlan w"
proof -
  have tail: "gateway_entries (vlan_gateway v) @ dns_entries (vlan_dns v) (vlan_search_domain v)
      = gateway_entries (vlan_gateway w) @ dns_entries (vlan_dns w) (vlan_search_domain w)"
    and parts: "vlan_name v = vlan_name w" "vlan_id v = vlan_id w" "vlan_parent v = vlan_parent w"
      "vlan_mtu v = vlan_mtu w" "vlan_address v = vlan_address w"
    using assms by (simp_all add: stanza_def vlan_entries_def address_entry_def str_int_inj interface_str_inj)
  show ?thesis using gateway_dns_inj [OF tail] parts
    by (intro vlan_child.equality) (auto simp: printed_vlan_def)
qed

lemma vlans_inj:
  "map (stanza vlan_name vlan_entries) vs = map (stanza vlan_name vlan_entries) ws
    \<Longrightarrow> map printed_vlan vs = map printed_vlan ws"
proof (induction vs arbitrary: ws)
  case (Cons v vs)
  then obtain w us where "ws = w # us" "stanza vlan_name vlan_entries v = stanza vlan_name vlan_entries w"
    "map (stanza vlan_name vlan_entries) vs = map (stanza vlan_name vlan_entries) us" by (cases ws) simp_all
  then show ?case using Cons.IH [of us] vlan_stanza_inj [of v w] by simp
qed simp

lemma bond_stanza_inj:
  "stanza bond_name bond_entries b = stanza bond_name bond_entries c \<Longrightarrow> b = c"
proof -
  assume eq: "stanza bond_name bond_entries b = stanza bond_name bond_entries c"
  have "map PyStr xs = map PyStr ys \<longleftrightarrow> xs = ys" for xs ys
    by (rule inj_map_eq_map) (simp add: inj_def)
  then have "bond_name b = bond_name c" "bond_members b = bond_members c" "bond_mtu b = bond_mtu c"
    and enums: "lacp_rate_value (bond_lacp_rate b) = lacp_rate_value (bond_lacp_rate c)"
      "hash_policy_value (bond_hash_policy b) = hash_policy_value (bond_hash_policy c)"
    using eq by (simp_all add: stanza_def bond_entries_def str_int_inj)
  moreover have "bond_mode b = bond_mode c" by (cases "bond_mode b"; cases "bond_mode c") simp
  moreover have "bond_lacp_rate b = bond_lacp_rate c"
    using enums(1) by (cases "bond_lacp_rate b"; cases "bond_lacp_rate c") (simp_all add: lacp_rate_value_def)
  moreover have "bond_hash_policy b = bond_hash_policy c"
    using enums(2) by (cases "bond_hash_policy b"; cases "bond_hash_policy c") (simp_all add: hash_policy_value_def)
  ultimately show "b = c" by (intro bond.equality) simp_all
qed

lemma document_determines:
  assumes "wf_intent i" and "wf_intent j" and "netplan_document i = netplan_document j"
  shows "ns_nics i = ns_nics j \<and> roce_underlays i = roce_underlays j \<and> ib_underlays i = ib_underlays j
    \<and> host_bond i = host_bond j \<and> map printed_vlan (vlans i) = map printed_vlan (vlans j)"
proof -
  have r: "renderable i" "renderable j" using assms(1,2) by (simp_all add: wf_intent_def)
  have parts: "ethernets_of i = ethernets_of j" "vlans_of i = vlans_of j"
    "stanza bond_name bond_entries (host_bond i) = stanza bond_name bond_entries (host_bond j)"
    using assms(3) by (simp_all add: netplan_document_def)
  have "length (ns_nics i) = length (ns_nics j)" using r by (simp add: renderable_unfold)
  then have ns: "map (stanza nic_name ethernet_entries) (ns_nics i) = map (stanza nic_name ethernet_entries) (ns_nics j)"
    and ew: "east_west_entries i = east_west_entries j"
    using parts(1) by (simp_all add: ethernets_of_def)
  have "ns_nics i = ns_nics j" using ns unfolding inj_map_eq_map [OF inj_stanzas(1)] .
  moreover have "roce_underlays i = roce_underlays j \<and> ib_underlays i = ib_underlays j"
    using ew unfolding east_west_both [OF r(1)] east_west_both [OF r(2)]
      append_maps_eq [OF inj_stanzas(2,3) roce_not_ib] .
  moreover have "map printed_vlan (vlans i) = map printed_vlan (vlans j)"
    using parts(2) unfolding vlans_of_def by (rule vlans_inj)
  ultimately show ?thesis using bond_stanza_inj [OF parts(3)] by blast
qed



section \<open>From the rendered bytes\<close>

text \<open>The lines of an ASCII file that ends with a newline.\<close>

definition ascii_lines :: "8 word list \<Rightarrow> string list" where
  "ascii_lines b = butlast (split_char CHR 0x0A (map (\<lambda>w. char_of (unat w)) b))"

definition ascii_line :: "string \<Rightarrow> bool" where
  "ascii_line l \<longleftrightarrow> list_all (\<lambda>c. is_graph c \<or> c = CHR '' '') l"

lemma text_lines_plain: "text_lines (plain ls) = utext_of (concat (map (\<lambda>l. l @ [CHR 0x0A]) ls))"
  by (induction ls) (simp_all add: text_lines_def plain_def utext_of_def)

lemma split_lines: "list_all ascii_line ls \<Longrightarrow>
    split_char CHR 0x0A (concat (map (\<lambda>l. l @ [CHR 0x0A]) ls)) = ls @ [[]]"
proof (induction ls)
  case (Cons l ls)
  have "CHR 0x0A \<notin> set l" using Cons.prems by (auto simp: ascii_line_def list_all_iff is_graph_def)
  then show ?case using Cons by (simp add: split_char_append)
qed simp

lemma ascii_lines_read:
  assumes "list_all ascii_line ls"
  shows "ascii_lines (utf8_bytes (text_lines (plain ls))) = ls"
proof -
  let ?t = "concat (map (\<lambda>l. l @ [CHR 0x0A]) ls)"
  have ascii: "list_all (\<lambda>c. (of_char c :: nat) < 128) ?t"
    using assms by (force simp: list_all_iff ascii_line_def is_graph_def Let_def)
  then have "map (\<lambda>w. char_of (unat w)) (utf8_bytes (utext_of ?t)) = ?t"
    unfolding utf8_ascii [OF ascii] map_map
    by (intro map_idI) (auto simp: list_all_iff unsigned_of_nat take_bit_nat_eq_self)
  then show ?thesis using split_lines [OF assms] by (simp add: ascii_lines_def text_lines_plain)
qed

lemma ascii_line_simps:
  "ascii_line []" "ascii_line (c # l) \<longleftrightarrow> (is_graph c \<or> c = CHR '' '') \<and> ascii_line l"
  "ascii_line (a @ b) \<longleftrightarrow> ascii_line a \<and> ascii_line b"
  "ascii_line (replicate n (CHR '' ''))"
  by (auto simp: ascii_line_def list_all_iff)

lemma ascii_indented: "list_all ascii_line ls \<Longrightarrow> list_all ascii_line (indented n ls)"
  by (auto simp: indented_def list_all_iff ascii_line_simps)

lemma ascii_item: "list_all ascii_line ls \<Longrightarrow> list_all ascii_line (as_item ls)"
  using ascii_indented [of "tl ls"] by (cases ls) (simp_all add: as_item_def ascii_line_simps is_graph_def)

lemma ascii_scalar: "plain_scalar s \<Longrightarrow> ascii_line s"
  by (simp add: ascii_line_def plain_scalar_def list_all_iff)

lemma ascii_block: "plain_words v \<Longrightarrow> list_all ascii_line (block v)"
proof (induction v rule: plain_words.induct)
  case (1 s)
  then show ?case by (simp add: ascii_scalar)
next
  case (2 vs)
  then have "list_all ascii_line (as_item (block v))" if "v \<in> set vs" for v
    using that by (intro ascii_item) simp
  then show ?case by (auto simp: list_all_iff)
next
  case (3 d)
  have "list_all ascii_line (case v of PyStr s \<Rightarrow> [k @ '': '' @ s] | _ \<Rightarrow> (k @ '':'') # indented 2 (block v))"
    if "(k, v) \<in> set d" for k v
  proof -
    have kv: "plain_scalar k" "plain_words v" using 3(2) that by auto
    then have k: "ascii_line (k @ '':'')" by (simp add: ascii_scalar ascii_line_simps is_graph_def)
    show ?thesis
    proof (cases "\<exists>s. v = PyStr s")
      case True
      then show ?thesis using kv by (auto simp: ascii_scalar ascii_line_simps is_graph_def)
    next
      case False
      then have "list_all ascii_line (indented 2 (block v))"
        using 3(1) [of "(k, v)" k v] that kv(2) by (auto intro: ascii_indented)
      then show ?thesis using False k by (cases v) simp_all
    qed
  qed
  then show ?case by (auto simp: list_all_iff)
qed simp_all

lemma ascii_network_config:
  assumes "plain_words (netplan_document ctx)"
  shows "list_all ascii_line (network_config_lines ctx)"
proof -
  have "ascii_line l" if "l \<in> set (network_config_lines ctx)" for l
  proof (cases "l = []")
    case False
    then have "l \<in> set (indented 0 (block (netplan_document ctx)))"
      using that by (simp add: network_config_block [symmetric])
    then show ?thesis using ascii_block [OF assms] by (simp add: indented_def list_all_iff)
  qed (simp add: ascii_line_def)
  then show ?thesis by (simp add: list_all_iff)
qed

lemma read_rendered:
  assumes "wf_intent i" and "list_all plain_scalar (printed_names i)"
  shows "read_yaml (ascii_lines (rendered NETWORK_CONFIG i)) = Some (netplan_document (canonicalize i))"
    and "read_yaml (user_data_netplan_lines (canonicalize i)) = Some (netplan_document (canonicalize i))"
proof -
  let ?c = "canonicalize i"
  have wf: "wf_intent ?c" "list_all plain_scalar (printed_names ?c)"
    using wf_canonicalize [OF assms(1)] assms(2) by (simp_all only: printed_names_canonicalize)
  then have "plain_words (netplan_document ?c)" using good_document by (simp add: good_def)
  then have "ascii_lines (rendered NETWORK_CONFIG i) = network_config_lines ?c"
    unfolding rendered_def template_lines_def file_kind.case by (intro ascii_lines_read ascii_network_config)
  then show "read_yaml (ascii_lines (rendered NETWORK_CONFIG i)) = Some (netplan_document ?c)"
    using read_document(1) [OF wf] by simp
  show "read_yaml (user_data_netplan_lines ?c) = Some (netplan_document ?c)"
    by (rule read_document(2) [OF wf])
qed

text \<open>C17: a YAML reader recovers the Netplan document from what is rendered, for every well-formed
  host whose names are plain words: from the bytes of \<open>network-config\<close> as from the copy inside
  user-data it reads the same mapping, which has every NIC, the bond and every VLAN under its
  name with its addresses, routes and name servers.\<close>

theorem network_config_reads_back:
  assumes "wf_intent i" and "list_all plain_scalar (printed_names i)"
  shows "\<exists>b. render_for template_tree clock i (Kind NETWORK_CONFIG) now = Inr b
    \<and> read_yaml (ascii_lines b) = Some (netplan_document (canonicalize i))
    \<and> read_yaml (user_data_netplan_lines (canonicalize i)) = Some (netplan_document (canonicalize i))"
  using read_rendered [OF assms] by (simp add: render_for_tree)


lemma cpu_names: "list_all plain_scalar (printed_names cpu_intent)"
  by (simp add: printed_names_def cpu_intent_def cpu_members_def cpu_bond_def cpu_vlans_def
      plain_scalar_def is_alnum_def is_graph_def)

theorem network_config_reads_back_witness:
  "\<exists>b. render_for template_tree (0::nat) cpu_intent (Kind NETWORK_CONFIG) None = Inr b
    \<and> read_yaml (ascii_lines b) = Some (netplan_document (canonicalize cpu_intent))"
  using network_config_reads_back [OF cpu_wf, OF cpu_names, of 0 None] by blast

text \<open>Conversely, only what the document shows decides the bytes.\<close>

lemma vlan_stanza_printed: "stanza vlan_name vlan_entries (printed_vlan v) = stanza vlan_name vlan_entries v"
  by (simp add: stanza_def printed_vlan_def vlan_entries_def dns_entries_def)

lemma vlans_of_printed: "vlans_of ctx = map (stanza vlan_name vlan_entries) (map printed_vlan (vlans ctx))"
  by (simp add: vlans_of_def vlan_stanza_printed)

lemma printed_sorted:
  assumes "mset (map printed_vlan vs) = mset (map printed_vlan ws)" and "inj_on vlan_id (set vs)"
  shows "map printed_vlan (sort_key vlan_id vs) = map printed_vlan (sort_key vlan_id ws)"
proof -
  have insort: "map printed_vlan (insort_key vlan_id x xs) = insort_key vlan_id (printed_vlan x) (map printed_vlan xs)" for x xs
    by (induction xs) (simp_all add: printed_vlan_def)
  have sort: "map printed_vlan (sort_key vlan_id xs) = sort_key vlan_id (map printed_vlan xs)" for xs
    by (induction xs) (simp_all add: insort)
  have "inj_on vlan_id (set (map printed_vlan vs))"
    using assms(2) by (auto simp: inj_on_def printed_vlan_def)
  then show ?thesis unfolding sort by (rule sort_key_mset_cong [OF assms(1)])
qed

lemma same_parts_same_lines:
  assumes ren: "renderable i" "renderable j"
    and nics: "mset (ns_nics i) = mset (ns_nics j)" "mset (roce_underlays i) = mset (roce_underlays j)"
      "mset (ib_underlays i) = mset (ib_underlays j)"
    and bond: "mset (bond_members (host_bond i)) = mset (bond_members (host_bond j))"
      "(host_bond i)\<lparr>bond_members := []\<rparr> = (host_bond j)\<lparr>bond_members := []\<rparr>"
    and vs: "mset (map printed_vlan (vlans i)) = mset (map printed_vlan (vlans j))" "inj_on vlan_id (set (vlans i))"
  shows "network_config_lines (canonicalize i) = network_config_lines (canonicalize j)"
proof -
  let ?i = "canonicalize i" and ?j = "canonicalize j"
  have "ns_nics ?i = ns_nics ?j" "roce_underlays ?i = roce_underlays ?j" "ib_underlays ?i = ib_underlays ?j"
    using nics_order.order_free [OF nics(1) renderable_inj_names(1) [OF ren(1)]]
      nics_order.order_free [OF nics(2) renderable_inj_names(2) [OF ren(1)]]
      nics_order.order_free [OF nics(3) renderable_inj_names(3) [OF ren(1)]] by (simp_all add: canonicalize_def)
  then have "ethernets_of ?i = ethernets_of ?j"
    using ren by (simp add: ethernets_of_def east_west_both renderable_canonicalize)
  moreover have "sort (bond_members (host_bond i)) = sort (bond_members (host_bond j))"
    using bond(1) by (metis sorted_list_of_multiset_mset)
  then have "host_bond ?i = host_bond ?j"
    using bond(2) by (cases "host_bond i"; cases "host_bond j") (simp add: canonicalize_def)
  moreover have "vlans_of ?i = vlans_of ?j"
    unfolding vlans_of_printed using printed_sorted [OF vs] by (simp add: canonicalize_def)
  ultimately show ?thesis unfolding network_config_parts by simp
qed

definition same_document :: "host_intent \<Rightarrow> host_intent \<Rightarrow> bool" where
  "same_document i j \<longleftrightarrow> mset (ns_nics i) = mset (ns_nics j) \<and> mset (roce_underlays i) = mset (roce_underlays j)
     \<and> mset (ib_underlays i) = mset (ib_underlays j)
     \<and> mset (bond_members (host_bond i)) = mset (bond_members (host_bond j))
     \<and> (host_bond i)\<lparr>bond_members := []\<rparr> = (host_bond j)\<lparr>bond_members := []\<rparr>
     \<and> mset (map printed_vlan (vlans i)) = mset (map printed_vlan (vlans j))"

text \<open>C12: what of a host its network configuration keeps. Two well-formed hosts with plain names render
  to the same bytes only if they have the same NICs, underlays and bond, in whatever order, and
  the same VLANs but for two things: the roles the VLANs have in the cluster, and the search
  domain of a VLAN without name servers, which the templates do not print. If these are the only
  differences, and VLAN ids differ within a host, the bytes are the same.\<close>

theorem network_config_lossless:
  assumes "wf_intent i" and "list_all plain_scalar (printed_names i)"
    and "wf_intent j" and "list_all plain_scalar (printed_names j)"
  shows "(render_for template_tree clock i (Kind NETWORK_CONFIG) now
        = render_for template_tree clock j (Kind NETWORK_CONFIG) now \<longrightarrow> same_document i j)
    \<and> (same_document i j \<and> inj_on vlan_id (set (vlans i)) \<longrightarrow>
        render_for template_tree clock i (Kind NETWORK_CONFIG) now
          = render_for template_tree clock j (Kind NETWORK_CONFIG) now)"
proof (intro conjI impI)
  assume same: "render_for template_tree clock i (Kind NETWORK_CONFIG) now
      = render_for template_tree clock j (Kind NETWORK_CONFIG) now"
  let ?i = "canonicalize i" and ?j = "canonicalize j"
  have "Some (netplan_document ?i) = Some (netplan_document ?j)"
    using read_rendered [OF assms(1,2)] read_rendered [OF assms(3,4)] same by (simp add: render_for_tree)
  then have doc: "netplan_document ?i = netplan_document ?j" by simp
  note same = document_determines [OF wf_canonicalize [OF assms(1)] wf_canonicalize [OF assms(3)] doc]
  from same have lists: "sort_key nic_name (ns_nics i) = sort_key nic_name (ns_nics j)"
    "sort_key nic_name (roce_underlays i) = sort_key nic_name (roce_underlays j)"
    "sort_key nic_name (ib_underlays i) = sort_key nic_name (ib_underlays j)"
    "map printed_vlan (sort_key vlan_id (vlans i)) = map printed_vlan (sort_key vlan_id (vlans j))"
    and bond: "host_bond ?i = host_bond ?j" by simp_all
  have b: "(host_bond k)\<lparr>bond_members := []\<rparr> = (host_bond (canonicalize k))\<lparr>bond_members := []\<rparr>"
    "mset (bond_members (host_bond k)) = mset (bond_members (host_bond (canonicalize k)))" for k
    by (simp_all add: canonicalize_def)
  have "mset (ns_nics i) = mset (ns_nics j)" using arg_cong [OF lists(1), of mset] by simp
  moreover have "mset (roce_underlays i) = mset (roce_underlays j)" using arg_cong [OF lists(2), of mset] by simp
  moreover have "mset (ib_underlays i) = mset (ib_underlays j)" using arg_cong [OF lists(3), of mset] by simp
  moreover have "mset (map printed_vlan (vlans i)) = mset (map printed_vlan (vlans j))"
    using arg_cong [OF lists(4), of mset] by simp
  ultimately show "same_document i j" unfolding same_document_def b [of i] b [of j] bond by blast
next
  assume "same_document i j \<and> inj_on vlan_id (set (vlans i))"
  then have "network_config_lines (canonicalize i) = network_config_lines (canonicalize j)"
    unfolding same_document_def using assms(1,3) by (intro same_parts_same_lines) (simp_all add: wf_intent_def)
  then show "render_for template_tree clock i (Kind NETWORK_CONFIG) now
      = render_for template_tree clock j (Kind NETWORK_CONFIG) now"
    by (simp add: render_for_tree rendered_def template_lines_def)
qed

text \<open>So a search domain is lost where there is no name server.\<close>

theorem search_domain_dropped:
  assumes "wf_intent i" and "inj_on vlan_id (set (vlans i))" and "\<forall>v \<in> set (vlans i). vlan_dns v = []"
  shows "network_config_lines (canonicalize (i\<lparr>vlans := map (vlan_search_domain_update (\<lambda>_. Some d)) (vlans i)\<rparr>))
    = network_config_lines (canonicalize i)"
proof -
  let ?j = "i\<lparr>vlans := map (vlan_search_domain_update (\<lambda>_. Some d)) (vlans i)\<rparr>"
  have ren: "renderable i" using assms(1) by (simp add: wf_intent_def)
  then have ren': "renderable ?j" by (simp add: renderable_unfold all_names_def all_ips_def o_def filter_map)
  have "map printed_vlan (vlans i) = map printed_vlan (vlans ?j)"
    using assms(3) by (simp add: printed_vlan_def)
  then have "mset (map printed_vlan (vlans i)) = mset (map printed_vlan (vlans ?j))" by (rule arg_cong)
  from same_parts_same_lines [OF ren ren' _ _ _ _ _ this assms(2)] show ?thesis by simp
qed

theorem search_domain_dropped_witness:
  "network_config_lines (canonicalize (cpu_intent\<lparr>vlans := map (vlan_search_domain_update (\<lambda>_. Some ''lab'')) (vlans cpu_intent)\<rparr>))
    = network_config_lines (canonicalize cpu_intent)"
proof (rule search_domain_dropped [OF cpu_wf])
  show "inj_on vlan_id (set (vlans cpu_intent))" "\<forall>v \<in> set (vlans cpu_intent). vlan_dns v = []"
    by (simp_all add: cpu_intent_def cpu_vlans_def)
qed

lemma cpu_nics_reversed:
  assumes "j = cpu_intent\<lparr>ns_nics := rev cpu_members\<rparr>"
  shows "wf_intent j" and "list_all plain_scalar (printed_names j)" and "canonicalize j = canonicalize cpu_intent"
proof -
  show same: "canonicalize j = canonicalize cpu_intent"
    by (simp add: assms cpu_intent_def canonicalize_def cpu_members_def)
  have "renderable j"
    using cpu_wf renderable_canonicalize [of j] renderable_canonicalize [of cpu_intent] same
    by (simp add: wf_intent_def)
  then show "wf_intent j" using cpu_wf by (auto simp: wf_intent_def assms cpu_intent_def cpu_members_def)
  show "list_all plain_scalar (printed_names j)"
    using cpu_names printed_names_canonicalize [of j] printed_names_canonicalize [of cpu_intent] same by simp
qed

theorem network_config_lossless_witness:
  "mset (ns_nics (cpu_intent\<lparr>ns_nics := rev cpu_members\<rparr>)) = mset (ns_nics cpu_intent)"
proof -
  note other = cpu_nics_reversed [OF refl]
  have "render_for template_tree (0::nat) (cpu_intent\<lparr>ns_nics := rev cpu_members\<rparr>) (Kind NETWORK_CONFIG) None
      = render_for template_tree 0 cpu_intent (Kind NETWORK_CONFIG) None"
    by (simp only: render_for_tree rendered_def other(3))
  with network_config_lossless [OF other(1), OF other(2), OF cpu_wf, OF cpu_names, of 0 None] have "same_document (cpu_intent\<lparr>ns_nics := rev cpu_members\<rparr>) cpu_intent" by blast
  then show ?thesis unfolding same_document_def by (rule conjunct1)
qed



section \<open>MAC addresses without a letter\<close>

text \<open>
  The words are read here as text. A YAML 1.1 reader goes on to resolve them, and its integers
  include base-60 numerals, \<open>[1-9][0-9_]*(:[0-5]?[0-9])+\<close>. The templates print a MAC address without
  quotes, so one that has no letter can be such a number.
\<close>

definition base60_digits :: "string \<Rightarrow> bool" where
  "base60_digits p \<longleftrightarrow> (case p of
      [c] \<Rightarrow> is_digit c
    | [c, d] \<Rightarrow> is_digit c \<and> is_digit d \<and> digit_val c \<le> 5
    | _ \<Rightarrow> False)"

definition base60 :: "string \<Rightarrow> bool" where
  "base60 s \<longleftrightarrow> (case split_char CHR '':'' s of
      [] \<Rightarrow> False
    | first # rest \<Rightarrow> first \<noteq> [] \<and> is_digit (hd first) \<and> hd first \<noteq> CHR ''0''
        \<and> list_all (\<lambda>c. is_digit c \<or> c = CHR ''_'') first \<and> rest \<noteq> [] \<and> list_all base60_digits rest)"

theorem numeric_mac_unquoted:
  assumes "nic_mac nic = ''11:22:33:44:55:06''"
  shows "validate_mac (PyStr (nic_mac nic)) = Inr (nic_mac nic) \<and> base60 (nic_mac nic)
    \<and> ''        macaddress: '' @ nic_mac nic \<in> set (ethernet_lines nic)"
proof -
  have "validate_mac (PyStr ''11:22:33:44:55:06'') = Inr ''11:22:33:44:55:06''"
    "base60 ''11:22:33:44:55:06''" by code_simp+
  then show ?thesis using assms by (simp add: ethernet_lines_def)
qed

end
