(* ===== verification/Deployment.thy ===== *)
theory Deployment
  imports Pipeline Netplan_Document Validate_Props
begin

text \<open>
  The renderer and the post-provision validator meet on the host: the validator's expected
  file paths, names and counts against what the rendered user-data of an H200 host puts
  there. \<open>carries_out\<close> relates a probe of the machine to the lines of a user-data file, whatever
  host they were made for: the files cloud-init writes, the modules they list, and the links,
  routes and bonds of the Netplan document that is read back from the file.
\<close>

section \<open>What a machine does with user-data\<close>

text \<open>
  cloud-init writes the block literal under each \<open>path\<close> of \<open>write_files\<close>. A literal is taken up to
  the first line that is not indented as its first.
\<close>

definition path_of :: "utext \<Rightarrow> string option" where
  "path_of l = (if take 10 l = utext_of ''  - path: '' then Some (map char_of (drop 10 l)) else None)"

definition block_literal :: "utext list \<Rightarrow> string list" where
  "block_literal ls =
     map (\<lambda>l. map char_of (drop 6 l)) (takeWhile (\<lambda>l. take 6 l = utext_of ''      '') ls)"

definition after :: "'a \<Rightarrow> 'a list \<Rightarrow> 'a list" where
  "after x ls = drop 1 (dropWhile (\<lambda>l. l \<noteq> x) ls)"

fun written_files :: "utext list \<Rightarrow> (string \<times> string list) list" where
  "written_files [] = []"
| "written_files (l # ls) = (case path_of l of
      None \<Rightarrow> written_files ls
    | Some path \<Rightarrow> (path, block_literal (after (utext_of ''    content: |'') ls)) # written_files ls)"

definition unlines :: "string list \<Rightarrow> string" where
  "unlines ls = concat (map (\<lambda>l. l @ [CHR 0x0A]) ls)"

text \<open>The modules a file under \<open>/etc/modules-load.d\<close> lists are loaded: \<open>lsmod\<close> has a line for each.\<close>

definition module_named :: "string \<Rightarrow> bool" where
  "module_named l \<longleftrightarrow> l \<noteq> [] \<and> hd l \<noteq> CHR ''#'' \<and> hd l \<noteq> CHR '';''"

definition modules_loaded :: "probe \<Rightarrow> string list \<Rightarrow> bool" where
  "modules_loaded probe ls \<longleftrightarrow>
     (let p = probe_run probe [''lsmod''] in
      proc_rc p = 0
      \<and> (\<forall>m \<in> set (filter module_named ls). \<exists>l \<in> set (drop 1 (splitlines (proc_out p))). starts_with (m @ '' '') l))"

text \<open>Parts of a Netplan document, as it was read from a file.\<close>

definition dict_at :: "pyval \<Rightarrow> string \<Rightarrow> pydict" where
  "dict_at v k = (case v of
      PyDict d \<Rightarrow> (case map_of d k of Some (PyDict e) \<Rightarrow> e | _ \<Rightarrow> [])
    | _ \<Rightarrow> [])"

definition items_at :: "pyval \<Rightarrow> string \<Rightarrow> pyval list" where
  "items_at v k = (case v of
      PyDict d \<Rightarrow> (case map_of d k of Some (PyList vs) \<Rightarrow> vs | _ \<Rightarrow> [])
    | _ \<Rightarrow> [])"

definition word_at :: "pyval \<Rightarrow> string \<Rightarrow> string option" where
  "word_at v k = (case v of
      PyDict d \<Rightarrow> (case map_of d k of Some (PyStr s) \<Rightarrow> Some s | _ \<Rightarrow> None)
    | _ \<Rightarrow> None)"

definition words_at :: "pyval \<Rightarrow> string \<Rightarrow> string list" where
  "words_at v k = concat (map (\<lambda>x. case x of PyStr s \<Rightarrow> [s] | _ \<Rightarrow> []) (items_at v k))"

definition section_of :: "pyval \<Rightarrow> string \<Rightarrow> pydict" where
  "section_of doc k = dict_at (PyDict (dict_at doc ''network'')) k"

definition link_entries :: "pyval \<Rightarrow> pydict" where
  "link_entries doc = section_of doc ''ethernets'' @ section_of doc ''bonds'' @ section_of doc ''vlans''"

text \<open>
  A device is known by its \<open>set-name\<close>, or else by its key in the document. Once the configuration
  is applied and the cables are in, it is up, has the MTU it is given (numbers are read as the
  digits they are) and the IPv4 addresses listed for it, perhaps among others.
\<close>

definition link_name :: "string \<times> pyval \<Rightarrow> string" where
  "link_name e = (case word_at (snd e) ''set-name'' of Some n \<Rightarrow> n | None \<Rightarrow> fst e)"

definition entry_mtu :: "string \<times> pyval \<Rightarrow> int option" where
  "entry_mtu e = (case word_at (snd e) ''mtu'' of None \<Rightarrow> None | Some t \<Rightarrow> int_of_str t)"

definition host_part :: "string \<Rightarrow> string" where
  "host_part a = takeWhile (\<lambda>c. c \<noteq> CHR ''/'') a"

definition link_as_told :: "pydict list \<Rightarrow> string \<times> pyval \<Rightarrow> bool" where
  "link_as_told records e \<longleftrightarrow>
     (\<exists>r ips. iface_record records (link_name e) = Some r \<and> is_up r = Inr True
        \<and> (case entry_mtu e of None \<Rightarrow> True | Some n \<Rightarrow> map_of r ''mtu'' = Some (PyInt n))
        \<and> ipv4s r = Inr ips
        \<and> (\<forall>a \<in> set (words_at (snd e) ''addresses''). PyStr (host_part a) \<in> set ips))"

text \<open>\<open>ip -j addr\<close> lists links by name, no name twice; only the document put VLANs on its bonds.\<close>

definition link_names :: "pydict list \<Rightarrow> string list \<Rightarrow> bool" where
  "link_names records names \<longleftrightarrow>
     distinct names \<and> list_all2 (\<lambda>r n. map_of r ''ifname'' = Some (PyStr n)) records names"

definition links_listed :: "pydict list \<Rightarrow> pyval \<Rightarrow> bool" where
  "links_listed records doc \<longleftrightarrow>
     (\<exists>names. link_names records names
        \<and> (\<forall>b \<in> set (map fst (section_of doc ''bonds'')). \<forall>n \<in> set names.
             starts_with (b @ ''.'') n \<longrightarrow> n \<in> set (map fst (section_of doc ''vlans''))))"

text \<open>A default route of the document is one line of \<open>ip route show default\<close>.\<close>

definition default_gateways :: "string \<times> pyval \<Rightarrow> string list" where
  "default_gateways e =
     concat (map (\<lambda>r. if word_at r ''to'' = Some ''default''
         then (case word_at r ''via'' of Some g \<Rightarrow> [g] | None \<Rightarrow> []) else []) (items_at (snd e) ''routes''))"

definition routes_installed :: "probe \<Rightarrow> pyval \<Rightarrow> bool" where
  "routes_installed probe doc \<longleftrightarrow>
     (let p = probe_run probe [''ip'', ''route'', ''show'', ''default''] in
      \<forall>e \<in> set (link_entries doc). \<forall>g \<in> set (default_gateways e).
        proc_rc p = 0
        \<and> (\<exists>l \<in> set (splitlines (proc_out p)). starts_with (''default via '' @ g @ '' dev '' @ link_name e) l))"

text \<open>The bonding driver reports a bond's mode (802.3ad under that name) and each of its interfaces.\<close>

definition bond_reported :: "probe \<Rightarrow> string \<times> pyval \<Rightarrow> bool" where
  "bond_reported probe e \<longleftrightarrow>
     (\<exists>text. probe_read_text probe (''/proc/net/bonding/'' @ fst e) = Some text
        \<and> (word_at (PyDict (dict_at (snd e) ''parameters'')) ''mode'' = Some ''802.3ad'' \<longrightarrow> contains_str ''802.3ad'' text)
        \<and> count_str ''Slave Interface:'' text = length (words_at (snd e) ''interfaces''))"

definition brought_up :: "probe \<Rightarrow> pyval \<Rightarrow> bool" where
  "brought_up probe doc \<longleftrightarrow>
     (\<exists>records. ip_addr_json probe = Inr records \<and> links_listed records doc
        \<and> (\<forall>e \<in> set (link_entries doc). link_as_told records e))
     \<and> routes_installed probe doc
     \<and> (\<forall>e \<in> set (section_of doc ''bonds''). bond_reported probe e)"

definition carries_out :: "probe \<Rightarrow> utext list \<Rightarrow> bool" where
  "carries_out probe ls \<longleftrightarrow>
     (\<forall>(path, content) \<in> set (written_files ls).
        probe_read_text probe path = Some (unlines content)
        \<and> (starts_with ''/etc/modules-load.d/'' path \<longrightarrow> modules_loaded probe content)
        \<and> (starts_with ''/etc/netplan/'' path \<and> utext_of ''  - netplan apply'' \<in> set ls \<longrightarrow>
             (case read_yaml content of None \<Rightarrow> True | Some doc \<Rightarrow> brought_up probe doc)))"


section \<open>The files of an H200 host\<close>

lemma utext_of_inj [simp]: "utext_of s = utext_of t \<longleftrightarrow> s = t"
  by (simp add: utext_of_def inj_map_eq_map inj_of_char)

lemma utext_of_take: "take n (utext_of s) = utext_of (take n s)"
  by (simp add: utext_of_def take_map)

lemma utext_of_drop: "map char_of (drop n (utext_of s)) = drop n s"
  by (simp add: utext_of_def drop_map o_def)

lemma length_utext_of: "length (utext_of s) = length s"
  by (simp add: utext_of_def)

lemma after_simps [simp]:
  "after x (x # ls) = ls" "l \<noteq> x \<Longrightarrow> after x (l # ls) = after x ls"
  by (simp_all add: after_def)

lemma block_literal_simps [simp]:
  "block_literal (utext_of s # ls) =
     (if take 6 s = ''      '' then drop 6 s # block_literal ls else [])"
  by (simp add: block_literal_def utext_of_take utext_of_drop)

lemma path_of_line:
  "path_of (utext_of s) = (if take 10 s = ''  - path: '' then Some (drop 10 s) else None)"
  by (simp add: path_of_def utext_of_take utext_of_drop)

lemma path_of_other: "10 \<le> length s \<Longrightarrow> take 10 s \<noteq> ''  - path: '' \<Longrightarrow> path_of (utext_of s @ t) = None"
  by (simp add: path_of_def length_utext_of utext_of_take)

lemma plain_simps [simp]: "plain [] = []" "plain (s # ss) = utext_of s # plain ss"
  "plain (ss @ ts) = plain ss @ plain ts"
  by (simp_all add: plain_def)

lemma no_path_written: "\<forall>l \<in> set ls. path_of l = None \<Longrightarrow> written_files (ls @ rest) = written_files rest"
  by (induction ls) simp_all

lemma indented_literal: "block_literal (plain (indented 6 ls) @ utext_of '''' # rest) = ls"
  by (induction ls) (simp_all add: indented_def numeral_eq_Suc)

lemma indented_no_path: "\<forall>l \<in> set (plain (indented 6 ls)). path_of l = None"
  by (induction ls) (simp_all add: indented_def path_of_line numeral_eq_Suc)

lemma ib_install_no_path: "\<forall>l \<in> set ib_install_lines. path_of l = None"
  by (simp add: ib_install_lines_def path_of_line path_of_other)

definition h200_limits :: "string list" where
  "h200_limits =
     [''# Unlimited locked memory for InfiniBand / RDMA verbs.'',
      ''# Required for ibv_reg_mr to succeed with large buffers.'',
      ''* hard memlock unlimited'', ''* soft memlock unlimited'']"

definition h200_modules :: "string list" where
  "h200_modules = [''mlx5_ib'', ''ib_umad'', ''ib_uverbs'', ''rdma_ucm'', ''ib_ipoib'']"

lemma h200_files:
  assumes "host_role ctx = GPU_H200"
  shows "written_files (user_data_lines ctx) =
    [(''/etc/security/limits.d/rdma.conf'', h200_limits),
     (''/etc/modules-load.d/infiniband.conf'', h200_modules),
     (''/etc/netplan/60-lab.yaml'', block (netplan_document ctx))]"
proof -
  obtain rest where rest: "ib_install_lines = utext_of '''' # rest" by (simp add: ib_install_lines_def)
  have "written_files (ib_install_lines @ []) = []"
    using no_path_written [OF ib_install_no_path, of "[]"] by simp
  then have none: "written_files rest = []" unfolding rest by (simp add: path_of_line)
  have netplan: "written_files (plain (indented 6 b) @ utext_of '''' # rest) = []" for b
    unfolding no_path_written [OF indented_no_path] using none by (simp add: path_of_line)
  show ?thesis
    unfolding user_data_lines_def assms role.case ib_user_data_lines_def netplan_file_lines_def
      netplan_copy_block gpu_identity_lines_def ib_limits_lines_def ib_modules_lines_def rest
    by (simp add: path_of_line netplan indented_literal h200_limits_def h200_modules_def)
qed

lemma read_netplan_file:
  assumes "wf_intent i" and "list_all plain_scalar (printed_names i)"
  shows "read_yaml (block (netplan_document (canonicalize i))) = Some (netplan_document (canonicalize i))"
proof -
  let ?doc = "netplan_document (canonicalize i)"
  have "wf_intent (canonicalize i)" "list_all plain_scalar (printed_names (canonicalize i))"
    using wf_canonicalize [OF assms(1)] assms(2) by (simp_all only: printed_names_canonicalize)
  then have "writable ?doc" "plain_words ?doc" using good_document by (simp_all add: good_def)
  moreover have "filter (\<lambda>l. l \<noteq> []) (indented 0 (block ?doc)) = indented 0 (block ?doc)"
    unfolding network_config_block [symmetric] by simp
  then have "filter (\<lambda>l. l \<noteq> []) (block ?doc) = indented 0 (block ?doc)" by (simp add: indented_def)
  ultimately show ?thesis by (rule read_block)
qed

lemma h200_file_text:
  "contains_str ''memlock'' (unlines h200_limits)" "contains_str ''unlimited'' (unlines h200_limits)"
  "filter module_named h200_modules = h200_modules"
  by code_simp+

section \<open>The links of the document\<close>

lemma document_sections:
  "section_of (netplan_document c) ''ethernets'' = ethernets_of c"
  "section_of (netplan_document c) ''bonds'' = [stanza bond_name bond_entries (host_bond c)]"
  "section_of (netplan_document c) ''vlans'' = vlans_of c"
  by (simp_all add: section_of_def dict_at_def netplan_document_def)

lemmas entry_defs = stanza_def link_name_def entry_mtu_def word_at_def words_at_def items_at_def address_entry_def

lemma host_part_interface: "host_part (interface_str a) = ipv4_str (if_ip a)"
proof -
  have "takeWhile (\<lambda>c. c \<noteq> CHR ''/'') (ipv4_str w) = ipv4_str w" for w
    using ipv4_str_no_slash [of w] by (auto simp: takeWhile_eq_all_conv)
  then show ?thesis by (simp add: host_part_def interface_str_def takeWhile_append_stop)
qed

lemma rail_entry:
  "link_name (stanza nic_name ib_entries u) = nic_name u"
  "entry_mtu (stanza nic_name ib_entries u) = Some (nic_mtu u)"
  "words_at (snd (stanza nic_name ib_entries u)) ''addresses'' = [interface_str (ib_address u)]"
  by (simp_all add: entry_defs ib_entries_def ethernet_entries_def int_of_str_int)

lemma vlan_entry:
  "link_name (stanza vlan_name vlan_entries v) = vlan_name v"
  "entry_mtu (stanza vlan_name vlan_entries v) = Some (vlan_mtu v)"
  "words_at (snd (stanza vlan_name vlan_entries v)) ''addresses'' = [interface_str (vlan_address v)]"
  "vlan_gateway v = Some g \<Longrightarrow> default_gateways (stanza vlan_name vlan_entries v) = [ipv4_str g]"
  by (cases "vlan_gateway v"; simp add: entry_defs vlan_entries_def gateway_entries_def dns_entries_def
      default_gateways_def int_of_str_int split: option.splits)+

lemma bond_entry:
  "link_name (stanza bond_name bond_entries b) = bond_name b"
  "words_at (snd (stanza bond_name bond_entries b)) ''interfaces'' = bond_members b"
  "word_at (PyDict (dict_at (snd (stanza bond_name bond_entries b)) ''parameters'')) ''mode'' = Some ''802.3ad''"
proof -
  have "concat (map (\<lambda>x. case x of PyStr s \<Rightarrow> [s] | _ \<Rightarrow> []) (map PyStr ms)) = ms" for ms
    by (induction ms) simp_all
  then show "words_at (snd (stanza bond_name bond_entries b)) ''interfaces'' = bond_members b"
    by (simp add: entry_defs bond_entries_def del: map_map)
  show "link_name (stanza bond_name bond_entries b) = bond_name b"
    by (simp add: entry_defs bond_entries_def)
  show "word_at (PyDict (dict_at (snd (stanza bond_name bond_entries b)) ''parameters'')) ''mode'' = Some ''802.3ad''"
    by (cases "bond_mode b") (simp add: entry_defs bond_entries_def dict_at_def bond_mode_value_def)
qed

text \<open>So the links an H200 host needs are up.\<close>

definition link_up :: "pydict list \<Rightarrow> string \<Rightarrow> bool" where
  "link_up records name \<longleftrightarrow> (\<exists>r. iface_record records name = Some r \<and> is_up r = Inr True)"

definition addressed_link :: "pydict list \<Rightarrow> string \<Rightarrow> int \<Rightarrow> ipv4_interface \<Rightarrow> bool" where
  "addressed_link records name mtu a \<longleftrightarrow> (\<exists>r ips. iface_record records name = Some r
     \<and> is_up r = Inr True \<and> ipv4s r = Inr ips \<and> PyStr (ipv4_str (if_ip a)) \<in> set ips
     \<and> map_of r ''mtu'' = Some (PyInt mtu))"

definition network_up :: "pydict list \<Rightarrow> host_intent \<Rightarrow> bool" where
  "network_up records i \<longleftrightarrow>
     (\<exists>names. link_names records names
        \<and> (\<forall>n \<in> set names. starts_with (bond_name (host_bond i) @ ''.'') n \<longrightarrow> n \<in> vlan_name ` set (vlans i)))
     \<and> link_up records (bond_name (host_bond i))
     \<and> (\<forall>v \<in> set (vlans i). addressed_link records (vlan_name v) (vlan_mtu v) (vlan_address v))
     \<and> (\<forall>u \<in> set (ib_underlays i). addressed_link records (nic_name u) (nic_mtu u) (ib_address u))"

lemma told_addressed:
  assumes "link_as_told records e" and "link_name e = n" and "entry_mtu e = Some mtu"
    and "words_at (snd e) ''addresses'' = [interface_str a]"
  shows "addressed_link records n mtu a"
  using assms by (auto simp: link_as_told_def addressed_link_def host_part_interface)

lemma brought_up_network:
  assumes up: "brought_up probe (netplan_document (canonicalize i))" and role: "host_role i = GPU_H200"
  shows "\<exists>records. ip_addr_json probe = Inr records \<and> network_up records i"
    and "\<And>v g. v \<in> set (vlans i) \<Longrightarrow> vlan_gateway v = Some g \<Longrightarrow>
      proc_rc (probe_run probe [''ip'', ''route'', ''show'', ''default'']) = 0
      \<and> (\<exists>l \<in> set (splitlines (proc_out (probe_run probe [''ip'', ''route'', ''show'', ''default'']))).
           starts_with ''default via '' l)"
    and "\<exists>text. probe_read_text probe (''/proc/net/bonding/'' @ bond_name (host_bond i)) = Some text
      \<and> contains_str ''802.3ad'' text \<and> count_str ''Slave Interface:'' text = length (bond_members (host_bond i))"
proof -
  let ?c = "canonicalize i"
  have "east_west_entries ?c = map (stanza nic_name ib_entries) (ib_underlays ?c)"
    using role by (simp add: east_west_entries_def)
  then have rail: "stanza nic_name ib_entries u \<in> set (link_entries (netplan_document ?c))" if "u \<in> set (ib_underlays i)" for u
    using that by (simp add: link_entries_def document_sections ethernets_of_def)
  have vlan: "stanza vlan_name vlan_entries v \<in> set (link_entries (netplan_document ?c))" if "v \<in> set (vlans i)" for v
    using that by (simp add: link_entries_def document_sections vlans_of_def)
  have bond: "stanza bond_name bond_entries (host_bond ?c) \<in> set (link_entries (netplan_document ?c))"
    "bond_name (host_bond ?c) = bond_name (host_bond i)"
    "length (bond_members (host_bond ?c)) = length (bond_members (host_bond i))"
    by (simp_all add: link_entries_def document_sections)
  obtain records where recs: "ip_addr_json probe = Inr records" "links_listed records (netplan_document ?c)"
    and told: "\<And>e. e \<in> set (link_entries (netplan_document ?c)) \<Longrightarrow> link_as_told records e"
    using up by (auto simp: brought_up_def)
  have "fst (stanza vlan_name vlan_entries v) = vlan_name v" for v by (simp add: stanza_def)
  then have "set (map fst (vlans_of ?c)) = vlan_name ` set (vlans i)"
    by (simp add: vlans_of_def image_image)
  then have "\<exists>names. link_names records names
      \<and> (\<forall>n \<in> set names. starts_with (bond_name (host_bond i) @ ''.'') n \<longrightarrow> n \<in> vlan_name ` set (vlans i))"
    using recs(2) bond(2) by (auto simp: links_listed_def document_sections stanza_def)
  moreover have "link_up records (bond_name (host_bond i))"
    using told [OF bond(1)] bond(2) by (auto simp: link_as_told_def link_up_def bond_entry)
  moreover have "addressed_link records (vlan_name v) (vlan_mtu v) (vlan_address v)" if "v \<in> set (vlans i)" for v
    by (rule told_addressed [OF told [OF vlan [OF that]] vlan_entry(1-3)])
  moreover have "addressed_link records (nic_name u) (nic_mtu u) (ib_address u)" if "u \<in> set (ib_underlays i)" for u
    by (rule told_addressed [OF told [OF rail [OF that]] rail_entry])
  ultimately show "\<exists>records. ip_addr_json probe = Inr records \<and> network_up records i"
    using recs(1) by (auto simp: network_up_def)
  show "proc_rc (probe_run probe [''ip'', ''route'', ''show'', ''default'']) = 0
      \<and> (\<exists>l \<in> set (splitlines (proc_out (probe_run probe [''ip'', ''route'', ''show'', ''default'']))).
           starts_with ''default via '' l)" if "v \<in> set (vlans i)" "vlan_gateway v = Some g" for v g
  proof -
    have "routes_installed probe (netplan_document ?c)" using up by (simp add: brought_up_def)
    with vlan [OF that(1)] vlan_entry(4) [OF that(2)] obtain l
      where l: "proc_rc (probe_run probe [''ip'', ''route'', ''show'', ''default'']) = 0"
        "l \<in> set (splitlines (proc_out (probe_run probe [''ip'', ''route'', ''show'', ''default''])))"
        "starts_with (''default via '' @ ipv4_str g @ '' dev '' @ vlan_name v) l"
      unfolding routes_installed_def Let_def by (fastforce simp: vlan_entry(1))
    then have "starts_with ''default via '' l" by (auto simp: starts_with_iff)
    with l(1,2) show ?thesis by blast
  qed
  have "bond_reported probe (stanza bond_name bond_entries (host_bond ?c))"
    using up by (simp add: brought_up_def document_sections)
  then show "\<exists>text. probe_read_text probe (''/proc/net/bonding/'' @ bond_name (host_bond i)) = Some text
      \<and> contains_str ''802.3ad'' text \<and> count_str ''Slave Interface:'' text = length (bond_members (host_bond i))"
    unfolding bond_reported_def bond_entry bond(3) by (simp add: stanza_def bond(2))
qed

section \<open>What the validator sees of them\<close>

lemma link_names_find:
  "link_names records names \<Longrightarrow> r \<in> set records \<Longrightarrow> map_of r ''ifname'' = Some (PyStr n) \<Longrightarrow>
    iface_record records n = Some r \<and> n \<in> set names"
proof (induction records arbitrary: names)
  case (Cons s records)
  then obtain m ms where names: "names = m # ms" and s: "map_of s ''ifname'' = Some (PyStr m)"
    and rest: "link_names records ms" "m \<notin> set ms"
    by (auto simp: link_names_def list_all2_Cons1)
  show ?case
  proof (cases "s = r")
    case True
    then show ?thesis using s Cons.prems(3) by (simp add: names iface_record_def dict_get_def)
  next
    case False
    then have r: "r \<in> set records" using Cons.prems(2) by simp
    have "iface_record records n = Some r \<and> n \<in> set ms" using Cons.IH [OF rest(1) r Cons.prems(3)] .
    moreover from this have "n \<noteq> m" using rest(2) by blast
    ultimately show ?thesis using s by (simp add: names iface_record_def dict_get_def)
  qed
qed simp

lemma iface_record_name:
  assumes "iface_record records n = Some r" and "link_names records names"
  shows "r \<in> set records \<and> map_of r ''ifname'' = Some (PyStr n)"
proof -
  have r: "r \<in> set records" "py_eq (dict_get r ''ifname'') (PyStr n)"
    using assms(1) by (auto simp: iface_record_def find_Some_iff)
  then obtain m where "map_of r ''ifname'' = Some (PyStr m)"
    using assms(2) by (auto simp: link_names_def list_all2_conv_all_nth in_set_conv_nth)
  then show ?thesis using r by (simp add: dict_get_def)
qed

lemma rfilter_all: "\<forall>x \<in> set xs. p x = Inr True \<Longrightarrow> rfilter p xs = Inr xs"
  by (induction xs) simp_all

lemma children_by_name:
  "list_all2 (\<lambda>r n. map_of r ''ifname'' = Some (PyStr n)) rs ms \<Longrightarrow>
    length (filter (\<lambda>r. P (py_str (get_default r ''ifname'' (PyStr '''')))) rs) = length (filter P ms)"
  by (induction rs ms rule: list_all2_induct) (auto simp: get_default_def py_str_def)

text \<open>The VLAN children of the bond, as the validator counts them, are the intent's VLANs.\<close>

lemma vlan_children:
  fixes records :: "pydict list"
  defines "children \<equiv> \<lambda>b. filter (\<lambda>r. starts_with (b @ ''.'') (py_str (get_default r ''ifname'' (PyStr '''')))) records"
  assumes up: "network_up records i" and names: "distinct (map vlan_name (vlans i))"
    and prefix: "\<forall>v \<in> set (vlans i). starts_with (bond_name (host_bond i) @ ''.'') (vlan_name v)"
  shows "length (children (bond_name (host_bond i))) = length (vlans i)"
    and "\<forall>r \<in> set (children (bond_name (host_bond i))). up_with_ip r = Inr True"
proof -
  let ?b = "bond_name (host_bond i)" and ?child = "starts_with (bond_name (host_bond i) @ ''.'')"
  obtain ns where ns: "link_names records ns" "\<forall>n \<in> set ns. ?child n \<longrightarrow> n \<in> vlan_name ` set (vlans i)"
    using up by (auto simp: network_up_def)
  have link: "\<exists>r. iface_record records (vlan_name v) = Some r \<and> up_with_ip r = Inr True"
    if "v \<in> set (vlans i)" for v
  proof -
    have "addressed_link records (vlan_name v) (vlan_mtu v) (vlan_address v)"
      using up that by (simp add: network_up_def)
    then show ?thesis unfolding addressed_link_def by (elim exE conjE) (auto simp: up_with_ip_def)
  qed
  have "length (children ?b) = length (filter ?child ns)"
    using ns(1) by (simp add: children_def link_names_def children_by_name)
  also have "\<dots> = card (vlan_name ` set (vlans i))"
  proof -
    have "set (filter ?child ns) = vlan_name ` set (vlans i)"
    proof
      show "set (filter ?child ns) \<subseteq> vlan_name ` set (vlans i)" using ns(2) by auto
      show "vlan_name ` set (vlans i) \<subseteq> set (filter ?child ns)"
      proof
        fix n assume "n \<in> vlan_name ` set (vlans i)"
        then obtain v where v: "v \<in> set (vlans i)" "n = vlan_name v" by blast
        obtain r where "iface_record records n = Some r" using link [OF v(1)] v(2) by blast
        from iface_record_name [OF this ns(1)] have "n \<in> set ns" using link_names_find [OF ns(1)] by blast
        then show "n \<in> set (filter ?child ns)" using prefix v by simp
      qed
    qed
    then show ?thesis using ns(1) by (metis distinct_card distinct_filter link_names_def)
  qed
  also have "\<dots> = length (vlans i)"
    using names distinct_card [of "map vlan_name (vlans i)"] by simp
  finally show "length (children ?b) = length (vlans i)" .
  show "\<forall>r \<in> set (children ?b). up_with_ip r = Inr True"
  proof
    fix r assume "r \<in> set (children ?b)"
    then have r: "r \<in> set records" "?child (py_str (get_default r ''ifname'' (PyStr '''')))"
      by (simp_all add: children_def)
    then obtain n where n: "map_of r ''ifname'' = Some (PyStr n)"
      using ns(1) by (auto simp: link_names_def list_all2_conv_all_nth in_set_conv_nth)
    then have "iface_record records n = Some r" "n \<in> set ns" "?child n"
      using link_names_find [OF ns(1) r(1) n] r(2) by (simp_all add: get_default_def py_str_def)
    moreover from this obtain v where "v \<in> set (vlans i)" "n = vlan_name v" using ns(2) by auto
    ultimately show "up_with_ip r = Inr True" using link by force
  qed
qed

lemma rail_of_underlay:
  assumes "network_up records i" and "u \<in> set (ib_underlays i)"
  shows "rail_ok records (nic_mtu u) (nic_name u)"
proof -
  have "addressed_link records (nic_name u) (nic_mtu u) (ib_address u)"
    using assms by (simp add: network_up_def)
  then obtain r ips where "iface_record records (nic_name u) = Some r" "is_up r = Inr True" "ipv4s r = Inr ips"
    "ips \<noteq> []" "map_of r ''mtu'' = Some (PyInt (nic_mtu u))" unfolding addressed_link_def by force
  then show ?thesis by (cases ips) (simp_all add: rail_ok_def dict_get_def py_num_def)
qed

lemma rails_pass:
  assumes "\<forall>ib \<in> set (rail_names (rails cfg)). rail_ok records (ipoib_mtu cfg) ib"
    and "ip_addr_json probe = Inr records"
  shows "\<exists>r. check_ipoib_rails probe cfg = Inr r \<and> check_status r = PASS"
proof -
  have "\<exists>p. check_rails records mtu ibs q = Inr p"
    if "\<forall>ib \<in> set ibs. rail_ok records mtu ib" for mtu ibs q
    using that
  proof (induction ibs arbitrary: q)
    case (Cons ib ibs)
    then have "\<exists>p. check_rail records mtu ib q = Inr p"
      by (auto simp: rail_ok_def check_rail_def Let_def split: option.splits)
    then show ?case using Cons by auto
  qed simp
  from this [OF assms(1)] obtain p
    where "check_rails records (ipoib_mtu cfg) (rail_names (rails cfg)) no_problems = Inr p" by blast
  then obtain r where "check_ipoib_rails probe cfg = Inr r"
    using assms(2) by (simp add: check_ipoib_rails_def Let_def)
  then show ?thesis using ipoib_status(1) [OF _ assms(2)] assms(1) by blast
qed

lemma first_word: "list_all (\<lambda>c. \<not> is_space c) m \<Longrightarrow> w \<noteq> [] \<or> m \<noteq> [] \<Longrightarrow>
    words_from w (m @ CHR '' '' # rest) = (rev w @ m) # words_from [] rest"
proof (induction m arbitrary: w)
  case Nil
  have "is_space (CHR '' '')" by (simp add: is_space_def)
  then show ?case using Nil by simp
qed simp

lemma module_line:
  assumes "starts_with (m @ '' '') l" and "list_all (\<lambda>c. \<not> is_space c) m" and "m \<noteq> []"
    and "l \<in> set (drop 1 (splitlines out))"
  shows "m \<in> set (loaded_modules out)"
proof -
  obtain rest where "l = m @ CHR '' '' # rest" using assms(1) by (auto simp: starts_with_iff)
  then have "split_words l \<noteq> []" "hd (split_words l) = m"
    using first_word [OF assms(2), of "[]"] assms(3) by (simp_all add: split_words_def)
  then show ?thesis using assms(4) unfolding loaded_modules_def by force
qed

lemma splitlines_chars: "l \<in> set (splitlines_from w s) \<Longrightarrow> set l \<subseteq> set w \<union> set s"
proof (induction w s arbitrary: l rule: splitlines_from.induct)
  case (3 w c d s)
  show ?case
  proof (cases "c = CHR 0x0D \<and> d = CHR 0x0A")
    case True
    then show ?thesis using 3(1) [OF True, of l] 3(4) by auto
  next
    case False
    show ?thesis
    proof (cases "is_line_break c")
      case True
      then show ?thesis using 3(2) [OF False True, of l] 3(4) False by (auto split: if_splits)
    next
      case no_break: False
      then show ?thesis using 3(3) [OF False no_break, of l] 3(4) False by (auto split: if_splits)
    qed
  qed
qed (auto split: if_splits)

lemma stripped_line:
  assumes "l \<in> set (splitlines s)" and "starts_with ''default via '' l"
  shows "py_strip s \<noteq> ''''"
proof
  assume "py_strip s = ''''"
  then have "dropWhile is_space s = []"
    using hd_dropWhile [of is_space s] by (cases "dropWhile is_space s")
      (auto simp: py_strip_def rstrip_by_def dropWhile_eq_Nil_conv)
  then have "\<forall>c \<in> set s. is_space c" by (simp add: dropWhile_eq_Nil_conv)
  moreover have "CHR ''d'' \<in> set s"
    using splitlines_chars [OF assms(1) [unfolded splitlines_def]] assms(2) by (auto simp: starts_with_iff)
  ultimately show False by (auto simp: is_space_def)
qed

section \<open>A provisioned H200 host\<close>

lemma loaded_vlan_prefix:
  assumes "load_host_intent client tag = Inr i"
  shows "bond_name (host_bond i) = ''bond0''" and "\<forall>v \<in> set (vlans i). starts_with ''bond0.'' (vlan_name v)"
proof -
  show "bond_name (host_bond i) = ''bond0''"
    using assms by (elim load_host_intentE) (simp add: build_bond_Inr BOND_NAME_def)
  show "\<forall>v \<in> set (vlans i). starts_with ''bond0.'' (vlan_name v)"
    using assms
  proof (rule load_host_intentE)
    fix ifs assume vs: "build_vlans client ifs tag = Inr (vlans i)"
    have "map vlan_name (vlans i) = map nbi_name (filter is_vlan_iface ifs)"
      using vlan_builder.names [OF vs [unfolded build_vlans_def]] .
    then have "vlan_name ` set (vlans i) = nbi_name ` set (filter is_vlan_iface ifs)"
      by (metis list.set_map)
    then show ?thesis by (auto simp: is_vlan_iface_def VLAN_NAME_PREFIX_def dest!: equalityD1)
  qed
qed

lemma loaded_two_members:
  assumes "load_host_intent client tag = Inr i"
  shows "length (bond_members (host_bond i)) = 2"
proof -
  have "renderable i" "wf_bond (host_bond i)" using load_wf_intent [OF assms] by (simp_all add: wf_intent_def)
  then have "size (mset (bond_members (host_bond i))) = length (ns_nics i)" "length (ns_nics i) = 2"
    by (simp_all only: renderable_bond_members) (simp_all add: renderable_unfold)
  then show ?thesis by simp
qed

text \<open>The checks that cannot fail, and the one that reads \<open>cloud-init status\<close>.\<close>

lemma never_fail:
  "\<exists>r. check_no_soft_roce probe cfg = Inr r \<and> check_name r = ''no-soft-roce'' \<and> check_status r \<noteq> FAIL"
  "\<exists>r. check_ib_ports probe cfg = Inr r \<and> check_name r = ''ib-ports'' \<and> check_status r \<noteq> FAIL"
  "\<exists>r. check_verbs_devices probe cfg = Inr r \<and> check_name r = ''verbs-devices'' \<and> check_status r \<noteq> FAIL"
  by (simp_all add: check_no_soft_roce_def check_ib_ports_def check_verbs_devices_def result_def Let_def)

definition cloud_init_error :: "probe \<Rightarrow> bool" where
  "cloud_init_error probe \<longleftrightarrow> probe_have probe ''cloud-init''
     \<and> contains_str ''error'' (py_lower (proc_out (probe_run probe [''cloud-init'', ''status''])
          @ proc_err (probe_run probe [''cloud-init'', ''status''])))"

lemma cloud_init_verdict:
  "\<exists>r. check_cloud_init probe cfg = Inr r \<and> check_name r = ''cloud-init''
    \<and> (check_status r = FAIL \<longleftrightarrow> cloud_init_error probe)"
  by (simp add: check_cloud_init_def cloud_init_error_def result_def Let_def)

definition passes :: "(probe \<Rightarrow> config \<Rightarrow> exn + check_result) \<Rightarrow> probe \<Rightarrow> string \<Rightarrow> bool" where
  "passes check probe name \<longleftrightarrow>
     (\<exists>r. check probe default_config = Inr r \<and> check_name r = name \<and> check_status r = PASS)"

lemmas check_verdicts = passes_def result_def Let_def

lemma file_checks:
  assumes host: "carries_out probe (user_data_lines (canonicalize i))" and role: "host_role i = GPU_H200"
  shows "passes check_netplan_config probe ''netplan-config''" "passes check_memlock probe ''memlock''"
    "passes check_ib_modules probe ''ib-modules''"
proof -
  have "host_role (canonicalize i) = GPU_H200" using role by simp
  note host = host [unfolded carries_out_def h200_files [OF this]]
  have limits: "probe_read_text probe ''/etc/security/limits.d/rdma.conf'' = Some (unlines h200_limits)"
    and modules: "modules_loaded probe h200_modules"
    and netplan: "\<exists>text. probe_read_text probe ''/etc/netplan/60-lab.yaml'' = Some text"
    using host by (simp_all add: starts_with_def)
  show "passes check_netplan_config probe ''netplan-config''"
    using netplan by (auto simp: check_netplan_config_def default_config_def check_verdicts)
  have "unlines h200_limits \<noteq> ''''" by (simp add: h200_limits_def unlines_def)
  then show "passes check_memlock probe ''memlock''"
    using limits h200_file_text(1,2) by (simp add: check_memlock_def default_config_def check_verdicts)
  have lsmod: "proc_rc (probe_run probe [''lsmod'']) = 0"
    and lines: "\<And>m. m \<in> set h200_modules \<Longrightarrow>
      \<exists>l \<in> set (drop 1 (splitlines (proc_out (probe_run probe [''lsmod''])))). starts_with (m @ '' '') l"
    using modules by (simp_all add: modules_loaded_def h200_file_text(3) Let_def)
  have "m \<in> set (loaded_modules (proc_out (probe_run probe [''lsmod''])))" if "m \<in> {''ib_ipoib'', ''mlx5_ib''}" for m
  proof -
    have m: "m \<in> set h200_modules" "list_all (\<lambda>c. \<not> is_space c) m" "m \<noteq> []"
      using that by (auto simp: h200_modules_def is_space_def)
    from lines [OF m(1)] show ?thesis using module_line [OF _ m(2,3)] by blast
  qed
  then show "passes check_ib_modules probe ''ib-modules''"
    using lsmod by (simp add: check_ib_modules_def check_verdicts)
qed

lemma network_checks:
  assumes loaded: "load_host_intent client tag = Inr i" and role: "host_role i = GPU_H200"
    and rails: "nic_name ` set (ib_underlays i) = set (rail_names 8)" "\<forall>u \<in> set (ib_underlays i). nic_mtu u = 2044"
    and up: "brought_up probe (netplan_document (canonicalize i))"
  shows "passes check_bond_up probe ''bond0''" "passes check_bond_lacp probe ''bond0-lacp''"
    "passes check_vlans probe ''vlans''" "passes check_default_route probe ''default-route''"
    "passes check_ipoib_rails probe ''ipoib-rails''"
proof -
  note net = brought_up_network [OF up role]
  obtain records where recs: "ip_addr_json probe = Inr records" and up: "network_up records i" using net(1) by blast
  have ren: "renderable i" using load_wf_intent [OF loaded] by (simp add: wf_intent_def)
  have bond: "bond_name (host_bond i) = ''bond0''" using loaded by (rule loaded_vlan_prefix)
  obtain r where "iface_record records ''bond0'' = Some r" "is_up r = Inr True"
    using up bond by (auto simp: network_up_def link_up_def)
  then show "passes check_bond_up probe ''bond0''"
    by (simp add: check_bond_up_def recs default_config_def check_verdicts)
  obtain report where "probe_read_text probe ''/proc/net/bonding/bond0'' = Some report"
    "contains_str ''802.3ad'' report" "count_str ''Slave Interface:'' report = 2"
    using net(3) loaded_two_members [OF loaded] by (auto simp: bond)
  then show "passes check_bond_lacp probe ''bond0-lacp''"
    by (simp add: check_bond_lacp_def default_config_def check_verdicts)
  let ?kids = "filter (\<lambda>r. starts_with (''bond0'' @ ''.'') (py_str (get_default r ''ifname'' (PyStr '''')))) records"
  have names: "distinct (map vlan_name (vlans i))" using renderable_names [OF ren] by simp
  have prefix: "\<forall>v \<in> set (vlans i). starts_with (bond_name (host_bond i) @ ''.'') (vlan_name v)"
    using loaded_vlan_prefix [OF loaded] by simp
  note kids = vlan_children [OF up names prefix, unfolded bond]
  have "length ?kids = 3" using kids(1) renderable_three_vlans [OF ren] by simp
  moreover have "rfilter up_with_ip ?kids = Inr ?kids" using kids(2) by (rule rfilter_all)
  ultimately show "passes check_vlans probe ''vlans''"
    by (simp add: check_vlans_def recs default_config_def check_verdicts)
  obtain v g where "v \<in> set (vlans i)" "vlan_gateway v = Some g" using loaded_via_line [OF loaded] by blast
  from net(2) [OF this] show "passes check_default_route probe ''default-route''"
    using stripped_line by (auto simp: check_default_route_def check_verdicts)
  have "rail_ok records 2044 ib" if "ib \<in> set (rail_names 8)" for ib
    using that rails rail_of_underlay [OF up] by (metis image_iff)
  then have "\<exists>r. check_ipoib_rails probe default_config = Inr r \<and> check_status r = PASS"
    by (intro rails_pass [OF _ recs]) (simp add: default_config_def)
  then show "passes check_ipoib_rails probe ''ipoib-rails''"
    by (auto simp: check_ipoib_rails_def recs rbind_eq_Inr check_verdicts split: if_splits)
qed

text \<open>C13: the validator accepts what the renderer promises. Take a loaded H200 host with plain names
  and the rails \<open>ib0\<close> to \<open>ib7\<close> at MTU 2044, and a machine that carries out the lines of its rendered
  user-data: it writes the files, loads the modules they list, and configures what a YAML reader
  finds in the Netplan file. Then, with the default expectations, every check that the rendered
  files bear on passes, and the exit status is 0, or 1 just when \<open>cloud-init status\<close> reports an error.\<close>

theorem provisioned_h200_validates:
  assumes loaded: "load_host_intent client tag = Inr i" and role: "host_role i = GPU_H200"
    and rails: "nic_name ` set (ib_underlays i) = set (rail_names 8)" "\<forall>u \<in> set (ib_underlays i). nic_mtu u = 2044"
    and names: "list_all plain_scalar (printed_names i)"
    and host: "carries_out probe (user_data_lines (canonicalize i))"
  shows "\<exists>results report. run_all probe default_config = Inr results
    \<and> validate_main probe 8 2044 3 as_json = Inr (report, if cloud_init_error probe then 1 else 0)
    \<and> (\<forall>name \<in> {''netplan-config'', ''bond0'', ''bond0-lacp'', ''vlans'', ''default-route'', ''ipoib-rails'',
          ''ib-modules'', ''memlock''}. outcome results name = Some PASS)"
proof -
  have "host_role (canonicalize i) = GPU_H200" using role by simp
  note files = h200_files [OF this]
  have "utext_of ''  - netplan apply'' \<in> set (user_data_lines (canonicalize i))"
    using user_data_netplan_file [of "canonicalize i"] by auto
  then have up: "brought_up probe (netplan_document (canonicalize i))"
    using host read_netplan_file [OF load_wf_intent [OF loaded] names]
    unfolding carries_out_def files by (simp add: starts_with_def)
  note network = network_checks [OF loaded role rails up] and rest = file_checks [OF host role]
  have cfg: "default_config\<lparr>rails := 8, ipoib_mtu := 2044, vlan_count := 3\<rparr> = default_config"
    by (simp add: default_config_def)
  obtain results where run: "run_all probe default_config = Inr results"
    and ok: "(\<forall>r \<in> set results. check_status r \<noteq> FAIL) \<longleftrightarrow> \<not> cloud_init_error probe"
    and out: "\<forall>name \<in> {''netplan-config'', ''bond0'', ''bond0-lacp'', ''vlans'', ''default-route'', ''ipoib-rails'',
      ''ib-modules'', ''memlock''}. outcome results name = Some PASS"
    using network rest never_fail [of probe default_config] cloud_init_verdict [of probe default_config]
    unfolding passes_def by (elim exE conjE) (simp add: run_all_def CHECKS_def outcome_def)
  have "failed (summarize results) = 0 \<longleftrightarrow> \<not> cloud_init_error probe" using ok by (simp add: failed_iff)
  then have "\<exists>report. validate_main probe 8 2044 3 as_json = Inr (report, if cloud_init_error probe then 1 else 0)"
    using run by (cases "cloud_init_error probe") (simp_all add: validate_main_def cfg Let_def)
  then show ?thesis using run out by blast
qed

section \<open>Such a machine\<close>

definition link_record :: "string \<Rightarrow> int \<Rightarrow> string list \<Rightarrow> pydict" where
  "link_record name mtu ips = [(''ifname'', PyStr name), (''operstate'', PyStr ''UP''), (''mtu'', PyInt mtu),
     (''addr_info'', PyList (map (\<lambda>ip. PyDict [(''family'', PyStr ''inet''), (''local'', PyStr ip)]) ips))]"

definition record_of :: "string \<times> pyval \<Rightarrow> pydict" where
  "record_of e = link_record (link_name e) (case entry_mtu e of Some n \<Rightarrow> n | None \<Rightarrow> 1500)
     (map host_part (words_at (snd e) ''addresses''))"

lemma link_record_simps:
  "map_of (link_record name mtu ips) ''ifname'' = Some (PyStr name)"
  "map_of (link_record name mtu ips) ''mtu'' = Some (PyInt mtu)"
  "is_up (link_record name mtu ips) = Inr True" "ipv4s (link_record name mtu ips) = Inr (map PyStr ips)"
proof -
  have "inet_locals (map (\<lambda>ip. PyDict [(''family'', PyStr ''inet''), (''local'', PyStr ip)]) ips) = Inr (map PyStr ips)"
    by (induction ips) (simp_all add: py_get_def get_default_def)
  then show "ipv4s (link_record name mtu ips) = Inr (map PyStr ips)"
    by (simp add: link_record_def ipv4s_def get_default_def py_iter_def)
qed (simp_all add: link_record_def is_up_def dict_get_def)

lemma records_as_told:
  assumes "distinct (map link_name es)" and "e \<in> set es"
  shows "link_names (map record_of es) (map link_name es)" and "link_as_told (map record_of es) e"
proof -
  have name: "map_of (record_of x) ''ifname'' = Some (PyStr (link_name x))" for x
    by (simp add: record_of_def link_record_simps)
  then show names: "link_names (map record_of es) (map link_name es)"
    using assms(1) by (simp add: link_names_def list_all2_conv_all_nth)
  have "iface_record (map record_of es) (link_name e) = Some (record_of e)"
    using link_names_find [OF names _ name] assms(2) by simp
  then show "link_as_told (map record_of es) e"
    by (auto simp: link_as_told_def record_of_def link_record_simps split: option.split)
qed

definition h200_document :: pyval where
  "h200_document = netplan_document (canonicalize h200_intent)"

definition h200_bonding :: string where
  "h200_bonding = unlines [''Bonding Mode: IEEE 802.3ad Dynamic link aggregation'', ''MII Status: up'',
     ''Slave Interface: nsa'', ''MII Status: up'', ''Slave Interface: nsb'', ''MII Status: up'']"

definition h200_lsmod :: string where
  "h200_lsmod = unlines (''Module Size  Used by'' # map (\<lambda>m. m @ '' 16384 0'') h200_modules)"

definition h200_routes :: string where
  "h200_routes = unlines [''default via 10.42.10.1 dev bond0.100 proto static'']"

definition h200_probe :: probe where
  "h200_probe =
     \<lparr>probe_run = (\<lambda>args. \<lparr>proc_rc = 0,
        proc_out = (if args = [''ip'', ''-j'', ''addr''] then ''links''
          else if args = [''ip'', ''route'', ''show'', ''default''] then h200_routes
          else if args = [''lsmod''] then h200_lsmod
          else ''status: done''), proc_err = ''''\<rparr>),
      probe_have = (\<lambda>t. True),
      probe_read_text = (\<lambda>p. if p = ''/proc/net/bonding/bond0'' then Some h200_bonding
          else map_option unlines (map_of (written_files (user_data_lines (canonicalize h200_intent))) p)),
      json_loads = (\<lambda>s. if s = ''links'' then Some (PyList (map PyDict (map record_of (link_entries h200_document))))
          else None)\<rparr>"

lemma h200_conditions:
  "nic_name ` set (ib_underlays h200_intent) = set (rail_names 8)"
  "\<forall>u \<in> set (ib_underlays h200_intent). nic_mtu u = 2044"
  "list_all plain_scalar (printed_names h200_intent)"
  by code_simp+

lemma document_names:
  "map link_name (link_entries (netplan_document c)) = map nic_name (ns_nics c)
     @ (case host_role c of CPU \<Rightarrow> [] | GPU_B300 \<Rightarrow> map nic_name (roce_underlays c)
        | GPU_B200 \<Rightarrow> map nic_name (roce_underlays c) | GPU_H200 \<Rightarrow> map nic_name (ib_underlays c))
     @ [bond_name (host_bond c)] @ map vlan_name (vlans c)"
  "map fst (section_of (netplan_document c) ''vlans'') = map vlan_name (vlans c)"
  "map fst (section_of (netplan_document c) ''bonds'') = [bond_name (host_bond c)]"
proof -
  have ethernet: "link_name (stanza nic_name ethernet_entries n) = nic_name n"
    and roce: "link_name (stanza nic_name roce_entries r) = nic_name r"
    for n :: "bond_member" and r
    by (simp_all add: entry_defs ethernet_entries_def roce_entries_def)
  show "map link_name (link_entries (netplan_document c)) = map nic_name (ns_nics c)
     @ (case host_role c of CPU \<Rightarrow> [] | GPU_B300 \<Rightarrow> map nic_name (roce_underlays c)
        | GPU_B200 \<Rightarrow> map nic_name (roce_underlays c) | GPU_H200 \<Rightarrow> map nic_name (ib_underlays c))
     @ [bond_name (host_bond c)] @ map vlan_name (vlans c)"
    by (cases "host_role c") (simp_all add: link_entries_def document_sections ethernets_of_def east_west_entries_def
        vlans_of_def ethernet roce rail_entry vlan_entry bond_entry o_def)
qed (simp_all add: document_sections vlans_of_def stanza_def o_def)

lemma h200_links:
  "map link_name (link_entries h200_document)
    = [''nsa'', ''nsb''] @ rail_names 8 @ [''bond0'', ''bond0.100'', ''bond0.200'', ''bond0.300'']"
  "map fst (section_of h200_document ''vlans'') = [''bond0.100'', ''bond0.200'', ''bond0.300'']"
  "map fst (section_of h200_document ''bonds'') = [''bond0'']"
  unfolding h200_document_def document_names by code_simp+

lemma h200_distinct: "distinct (map link_name (link_entries h200_document))"
  unfolding h200_links by code_simp

lemma h200_listed: "links_listed (map record_of (link_entries h200_document)) h200_document"
proof -
  have "link_names (map record_of es) (map link_name es)" if "distinct (map link_name es)" for es
    using that records_as_told(1) [OF that, of "hd es"] by (cases es) (simp_all add: link_names_def)
  from this [OF h200_distinct]
  have "link_names (map record_of (link_entries h200_document)) (map link_name (link_entries h200_document))" .
  moreover have "\<forall>b \<in> set [''bond0'']. \<forall>n \<in> set ([''nsa'', ''nsb''] @ rail_names 8
      @ [''bond0'', ''bond0.100'', ''bond0.200'', ''bond0.300'']).
      starts_with (b @ ''.'') n \<longrightarrow> n \<in> set [''bond0.100'', ''bond0.200'', ''bond0.300'']" by code_simp
  ultimately show ?thesis unfolding links_listed_def h200_links by blast
qed

lemma h200_gateways:
  "\<forall>e \<in> set (link_entries h200_document). \<forall>g \<in> set (default_gateways e).
     \<exists>l \<in> set (splitlines h200_routes). starts_with (''default via '' @ g @ '' dev '' @ link_name e) l"
  by code_simp

lemma h200_records: "ip_addr_json h200_probe = Inr (map record_of (link_entries h200_document))"
proof -
  have "concat (map (\<lambda>v. case v of PyDict d \<Rightarrow> [d] | _ \<Rightarrow> []) (map PyDict ds)) = ds" for ds
    by (induction ds) simp_all
  moreover have "py_strip ''links'' \<noteq> ''''" by code_simp
  ultimately show ?thesis
    by (simp add: ip_addr_json_def h200_probe_def py_iter_def dicts_of_def del: map_map)
qed

lemma h200_bond: "\<forall>e \<in> set (section_of h200_document ''bonds''). bond_reported h200_probe e"
proof -
  have "contains_str ''802.3ad'' h200_bonding" "count_str ''Slave Interface:'' h200_bonding = 2" by code_simp+
  moreover have "host_bond (canonicalize h200_intent) = cpu_bond" by code_simp
  ultimately show ?thesis
    by (simp add: h200_document_def document_sections bond_reported_def bond_entry)
       (simp add: h200_probe_def stanza_def cpu_bond_def)
qed

lemma h200_brought_up: "brought_up h200_probe h200_document"
  unfolding brought_up_def
proof (intro conjI)
  show "\<exists>records. ip_addr_json h200_probe = Inr records \<and> links_listed records h200_document
      \<and> (\<forall>e \<in> set (link_entries h200_document). link_as_told records e)"
    using h200_records h200_listed records_as_told(2) [OF h200_distinct] by blast
  show "routes_installed h200_probe h200_document"
    using h200_gateways by (simp add: routes_installed_def h200_probe_def)
qed (rule h200_bond)

lemma h200_modules_loaded: "modules_loaded h200_probe h200_modules"
proof -
  have "\<forall>m \<in> set (filter module_named h200_modules). \<exists>l \<in> set (drop 1 (splitlines h200_lsmod)). starts_with (m @ '' '') l"
    by code_simp
  then show ?thesis by (simp add: modules_loaded_def h200_probe_def)
qed

lemma h200_carries_out: "carries_out h200_probe (user_data_lines (canonicalize h200_intent))"
proof -
  have "host_role (canonicalize h200_intent) = GPU_H200" by (simp add: h200_intent_def)
  note written = h200_files [OF this]
  have "wf_intent h200_intent" by (rule load_wf_intent [OF h200_load])
  from read_netplan_file [OF this h200_conditions(3)]
  have "case read_yaml (block (netplan_document (canonicalize h200_intent))) of None \<Rightarrow> True
      | Some doc \<Rightarrow> brought_up h200_probe doc"
    using h200_brought_up by (simp add: h200_document_def)
  then show ?thesis
    unfolding carries_out_def written using h200_modules_loaded
    by (simp add: starts_with_def h200_probe_def [THEN arg_cong, of probe_read_text] written)
qed

theorem provisioned_h200_validates_witness:
  "\<exists>report. validate_main h200_probe 8 2044 3 True = Inr (report, 0)"
proof -
  have "host_role h200_intent = GPU_H200" by (simp add: h200_intent_def)
  moreover have "\<not> cloud_init_error h200_probe"
  proof -
    have "\<not> contains_str ''error'' (py_lower (''status: done'' @ ''''))" by code_simp
    then show ?thesis by (simp add: cloud_init_error_def h200_probe_def)
  qed
  ultimately show ?thesis
    using provisioned_h200_validates [OF h200_load _ h200_conditions(1,2,3) h200_carries_out, of True] by auto
qed

end
