(* ===== verification/Jinja.thy ===== *)
theory Jinja
  imports Pyval Emitter
begin

text \<open>
  The part of Jinja the templates use, with the settings of
  src/host_config/render/environment.py: expressions \<open>x.a.b\<close> printed inside a line, \<open>for\<close>
  loops, and the tests \<open>is not none\<close> and truth of a value. Every tag and comment of the
  templates stands on a line of its own, which \<open>trim_blocks\<close> and \<open>lstrip_blocks\<close> remove, so a
  template is a list of lines and blocks. \<open>StrictUndefined\<close> is a value of its own: printing,
  iterating, testing the truth of, or taking an attribute of an undefined value raises
  \<open>UndefinedError\<close>; \<open>is not none\<close> does not. A type checker for templates and its soundness
  follow: a template that checks never meets an undefined value and prints only text and
  numbers.
\<close>

section \<open>Templates\<close>

type_synonym path = "string \<times> string list"

datatype piece = Lit string | Raw utext | Var path

datatype node =
    Line "piece list"
  | For string path "node list"
  | IfSome path "node list"
  | IfTrue path "node list"

abbreviation "Var0 x \<equiv> Var (x, [])"
abbreviation "Var1 x a \<equiv> Var (x, [a])"


section \<open>Expressions\<close>

text \<open>
  The result of an expression: a value, or undefined with the message its use raises. The
  attributes Python's own types have (\<open>dict.items\<close>, \<open>str.title\<close>) come before the items of a
  dict and are a parameter, \<open>attrs\<close>; those of a dict are the names listed.
\<close>

datatype lookup = Value pyval | Undefined string

type_synonym attributes = "pyval \<Rightarrow> string \<Rightarrow> lookup"

definition DICT_ATTRIBUTES :: "string list" where
  "DICT_ATTRIBUTES =
     [''clear'', ''copy'', ''fromkeys'', ''get'', ''items'', ''keys'', ''pop'', ''popitem'', ''setdefault'',
      ''update'', ''values'']"

definition dunder :: "string \<Rightarrow> bool" where
  "dunder a \<longleftrightarrow> starts_with ''__'' a"

definition no_attribute :: "string \<Rightarrow> string \<Rightarrow> string" where
  "no_attribute what a = repr_str (what @ '' object'') @ '' has no attribute '' @ repr_str a"

definition get_attribute :: "attributes \<Rightarrow> pyval \<Rightarrow> string \<Rightarrow> lookup" where
  "get_attribute attrs v a = (case v of
      PyDict d \<Rightarrow>
        if a \<in> set DICT_ATTRIBUTES \<or> dunder a then attrs v a
        else (case map_of d a of Some w \<Rightarrow> Value w | None \<Rightarrow> Undefined (no_attribute ''dict'' a))
    | _ \<Rightarrow> attrs v a)"

definition undefined_error :: "string \<Rightarrow> exn" where
  "undefined_error m = ExternalError (''UndefinedError: '' @ m)"

type_synonym bindings = "(string \<times> pyval) list"

definition lookup_name :: "bindings \<Rightarrow> string \<Rightarrow> lookup" where
  "lookup_name env x = (case map_of env x of
      Some v \<Rightarrow> Value v | None \<Rightarrow> Undefined (repr_str x @ '' is undefined''))"

fun follow :: "attributes \<Rightarrow> string list \<Rightarrow> lookup \<Rightarrow> exn + lookup" where
  "follow attrs [] r = Inr r"
| "follow attrs (a # as) (Value v) = follow attrs as (get_attribute attrs v a)"
| "follow attrs (a # as) (Undefined m) = Inl (undefined_error m)"

definition evaluate :: "attributes \<Rightarrow> bindings \<Rightarrow> path \<Rightarrow> exn + lookup" where
  "evaluate attrs env p = (case p of (x, as) \<Rightarrow> follow attrs as (lookup_name env x))"

text \<open>The value an expression must have where it is printed, iterated or tested.\<close>

definition defined :: "lookup \<Rightarrow> exn + pyval" where
  "defined r = (case r of Value v \<Rightarrow> Inr v | Undefined m \<Rightarrow> Inl (undefined_error m))"

definition value_of :: "attributes \<Rightarrow> bindings \<Rightarrow> path \<Rightarrow> exn + pyval" where
  "value_of attrs env p = rbind (evaluate attrs env p) defined"


section \<open>Rendering\<close>

text \<open>\<open>show\<close> turns a printed value into text; Jinja's is \<open>str\<close>.\<close>

primrec piece_text :: "attributes \<Rightarrow> (pyval \<Rightarrow> string) \<Rightarrow> bindings \<Rightarrow> piece \<Rightarrow> exn + utext" where
  "piece_text attrs show env (Lit s) = Inr (utext_of s)"
| "piece_text attrs show env (Raw u) = Inr u"
| "piece_text attrs show env (Var p) = rbind (value_of attrs env p) (\<lambda>v. Inr (utext_of (show v)))"

definition line_text :: "attributes \<Rightarrow> (pyval \<Rightarrow> string) \<Rightarrow> bindings \<Rightarrow> piece list \<Rightarrow> exn + utext" where
  "line_text attrs show env ps = rbind (rmap (piece_text attrs show env) ps) (\<lambda>us. Inr (concat us))"

fun render_node :: "attributes \<Rightarrow> (pyval \<Rightarrow> string) \<Rightarrow> bindings \<Rightarrow> node \<Rightarrow> exn + utext list"
  and render_nodes :: "attributes \<Rightarrow> (pyval \<Rightarrow> string) \<Rightarrow> bindings \<Rightarrow> node list \<Rightarrow> exn + utext list"
where
  "render_node attrs show env (Line ps) = rbind (line_text attrs show env ps) (\<lambda>l. Inr [l])"
| "render_node attrs show env (For x p body) =
     rbind (value_of attrs env p) (\<lambda>v.
     rbind (py_iter v) (\<lambda>vs.
     rbind (rmap (\<lambda>w. render_nodes attrs show ((x, w) # env) body) vs) (\<lambda>lss.
     Inr (concat lss))))"
| "render_node attrs show env (IfSome p body) =
     rbind (evaluate attrs env p) (\<lambda>r.
     if r = Value PyNone then Inr [] else render_nodes attrs show env body)"
| "render_node attrs show env (IfTrue p body) =
     rbind (value_of attrs env p) (\<lambda>v.
     if py_truthy v then render_nodes attrs show env body else Inr [])"
| "render_nodes attrs show env [] = Inr []"
| "render_nodes attrs show env (n # ns) =
     rbind (render_node attrs show env n) (\<lambda>ls.
     rbind (render_nodes attrs show env ns) (\<lambda>ms. Inr (ls @ ms)))"

lemma render_nodes_append: "render_nodes attrs show env (ms @ ns) =
    rbind (render_nodes attrs show env ms) (\<lambda>ls. rbind (render_nodes attrs show env ns) (\<lambda>ks. Inr (ls @ ks)))"
  by (induction ms) (auto simp: rbind_def split: sum.splits)


section \<open>Types\<close>

datatype ty = TStr | TInt | TOpt ty | TList ty | TDict "(string \<times> ty) list"

inductive typed :: "pyval \<Rightarrow> ty \<Rightarrow> bool" where
  str: "typed (PyStr s) TStr"
| int: "typed (PyInt i) TInt"
| none: "typed PyNone (TOpt t)"
| some: "typed v t \<Longrightarrow> typed v (TOpt t)"
| list: "\<forall>v \<in> set vs. typed v t \<Longrightarrow> typed (PyList vs) (TList t)"
| dict: "\<forall>k t. map_of ts k = Some t \<longrightarrow> (\<exists>v. map_of d k = Some v \<and> typed v t) \<Longrightarrow> typed (PyDict d) (TDict ts)"

inductive_cases typedE: "typed v TStr" "typed v TInt" "typed v (TOpt t)" "typed v (TList t)" "typed v (TDict ts)"

type_synonym types = "(string \<times> ty) list"

definition well_bound :: "types \<Rightarrow> bindings \<Rightarrow> bool" where
  "well_bound \<Gamma> env \<longleftrightarrow> (\<forall>x t. map_of \<Gamma> x = Some t \<longrightarrow> (\<exists>v. map_of env x = Some v \<and> typed v t))"

fun follow_type :: "string list \<Rightarrow> ty \<Rightarrow> ty option" where
  "follow_type [] t = Some t"
| "follow_type (a # as) (TDict ts) =
     (if a \<in> set DICT_ATTRIBUTES \<or> dunder a then None
      else case map_of ts a of None \<Rightarrow> None | Some t \<Rightarrow> follow_type as t)"
| "follow_type (a # as) t = None"

definition path_type :: "types \<Rightarrow> path \<Rightarrow> ty option" where
  "path_type \<Gamma> p = (case p of (x, as) \<Rightarrow>
     case map_of \<Gamma> x of None \<Rightarrow> None | Some t \<Rightarrow> follow_type as t)"

text \<open>Inside \<open>if p is not none\<close>, the optional type of \<open>p\<close> is the type under it.\<close>

fun refine :: "string list \<Rightarrow> ty \<Rightarrow> ty" where
  "refine [] (TOpt t) = t"
| "refine (a # as) (TDict ts) = TDict (map (\<lambda>(k, t). (k, if k = a then refine as t else t)) ts)"
| "refine _ t = t"

definition refine_types :: "path \<Rightarrow> types \<Rightarrow> types" where
  "refine_types p \<Gamma> = (case p of (x, as) \<Rightarrow>
     case map_of \<Gamma> x of None \<Rightarrow> \<Gamma> | Some t \<Rightarrow> (x, refine as t) # \<Gamma>)"

primrec check_piece :: "types \<Rightarrow> piece \<Rightarrow> bool" where
  "check_piece \<Gamma> (Lit s) \<longleftrightarrow> True"
| "check_piece \<Gamma> (Raw u) \<longleftrightarrow> True"
| "check_piece \<Gamma> (Var p) \<longleftrightarrow> path_type \<Gamma> p = Some TStr \<or> path_type \<Gamma> p = Some TInt"

fun check_node :: "types \<Rightarrow> node \<Rightarrow> bool"
  and check_nodes :: "types \<Rightarrow> node list \<Rightarrow> bool"
where
  "check_node \<Gamma> (Line ps) \<longleftrightarrow> list_all (check_piece \<Gamma>) ps"
| "check_node \<Gamma> (For x p body) \<longleftrightarrow> (case path_type \<Gamma> p of
      Some (TList t) \<Rightarrow> check_nodes ((x, t) # \<Gamma>) body | _ \<Rightarrow> False)"
| "check_node \<Gamma> (IfSome p body) \<longleftrightarrow> (case path_type \<Gamma> p of
      Some (TOpt t) \<Rightarrow> check_nodes (refine_types p \<Gamma>) body | _ \<Rightarrow> False)"
| "check_node \<Gamma> (IfTrue p body) \<longleftrightarrow> path_type \<Gamma> p \<noteq> None \<and> check_nodes \<Gamma> body"
| "check_nodes \<Gamma> [] \<longleftrightarrow> True"
| "check_nodes \<Gamma> (n # ns) \<longleftrightarrow> check_node \<Gamma> n \<and> check_nodes \<Gamma> ns"


section \<open>Soundness\<close>

lemma map_of_map_key: "map_of (map (\<lambda>(k, t). (k, f k t)) ts) k = map_option (f k) (map_of ts k)"
  by (induction ts) auto

lemma follow_typed:
  assumes "typed v t" and "follow_type as t = Some t'"
  shows "\<exists>w. (\<forall>attrs. follow attrs as (Value v) = Inr (Value w)) \<and> typed w t' \<and> (w \<noteq> PyNone \<longrightarrow> typed v (refine as t))"
  using assms
proof (induction as t arbitrary: v rule: follow_type.induct)
  case (1 t)
  then show ?case by (cases t) (auto elim: typedE)
next
  case (2 a as ts)
  obtain d where d: "v = PyDict d"
      and items: "\<And>k u. map_of ts k = Some u \<Longrightarrow> \<exists>w. map_of d k = Some w \<and> typed w u"
    using 2(2) by (auto elim: typedE)
  obtain u where u: "\<not> (a \<in> set DICT_ATTRIBUTES \<or> dunder a)" "map_of ts a = Some u" "follow_type as u = Some t'"
    using 2(3) by (auto split: if_splits option.splits)
  obtain x where x: "map_of d a = Some x" "typed x u" using items u(2) by blast
  obtain w where w: "\<And>attrs. follow attrs as (Value x) = Inr (Value w)" "typed w t'"
      "w \<noteq> PyNone \<longrightarrow> typed x (refine as u)"
    using 2(1) [OF u(1,2) x(2) u(3)] by blast
  have "typed v (refine (a # as) (TDict ts))" if "w \<noteq> PyNone"
    unfolding d refine.simps
  proof (rule typed.dict, intro allI impI)
    fix k s assume "map_of (map (\<lambda>(k, t). (k, if k = a then refine as t else t)) ts) k = Some s"
    then obtain s0 where "map_of ts k = Some s0" "s = (if k = a then refine as s0 else s0)"
      by (auto simp: map_of_map_key)
    then show "\<exists>v. map_of d k = Some v \<and> typed v s"
      using items x(1) w(3) that u(2) by (cases "k = a") auto
  qed
  then show ?case using w u x(1) by (auto simp: d get_attribute_def)
qed auto

lemma evaluate_typed:
  assumes "well_bound \<Gamma> env" and "path_type \<Gamma> p = Some t"
  shows "\<exists>w. (\<forall>attrs. evaluate attrs env p = Inr (Value w)) \<and> typed w t
    \<and> (w \<noteq> PyNone \<longrightarrow> well_bound (refine_types p \<Gamma>) env)"
proof -
  obtain x as where p: "p = (x, as)" by force
  obtain u where u: "map_of \<Gamma> x = Some u" "follow_type as u = Some t"
    using assms(2) by (auto simp: p path_type_def split: option.splits)
  obtain v where v: "map_of env x = Some v" "typed v u"
    using assms(1) u(1) unfolding well_bound_def by blast
  then show ?thesis
    using follow_typed [OF v(2) u(2)] assms(1) u(1)
    by (auto simp: p evaluate_def lookup_name_def refine_types_def well_bound_def)
qed

lemma value_typed:
  assumes "well_bound \<Gamma> env" and "path_type \<Gamma> p = Some t"
  shows "\<exists>w. (\<forall>attrs. value_of attrs env p = Inr w) \<and> typed w t"
  using evaluate_typed [OF assms] by (auto simp: value_of_def defined_def)

lemma well_bound_Cons: "well_bound \<Gamma> env \<Longrightarrow> typed v t \<Longrightarrow> well_bound ((x, t) # \<Gamma>) ((x, v) # env)"
  by (simp add: well_bound_def)

text \<open>
  \<open>agree show show'\<close>: the two ways of printing differ only on values that are neither text
  nor numbers.
\<close>

definition agree :: "(pyval \<Rightarrow> string) \<Rightarrow> (pyval \<Rightarrow> string) \<Rightarrow> bool" where
  "agree show show' \<longleftrightarrow> (\<forall>s. show (PyStr s) = show' (PyStr s)) \<and> (\<forall>i. show (PyInt i) = show' (PyInt i))"

lemma typed_show: "typed v TStr \<or> typed v TInt \<Longrightarrow> agree show show' \<Longrightarrow> show' v = show v"
  by (auto simp: agree_def elim: typedE)

lemma piece_sound:
  assumes "check_piece \<Gamma> p" and "well_bound \<Gamma> env"
  shows "\<exists>u. \<forall>attrs show'. agree show show' \<longrightarrow> piece_text attrs show' env p = Inr u"
proof (cases p)
  case (Var q)
  then obtain t where "path_type \<Gamma> q = Some t" "t = TStr \<or> t = TInt" using assms(1) by auto
  then obtain w where "\<And>attrs. value_of attrs env q = Inr w" "typed w TStr \<or> typed w TInt"
    using value_typed [OF assms(2)] by metis
  moreover from this(2) have "show' w = show w" if "agree show show'" for show'
    using typed_show that by blast
  ultimately show ?thesis using Var by (intro exI [of _ "utext_of (show w)"]) simp
qed auto

lemma line_sound:
  assumes "list_all (check_piece \<Gamma>) ps" and "well_bound \<Gamma> env"
  shows "\<exists>u. \<forall>attrs show'. agree show show' \<longrightarrow> line_text attrs show' env ps = Inr u"
proof -
  have "\<forall>p \<in> set ps. \<exists>u. \<forall>attrs show'. agree show show' \<longrightarrow> piece_text attrs show' env p = Inr u"
    using assms piece_sound by (auto simp: list_all_iff)
  then obtain g where "\<forall>p \<in> set ps. \<forall>attrs show'. agree show show' \<longrightarrow> piece_text attrs show' env p = Inr (g p)"
    by (rule bchoice [THEN exE])
  then show ?thesis
    by (intro exI [of _ "concat (map g ps)"]) (auto simp: line_text_def rmap_total [of ps _ g])
qed

lemma check_sound:
  "check_node \<Gamma> n \<Longrightarrow> well_bound \<Gamma> env \<Longrightarrow>
    \<exists>ls. \<forall>attrs show'. agree show show' \<longrightarrow> render_node attrs show' env n = Inr ls"
  "check_nodes \<Gamma> ns \<Longrightarrow> well_bound \<Gamma> env \<Longrightarrow>
    \<exists>ls. \<forall>attrs show'. agree show show' \<longrightarrow> render_nodes attrs show' env ns = Inr ls"
proof (induction \<Gamma> n and \<Gamma> ns arbitrary: env and env rule: check_node_check_nodes.induct)
  case (1 \<Gamma> ps)
  obtain u where "\<forall>attrs show'. agree show show' \<longrightarrow> line_text attrs show' env ps = Inr u"
    using line_sound [OF _ 1(2), of ps "show"] 1(1) by (simp only: check_node.simps) blast
  then show ?case by (intro exI [of _ "[u]"]) simp
next
  case (2 \<Gamma> x p body)
  obtain t where t: "path_type \<Gamma> p = Some (TList t)" "check_nodes ((x, t) # \<Gamma>) body"
    using 2(2) by (auto split: option.splits ty.splits)
  obtain vs where vs: "\<And>attrs. value_of attrs env p = Inr (PyList vs)" "\<forall>v \<in> set vs. typed v t"
    using value_typed [OF 2(3) t(1)] by (auto elim: typedE)
  have "\<forall>v \<in> set vs. \<exists>ls. \<forall>attrs show'. agree show show' \<longrightarrow>
      render_nodes attrs show' ((x, v) # env) body = Inr ls"
    using 2(1) [OF t(1) refl t(2) well_bound_Cons [OF 2(3)]] vs(2) by blast
  then obtain g where g: "\<forall>v \<in> set vs. \<forall>attrs show'. agree show show' \<longrightarrow>
      render_nodes attrs show' ((x, v) # env) body = Inr (g v)"
    by (rule bchoice [THEN exE])
  then show ?case
    by (intro exI [of _ "concat (map g vs)"]) (auto simp: vs(1) py_iter_def rmap_total [of vs _ g])
next
  case (3 \<Gamma> p body)
  obtain t where t: "path_type \<Gamma> p = Some (TOpt t)" "check_nodes (refine_types p \<Gamma>) body"
    using 3(2) by (auto split: option.splits ty.splits)
  obtain w where w: "\<And>attrs. evaluate attrs env p = Inr (Value w)"
      "w \<noteq> PyNone \<longrightarrow> well_bound (refine_types p \<Gamma>) env"
    using evaluate_typed [OF 3(3) t(1)] by blast
  show ?case
  proof (cases "w = PyNone")
    case False
    then show ?thesis using 3(1) [OF t(1) refl t(2)] w(2) by (simp add: w(1))
  qed (simp add: w(1))
next
  case (4 \<Gamma> p body)
  obtain t where t: "path_type \<Gamma> p = Some t" "check_nodes \<Gamma> body" using 4(2) by auto
  obtain w where w: "\<And>attrs. value_of attrs env p = Inr w" using value_typed [OF 4(3) t(1)] by blast
  show ?case using 4(1) [OF t(2) 4(3)] by (cases "py_truthy w") (auto simp: w)
next
  case (6 \<Gamma> n ns)
  obtain ls where ls: "\<forall>attrs show'. agree show show' \<longrightarrow> render_node attrs show' env n = Inr ls"
    using 6(1) [OF _ 6(4)] 6(3) by auto
  obtain ms where "\<forall>attrs show'. agree show show' \<longrightarrow> render_nodes attrs show' env ns = Inr ms"
    using 6(2) [OF _ 6(4)] 6(3) by auto
  with ls show ?case by (intro exI [of _ "ls @ ms"]) simp
qed simp

end
