(* ===== verification/Template_Source.thy ===== *)
theory Template_Source
  imports Jinja Samples
begin

text \<open>
  The templates of src/host_config/render/templates as the Jinja programs they are, and the
  context \<open>intent.model_dump(mode='python')\<close> they are rendered with. Each renders, without
  reference to Python's own attributes, to the lines of Templates and User_Data.
\<close>

section \<open>The template context\<close>

definition dump_phys :: "'a phys_iface_scheme \<Rightarrow> pydict" where
  "dump_phys n = [(''name'', PyStr (nic_name n)), (''mac'', PyStr (nic_mac n)), (''mtu'', PyInt (nic_mtu n))]"

definition dump_bond_member :: "bond_member \<Rightarrow> pyval" where
  "dump_bond_member n = PyDict (dump_phys n)"

definition dump_roce :: "roce_underlay \<Rightarrow> pyval" where
  "dump_roce n = PyDict (dump_phys n @
     [(''sriov_vfs'', PyInt (nic_sriov_vfs n)), (''address'', PyStr (interface_str (roce_address n)))])"

definition dump_ib :: "infiniband_underlay \<Rightarrow> pyval" where
  "dump_ib n = PyDict (dump_phys n @ [(''address'', PyStr (interface_str (ib_address n)))])"

definition dump_bond :: "bond \<Rightarrow> pyval" where
  "dump_bond b = PyDict
     [(''name'', PyStr (bond_name b)), (''members'', PyList (map PyStr (bond_members b))),
      (''mode'', PyStr (bond_mode_value (bond_mode b))),
      (''lacp_rate'', PyStr (lacp_rate_value (bond_lacp_rate b))),
      (''transmit_hash_policy'', PyStr (hash_policy_value (bond_hash_policy b))),
      (''mtu'', PyInt (bond_mtu b))]"

definition opt_str :: "('a \<Rightarrow> string) \<Rightarrow> 'a option \<Rightarrow> pyval" where
  "opt_str f x = (case x of None \<Rightarrow> PyNone | Some y \<Rightarrow> PyStr (f y))"

definition dump_vlan :: "vlan_child \<Rightarrow> pyval" where
  "dump_vlan v = PyDict
     [(''name'', PyStr (vlan_name v)), (''parent'', PyStr (vlan_parent v)), (''vlan_id'', PyInt (vlan_id v)),
      (''role'', PyStr (vlan_role_value (vlan_role v))), (''mtu'', PyInt (vlan_mtu v)),
      (''address'', PyStr (interface_str (vlan_address v))), (''gateway'', opt_str ipv4_str (vlan_gateway v)),
      (''dns'', PyList (map (\<lambda>w. PyStr (ipv4_str w)) (vlan_dns v))),
      (''search_domain'', opt_str (\<lambda>s. s) (vlan_search_domain v))]"

text \<open>
  Values print as their text, so an address stands for itself as text. \<open>now\<close> is the clock
  value the renderer adds; no template mentions it.
\<close>

definition template_context :: "host_intent \<Rightarrow> pyval \<Rightarrow> bindings" where
  "template_context i now =
     [(''asset_tag'', PyStr (asset_tag i)), (''hostname'', PyStr (hostname i)),
      (''role'', PyStr (role_value (host_role i))), (''ns_nics'', PyList (map dump_bond_member (ns_nics i))),
      (''bond'', dump_bond (host_bond i)), (''vlans'', PyList (map dump_vlan (vlans i))),
      (''roce_underlays'', PyList (map dump_roce (roce_underlays i))),
      (''ib_underlays'', PyList (map dump_ib (ib_underlays i))), (''now'', now)]"


section \<open>meta-data.j2 and network-config.j2\<close>

definition meta_data_source :: "node list" where
  "meta_data_source =
     [Line [Lit ''instance-id: '', Var0 ''asset_tag''],
      Line [Lit ''local-hostname: '', Var0 ''hostname'']]"

text \<open>
  The network-config templates and the Netplan file inside user-data write the same blocks,
  the latter deeper by \<open>pad\<close>.
\<close>

definition ethernet_source :: "string \<Rightarrow> node list" where
  "ethernet_source pad =
     [Line [Lit (pad @ ''    ''), Var1 ''nic'' ''name'', Lit '':''],
      Line [Lit (pad @ ''      match:'')],
      Line [Lit (pad @ ''        macaddress: ''), Var1 ''nic'' ''mac''],
      Line [Lit (pad @ ''      set-name: ''), Var1 ''nic'' ''name''],
      Line [Lit (pad @ ''      mtu: ''), Var1 ''nic'' ''mtu'']]"

definition east_west_source :: "string \<Rightarrow> role \<Rightarrow> node list" where
  "east_west_source pad r =
     (let address = [Line [Lit (pad @ ''      addresses:'')],
                     Line [Lit (pad @ ''        - ''), Var1 ''nic'' ''address'']];
          vfs = [Line [Lit (pad @ ''      virtual-function-count: ''), Var1 ''nic'' ''sriov_vfs'']];
          roce = [For ''nic'' (''roce_underlays'', []) (ethernet_source pad @ address @ vfs)];
          ib = [For ''nic'' (''ib_underlays'', []) (ethernet_source pad @ address)]
      in case r of CPU \<Rightarrow> [] | GPU_B300 \<Rightarrow> roce | GPU_B200 \<Rightarrow> roce | GPU_H200 \<Rightarrow> ib)"

definition bond_source :: "string \<Rightarrow> node list" where
  "bond_source pad =
     [Line [Lit (pad @ ''    ''), Var1 ''bond'' ''name'', Lit '':''],
      Line [Lit (pad @ ''      interfaces:'')],
      For ''member'' (''bond'', [''members'']) [Line [Lit (pad @ ''        - ''), Var0 ''member'']],
      Line [Lit (pad @ ''      mtu: ''), Var1 ''bond'' ''mtu''],
      Line [Lit (pad @ ''      parameters:'')],
      Line [Lit (pad @ ''        mode: ''), Var1 ''bond'' ''mode''],
      Line [Lit (pad @ ''        lacp-rate: ''), Var1 ''bond'' ''lacp_rate''],
      Line [Lit (pad @ ''        transmit-hash-policy: ''), Var1 ''bond'' ''transmit_hash_policy'']]"

definition vlan_source :: "string \<Rightarrow> node list" where
  "vlan_source pad =
     [Line [Lit (pad @ ''    ''), Var1 ''vlan'' ''name'', Lit '':''],
      Line [Lit (pad @ ''      id: ''), Var1 ''vlan'' ''vlan_id''],
      Line [Lit (pad @ ''      link: ''), Var1 ''vlan'' ''parent''],
      Line [Lit (pad @ ''      mtu: ''), Var1 ''vlan'' ''mtu''],
      Line [Lit (pad @ ''      addresses:'')],
      Line [Lit (pad @ ''        - ''), Var1 ''vlan'' ''address''],
      IfSome (''vlan'', [''gateway''])
        [Line [Lit (pad @ ''      routes:'')],
         Line [Lit (pad @ ''        - to: default'')],
         Line [Lit (pad @ ''          via: ''), Var1 ''vlan'' ''gateway'']],
      IfTrue (''vlan'', [''dns''])
        [Line [Lit (pad @ ''      nameservers:'')],
         Line [Lit (pad @ ''        addresses:'')],
         For ''ns'' (''vlan'', [''dns'']) [Line [Lit (pad @ ''          - ''), Var0 ''ns'']],
         IfSome (''vlan'', [''search_domain''])
           [Line [Lit (pad @ ''        search:'')],
            Line [Lit (pad @ ''          - ''), Var1 ''vlan'' ''search_domain'']]]]"

definition network_config_source :: "role \<Rightarrow> node list" where
  "network_config_source r =
     [Line [Lit ''network:''], Line [Lit ''  version: 2''], Line [Lit ''  renderer: networkd''],
      Line [], Line [Lit ''  ethernets:''],
      For ''nic'' (''ns_nics'', []) (ethernet_source '''')] @
     east_west_source '''' r @
     [Line [], Line [Lit ''  bonds:'']] @ bond_source '''' @
     [Line [], Line [Lit ''  vlans:''], For ''vlan'' (''vlans'', []) (vlan_source '''')]"


section \<open>user-data.j2\<close>

definition verbatim :: "utext list \<Rightarrow> node list" where
  "verbatim us = map (\<lambda>u. Line [Raw u]) us"

definition netplan_source :: "role \<Rightarrow> node list" where
  "netplan_source r =
     verbatim (plain
       [''  - path: /etc/netplan/60-lab.yaml'',
        ''    permissions: '' @ [CHR 0x27] @ ''0600'' @ [CHR 0x27],
        ''    owner: root:root'', ''    content: |'',
        ''      network:'', ''        version: 2'', ''        renderer: networkd'', ''        ethernets:'']) @
     [For ''nic'' (''ns_nics'', []) (ethernet_source ''      '')] @
     east_west_source ''      '' r @
     [Line [Lit ''        bonds:'']] @ bond_source ''      '' @
     [Line [Lit ''        vlans:''], For ''vlan'' (''vlans'', []) (vlan_source ''      '')]"

definition cpu_user_data_source :: "node list" where
  "cpu_user_data_source =
     [Line [Lit ''#cloud-config''],
      Line [Lit ''hostname: '', Var0 ''hostname''], Line [Lit ''fqdn: '', Var0 ''hostname''],
      Line [Lit ''manage_etc_hosts: true''], Line [], Line [Lit ''preserve_hostname: false''],
      Line [], Line [Lit ''write_files:'']] @
     netplan_source CPU @
     [Line [], Line [Lit ''runcmd:''], Line [Lit ''  - netplan apply'']]"

definition gpu_identity_source :: "node list" where
  "gpu_identity_source =
     [Line [Lit ''#cloud-config''],
      Line [Lit ''hostname: '', Var0 ''hostname''], Line [Lit ''fqdn: '', Var0 ''hostname''],
      Line [Lit ''manage_etc_hosts: true''], Line [Lit ''preserve_hostname: false''], Line []]"

text \<open>The RoCE templates name their role in a comment line and make one rxe device per NIC.\<close>

definition roce_user_data_source :: "role \<Rightarrow> node list" where
  "roce_user_data_source r =
     gpu_identity_source @ verbatim (plain roce_limits_lines) @ netplan_source r @
     verbatim roce_install_lines @
     [Line [Lit (''  # Names match the '' @ role_value r @ '' network-config (gpu0..gpu7 after Netplan renames).'')],
      For ''nic'' (''roce_underlays'', [])
        [Line [Lit ''  - >-''],
         Line [Lit ''    rdma link show rxe_'', Var1 ''nic'' ''name'', Lit '' > /dev/null 2>&1 ||''],
         Line [Lit ''    rdma link add rxe_'', Var1 ''nic'' ''name'', Lit '' type rxe netdev '',
               Var1 ''nic'' ''name'', Lit '' || true'']]] @
     verbatim roce_pin_lines"

definition ib_user_data_source :: "node list" where
  "ib_user_data_source =
     gpu_identity_source @ verbatim (plain (ib_limits_lines @ ib_modules_lines)) @
     netplan_source GPU_H200 @ verbatim ib_install_lines"

definition user_data_source :: "role \<Rightarrow> node list" where
  "user_data_source r = (case r of
      CPU \<Rightarrow> cpu_user_data_source
    | GPU_B300 \<Rightarrow> roce_user_data_source GPU_B300
    | GPU_B200 \<Rightarrow> roce_user_data_source GPU_B200
    | GPU_H200 \<Rightarrow> ib_user_data_source)"

text \<open>The template tree: \<open><role>/<file kind>.j2\<close>\<close>

definition template_source :: "role \<Rightarrow> file_kind \<Rightarrow> node list" where
  "template_source r k = (case k of
      META_DATA \<Rightarrow> meta_data_source
    | USER_DATA \<Rightarrow> user_data_source r
    | NETWORK_CONFIG \<Rightarrow> network_config_source r)"

section \<open>Rendering the sources\<close>

named_theorems jinja

lemma utext_of_simps [jinja]: "utext_of [] = []" "utext_of (c # s) = of_char c # utext_of s"
    "utext_of (s @ t) = utext_of s @ utext_of t"
  by (simp_all add: utext_of_def)

lemmas [jinja] = line_text_def value_of_def evaluate_def lookup_name_def get_attribute_def defined_def
  DICT_ATTRIBUTES_def dunder_def starts_with_def plain_def py_str_def


lemma render_loop:
  assumes "value_of attrs env p = Inr (PyList (map f xs))"
    and "\<And>x. render_nodes attrs show ((v, f x) # env) body = Inr (plain (g x))"
  shows "render_node attrs show env (For v p body) = Inr (plain (concat (map g xs)))"
proof -
  have "rmap (\<lambda>w. render_nodes attrs show ((v, w) # env) body) (map f xs) = Inr (map (\<lambda>x. plain (g x)) xs)"
    using assms(2) by (induction xs) simp_all
  then show ?thesis using assms(1) by (simp add: py_iter_def plain_def map_concat comp_def)
qed

lemma render_verbatim: "render_nodes attrs show env (verbatim us) = Inr us"
  by (induction us) (simp_all add: verbatim_def line_text_def)

lemma render_ethernet:
  assumes "map_of env ''nic'' = Some (PyDict (dump_phys n @ rest))"
  shows "render_nodes attrs py_str env (ethernet_source '''') = Inr (plain (ethernet_lines n))"
    and "render_nodes attrs py_str env (ethernet_source ''      '') = Inr (plain (ud_ethernet_lines n))"
  using assms
  by (simp_all add: jinja ethernet_source_def dump_phys_def ethernet_lines_def ud_ethernet_lines_def)

lemma concat_singletons: "concat (map (\<lambda>x. [f x]) xs) = map f xs"
  by (induction xs) simp_all

lemma render_bond:
  assumes "map_of env ''bond'' = Some (dump_bond b)"
  shows "render_nodes attrs py_str env (bond_source '''') = Inr (plain (bond_lines b))"
    and "render_nodes attrs py_str env (bond_source ''      '') = Inr (plain (ud_bond_lines b))"
proof -
  have members: "render_node attrs py_str env (For ''member'' (''bond'', [''members'']) [Line [Lit s, Var0 ''member'']])
      = Inr (plain (map (\<lambda>m. s @ m) (bond_members b)))" for s
    using render_loop [of attrs env "(''bond'', [''members''])" PyStr "bond_members b" py_str "''member''"
        "[Line [Lit s, Var0 ''member'']]" "\<lambda>m. [s @ m]"] assms
    by (simp add: jinja dump_bond_def concat_singletons del: render_node.simps(2))
  show "render_nodes attrs py_str env (bond_source '''') = Inr (plain (bond_lines b))"
    "render_nodes attrs py_str env (bond_source ''      '') = Inr (plain (ud_bond_lines b))"
    using assms members
    by (simp_all add: jinja bond_source_def dump_bond_def bond_lines_def ud_bond_lines_def
        del: render_node.simps(2))
qed

lemma render_dns:
  assumes "map_of env ''vlan'' = Some (dump_vlan v)"
  shows "render_node attrs py_str env (For ''ns'' (''vlan'', [''dns'']) [Line [Lit s, Var0 ''ns'']])
      = Inr (plain (map (\<lambda>w. s @ ipv4_str w) (vlan_dns v)))"
  using render_loop [of attrs env "(''vlan'', [''dns''])" "\<lambda>w. PyStr (ipv4_str w)" "vlan_dns v" py_str "''ns''"
      "[Line [Lit s, Var0 ''ns'']]" "\<lambda>w. [s @ ipv4_str w]"] assms
  by (simp add: jinja dump_vlan_def concat_singletons del: render_node.simps(2))

lemma render_vlan:
  assumes "map_of env ''vlan'' = Some (dump_vlan v)"
  shows "render_nodes attrs py_str env (vlan_source '''') = Inr (plain (vlan_lines v))"
    and "render_nodes attrs py_str env (vlan_source ''      '') = Inr (plain (ud_vlan_lines v))"
  using assms render_dns [OF assms]
  by (simp_all add: jinja vlan_source_def dump_vlan_def vlan_lines_def ud_vlan_lines_def gateway_lines_def
      dns_lines_def opt_str_def py_truthy_def del: render_node.simps(2) split: option.splits)

lemma render_address:
  assumes "map_of env ''nic'' = Some (PyDict d)" and "map_of d ''address'' = Some (PyStr a)"
  shows "render_nodes attrs py_str env [Line [Lit s], Line [Lit t, Var1 ''nic'' ''address'']] = Inr (plain [s, t @ a])"
  using assms by (simp add: jinja)

lemma render_list:
  assumes "map_of env xs_name = Some (PyList (map f xs))"
    and "\<And>x env. map_of env v = Some (f x) \<Longrightarrow> render_nodes attrs show env body = Inr (plain (g x))"
  shows "render_node attrs show env (For v (xs_name, []) body) = Inr (plain (concat (map g xs)))"
  by (rule render_loop [where f = f]) (simp_all add: assms value_of_def evaluate_def lookup_name_def defined_def)

lemma render_nics:
  assumes "map_of env ''ns_nics'' = Some (PyList (map dump_bond_member nics))"
  shows "render_node attrs py_str env (For ''nic'' (''ns_nics'', []) (ethernet_source ''''))
      = Inr (plain (concat (map ethernet_lines nics)))"
    and "render_node attrs py_str env (For ''nic'' (''ns_nics'', []) (ethernet_source ''      ''))
      = Inr (plain (concat (map ud_ethernet_lines nics)))"
  by (rule render_list [OF assms], rule render_ethernet [where rest = "[]"], simp add: dump_bond_member_def)+

lemma render_roce:
  assumes "map_of env ''nic'' = Some (dump_roce n)"
  shows "render_nodes attrs py_str env (ethernet_source '''' @ [Line [Lit ''      addresses:''],
        Line [Lit ''        - '', Var1 ''nic'' ''address''], Line [Lit ''      virtual-function-count: '', Var1 ''nic'' ''sriov_vfs'']])
      = Inr (plain (roce_lines n))"
    and "render_nodes attrs py_str env (ethernet_source ''      '' @ [Line [Lit ''            addresses:''],
        Line [Lit ''              - '', Var1 ''nic'' ''address''],
        Line [Lit ''            virtual-function-count: '', Var1 ''nic'' ''sriov_vfs'']])
      = Inr (plain (ud_ethernet_lines n @ [''            addresses:'',
             ''              - '' @ interface_str (roce_address n),
             ''            virtual-function-count: '' @ str_int (nic_sriov_vfs n)]))"
  using assms render_ethernet [of env n]
  by (simp_all add: render_nodes_append dump_roce_def roce_lines_def) (simp_all add: jinja dump_phys_def)

lemma render_ib:
  assumes "map_of env ''nic'' = Some (dump_ib n)"
  shows "render_nodes attrs py_str env (ethernet_source '''' @ [Line [Lit ''      addresses:''],
        Line [Lit ''        - '', Var1 ''nic'' ''address'']]) = Inr (plain (ib_lines n))"
    and "render_nodes attrs py_str env (ethernet_source ''      '' @ [Line [Lit ''            addresses:''],
        Line [Lit ''              - '', Var1 ''nic'' ''address'']])
      = Inr (plain (ud_ethernet_lines n @ [''            addresses:'', ''              - '' @ interface_str (ib_address n)]))"
  using assms render_ethernet [of env n]
  by (simp_all add: render_nodes_append dump_ib_def ib_lines_def) (simp_all add: jinja dump_phys_def)

lemma render_east_west:
  assumes "map_of env ''roce_underlays'' = Some (PyList (map dump_roce (roce_underlays i)))"
    and "map_of env ''ib_underlays'' = Some (PyList (map dump_ib (ib_underlays i)))"
  shows "render_nodes attrs py_str env (east_west_source '''' (host_role i)) = Inr (plain (east_west_lines i))"
    and "render_nodes attrs py_str env (east_west_source ''      '' (host_role i)) = Inr (plain (ud_east_west_lines i))"
proof -
  note loops = render_list [OF assms(1) render_roce(1)] render_list [OF assms(1) render_roce(2)]
    render_list [OF assms(2) render_ib(1)] render_list [OF assms(2) render_ib(2)]
  show "render_nodes attrs py_str env (east_west_source '''' (host_role i)) = Inr (plain (east_west_lines i))"
    using loops(1,3) by (cases "host_role i")
      (simp_all add: east_west_source_def east_west_lines_def plain_def del: render_node.simps(2))
  show "render_nodes attrs py_str env (east_west_source ''      '' (host_role i)) = Inr (plain (ud_east_west_lines i))"
    using loops(2,4) by (cases "host_role i")
      (simp_all add: east_west_source_def ud_east_west_lines_def plain_def Let_def del: render_node.simps(2))
qed

text \<open>What the blocks read of the context\<close>

lemma context_items:
  "map_of (template_context i now) ''asset_tag'' = Some (PyStr (asset_tag i))"
  "map_of (template_context i now) ''hostname'' = Some (PyStr (hostname i))"
  "map_of (template_context i now) ''ns_nics'' = Some (PyList (map dump_bond_member (ns_nics i)))"
  "map_of (template_context i now) ''bond'' = Some (dump_bond (host_bond i))"
  "map_of (template_context i now) ''vlans'' = Some (PyList (map dump_vlan (vlans i)))"
  "map_of (template_context i now) ''roce_underlays'' = Some (PyList (map dump_roce (roce_underlays i)))"
  "map_of (template_context i now) ''ib_underlays'' = Some (PyList (map dump_ib (ib_underlays i)))"
  by (simp_all add: template_context_def)

lemmas render_blocks =
  render_nics [OF context_items(3)] render_bond [OF context_items(4)]
  render_list [OF context_items(5) render_vlan(1)] render_list [OF context_items(5) render_vlan(2)]
  render_east_west [OF context_items(6,7)] render_verbatim

lemma render_network_config:
  "render_nodes attrs py_str (template_context i now) (network_config_source (host_role i))
    = Inr (plain (network_config_lines i))"
  by (simp add: network_config_source_def network_config_lines_def render_nodes_append render_blocks
      plain_def line_text_def utext_of_simps del: render_node.simps(2))

lemma render_netplan:
  "render_nodes attrs py_str (template_context i now) (netplan_source (host_role i))
    = Inr (plain (netplan_file_lines i))"
  by (simp add: netplan_source_def netplan_file_lines_def user_data_netplan_lines_def render_nodes_append
      render_blocks plain_def line_text_def utext_of_simps del: render_node.simps(2))

lemma render_identity:
  "render_nodes attrs py_str (template_context i now) gpu_identity_source = Inr (plain (gpu_identity_lines i))"
  by (simp add: gpu_identity_source_def gpu_identity_lines_def jinja context_items)

lemma render_rxe:
  "render_node attrs py_str (template_context i now) (For ''nic'' (''roce_underlays'', [])
        [Line [Lit ''  - >-''],
         Line [Lit ''    rdma link show rxe_'', Var1 ''nic'' ''name'', Lit '' > /dev/null 2>&1 ||''],
         Line [Lit ''    rdma link add rxe_'', Var1 ''nic'' ''name'', Lit '' type rxe netdev '',
               Var1 ''nic'' ''name'', Lit '' || true'']])
    = Inr (plain (concat (map rxe_lines (roce_underlays i))))"
  by (rule render_list [OF context_items(6)]) (simp add: jinja dump_roce_def dump_phys_def rxe_lines_def)

lemma render_cpu_user_data:
  assumes "host_role i = CPU"
  shows "render_nodes attrs py_str (template_context i now) cpu_user_data_source = Inr (plain (cpu_user_data_lines i))"
  using render_netplan [of attrs i now]
  by (simp add: cpu_user_data_source_def cpu_user_data_lines_def render_nodes_append assms plain_append)
     (simp add: jinja context_items)

lemma render_roce_user_data:
  assumes "host_role i = r" and "r = GPU_B300 \<or> r = GPU_B200"
  shows "render_nodes attrs py_str (template_context i now) (roce_user_data_source r) = Inr (roce_user_data_lines i)"
  using render_netplan [of attrs i now] assms(1)
  by (simp add: roce_user_data_source_def roce_user_data_lines_def render_nodes_append render_identity
      render_verbatim render_rxe plain_append del: render_node.simps(2))
     (simp add: plain_def line_text_def)

lemma render_ib_user_data:
  assumes "host_role i = GPU_H200"
  shows "render_nodes attrs py_str (template_context i now) ib_user_data_source = Inr (ib_user_data_lines i)"
  using render_netplan [of attrs i now] assms
  by (simp add: ib_user_data_source_def ib_user_data_lines_def render_nodes_append render_identity
      render_verbatim plain_append)

lemma render_source:
  "render_nodes attrs py_str (template_context i now) (template_source (host_role i) k) = Inr (template_lines k i)"
proof (cases k)
  case META_DATA
  then show ?thesis
    by (simp add: template_source_def template_lines_def meta_data_source_def meta_data_lines_def jinja context_items)
next
  case USER_DATA
  then show ?thesis
    by (cases "host_role i") (simp_all add: template_source_def template_lines_def user_data_source_def
        user_data_lines_def render_cpu_user_data render_roce_user_data render_ib_user_data)
next
  case NETWORK_CONFIG
  then show ?thesis by (simp add: template_source_def template_lines_def render_network_config)
qed

section \<open>The templates are well typed\<close>

definition PHYS_TYPES :: types where
  "PHYS_TYPES = [(''name'', TStr), (''mac'', TStr), (''mtu'', TInt)]"

definition BOND_TYPE :: ty where
  "BOND_TYPE = TDict [(''name'', TStr), (''members'', TList TStr), (''mode'', TStr), (''lacp_rate'', TStr),
     (''transmit_hash_policy'', TStr), (''mtu'', TInt)]"

definition VLAN_TYPE :: ty where
  "VLAN_TYPE = TDict [(''name'', TStr), (''parent'', TStr), (''vlan_id'', TInt), (''role'', TStr), (''mtu'', TInt),
     (''address'', TStr), (''gateway'', TOpt TStr), (''dns'', TList TStr), (''search_domain'', TOpt TStr)]"

definition CONTEXT_TYPES :: types where
  "CONTEXT_TYPES =
     [(''asset_tag'', TStr), (''hostname'', TStr), (''role'', TStr),
      (''ns_nics'', TList (TDict PHYS_TYPES)), (''bond'', BOND_TYPE), (''vlans'', TList VLAN_TYPE),
      (''roce_underlays'', TList (TDict (PHYS_TYPES @ [(''sriov_vfs'', TInt), (''address'', TStr)]))),
      (''ib_underlays'', TList (TDict (PHYS_TYPES @ [(''address'', TStr)])))]"

text \<open>A dict built field by field has the type built field by field.\<close>

definition has_fields :: "pydict \<Rightarrow> types \<Rightarrow> bool" where
  "has_fields d ts \<longleftrightarrow> list_all (\<lambda>(k, t). case map_of d k of None \<Rightarrow> False | Some v \<Rightarrow> typed v t) ts"

lemma has_fieldsD: "has_fields d ts \<Longrightarrow> map_of ts k = Some t \<Longrightarrow> \<exists>v. map_of d k = Some v \<and> typed v t"
  unfolding has_fields_def by (induction ts) (auto split: option.splits if_splits)

lemma typed_fields: "has_fields d ts \<Longrightarrow> typed (PyDict d) (TDict ts)"
  by (rule typed.dict) (simp add: has_fieldsD)

lemma typed_simps:
  "typed (PyStr s) TStr" "typed (PyInt n) TInt" "typed (opt_str f x) (TOpt TStr)"
  "typed (PyList (map g ys)) (TList t) \<longleftrightarrow> (\<forall>y \<in> set ys. typed (g y) t)"
proof -
  show "typed (PyList (map g ys)) (TList t) \<longleftrightarrow> (\<forall>y \<in> set ys. typed (g y) t)"
    by (subst typed.simps) simp
qed (auto simp: opt_str_def intro: typed.intros split: option.split)

lemma dumps_typed:
  "typed (dump_bond_member n) (TDict PHYS_TYPES)"
  "typed (dump_roce r) (TDict (PHYS_TYPES @ [(''sriov_vfs'', TInt), (''address'', TStr)]))"
  "typed (dump_ib u) (TDict (PHYS_TYPES @ [(''address'', TStr)]))"
  "typed (dump_bond b) BOND_TYPE" "typed (dump_vlan v) VLAN_TYPE"
  unfolding dump_bond_member_def dump_roce_def dump_ib_def dump_bond_def dump_vlan_def BOND_TYPE_def VLAN_TYPE_def
  by (rule typed_fields; simp add: has_fields_def dump_phys_def PHYS_TYPES_def typed_simps)+

lemma context_typed: "well_bound CONTEXT_TYPES (template_context i now)"
proof -
  have "has_fields (template_context i now) CONTEXT_TYPES"
    by (simp add: has_fields_def CONTEXT_TYPES_def context_items typed_simps dumps_typed)
       (simp add: template_context_def typed_simps)
  then show ?thesis by (simp add: well_bound_def has_fieldsD)
qed

lemma check_append: "check_nodes \<Gamma> (ms @ ns) \<longleftrightarrow> check_nodes \<Gamma> ms \<and> check_nodes \<Gamma> ns"
  by (induction ms) auto

lemma check_verbatim: "check_nodes \<Gamma> (verbatim us)"
  by (induction us) (simp_all add: verbatim_def)

lemma check_sources: "check_nodes CONTEXT_TYPES (template_source r k)"
proof -
  note defs = path_type_def CONTEXT_TYPES_def DICT_ATTRIBUTES_def dunder_def starts_with_def
    PHYS_TYPES_def BOND_TYPE_def VLAN_TYPE_def refine_types_def
  have nics: "check_node CONTEXT_TYPES (For ''nic'' (''ns_nics'', []) (ethernet_source pad))" for pad
    by (simp add: ethernet_source_def defs)
  have bond: "check_nodes CONTEXT_TYPES (bond_source pad)" for pad
    by (simp add: bond_source_def defs)
  have vlans: "check_node CONTEXT_TYPES (For ''vlan'' (''vlans'', []) (vlan_source pad))" for pad
    by (simp add: vlan_source_def defs)
  have east_west: "check_nodes CONTEXT_TYPES (east_west_source pad q)" for pad q
    by (cases q) (simp_all add: east_west_source_def ethernet_source_def check_append defs Let_def)
  have netplan: "check_nodes CONTEXT_TYPES (netplan_source q)" for q
    by (simp add: netplan_source_def check_append check_verbatim nics bond vlans east_west del: check_node.simps(2))
  have identity: "check_nodes CONTEXT_TYPES gpu_identity_source"
    by (simp add: gpu_identity_source_def defs)
  have user_data: "check_nodes CONTEXT_TYPES (user_data_source q)" for q
    by (cases q) (simp_all add: user_data_source_def cpu_user_data_source_def roce_user_data_source_def
        ib_user_data_source_def check_append check_verbatim netplan identity, simp_all add: defs)
  show ?thesis
    by (cases k) (simp_all add: template_source_def user_data meta_data_source_def network_config_source_def
        check_append nics bond vlans east_west del: check_node.simps(2), simp_all add: defs)
qed

text \<open>
  A template that checks against the context's types: for every host it renders, to the same
  lines whatever Python's own attributes are and however values other than text and numbers
  are printed, so it meets no undefined value and prints no \<open>None\<close>, list or dict.
\<close>

lemma checked_renders:
  "check_nodes CONTEXT_TYPES t \<Longrightarrow> \<exists>ls. \<forall>attrs show. agree py_str show \<longrightarrow>
     render_nodes attrs show (template_context i now) t = Inr ls"
  by (rule check_sound(2) [OF _ context_typed])

text \<open>C16: every committed template checks against the types of the context, and a template that
  checks renders for every host: no undefined name or attribute is met, and only text and
  numbers are printed, never \<open>None\<close> or a container.\<close>

theorem checked_templates_render:
  assumes "check_nodes CONTEXT_TYPES t"
  shows "(\<exists>ls. \<forall>attrs show. agree py_str show \<longrightarrow>
      render_nodes attrs show (template_context i now) t = Inr ls)
    \<and> (\<forall>r k. check_nodes CONTEXT_TYPES (template_source r k))"
  using checked_renders [OF assms] check_sources by blast

text \<open>An optional field printed outside its guard does not check, and prints \<open>None\<close>.\<close>

definition unguarded :: "node list" where
  "unguarded = [For ''vlan'' (''vlans'', []) [Line [Lit ''via: '', Var1 ''vlan'' ''gateway'']]]"

lemma unguarded_rejected: "\<not> check_nodes CONTEXT_TYPES unguarded"
  by (simp add: unguarded_def path_type_def CONTEXT_TYPES_def VLAN_TYPE_def DICT_ATTRIBUTES_def
      dunder_def starts_with_def)

theorem checked_templates_render_witness:
  "check_nodes CONTEXT_TYPES (network_config_source CPU)
     \<and> (\<exists>ls. render_nodes (\<lambda>_ _. Undefined '''') py_str (template_context cpu_intent PyNone)
          (network_config_source CPU) = Inr ls)"
proof -
  have c: "check_nodes CONTEXT_TYPES (network_config_source CPU)"
    using check_sources [of CPU NETWORK_CONFIG] by (simp add: template_source_def)
  show ?thesis
    using checked_templates_render [OF c, of cpu_intent PyNone] c by (auto simp: agree_def)
qed


section \<open>The environment\<close>

text \<open>
  \<open>make_environment\<close> over the template tree: a path that is a template's gives the function
  that renders it. \<open>value\<close> turns the clock's reading into a context value.
\<close>

definition source_tree :: "attributes \<Rightarrow> ('t \<Rightarrow> pyval) \<Rightarrow> 't environment" where
  "source_tree attrs clock_value path =
     (case find (\<lambda>(r, k). template_path r k = path) templates of
        None \<Rightarrow> None
      | Some (r, k) \<Rightarrow> Some (\<lambda>ctx.
          rbind (render_nodes attrs py_str (template_context (ctx_intent ctx) (clock_value (ctx_now ctx)))
                   (template_source r k)) (\<lambda>ls.
          Inr (text_lines ls))))"

lemma source_tree_path:
  "source_tree attrs cv (template_path r k) = Some (\<lambda>ctx.
     rbind (render_nodes attrs py_str (template_context (ctx_intent ctx) (cv (ctx_now ctx)))
              (template_source r k)) (\<lambda>ls. Inr (text_lines ls)))"
proof -
  have "find (\<lambda>(q, l). template_path q l = template_path r k) templates = Some (r, k)"
    by (cases r; cases k) (simp_all add: templates_def all_roles_def all_kinds_def)
  then show ?thesis by (simp add: source_tree_def)
qed

text \<open>C15: rendering a host with the template programs themselves gives, for every host, role and file
  kind, exactly the bytes of the reference lines, as does the tree of reference templates.\<close>

theorem sources_render_reference:
  "render_for (source_tree attrs cv) clock i (Kind k) now = Inr (rendered k i)
   \<and> render_for (source_tree attrs cv) clock i (Kind k) now = render_for template_tree clock i (Kind k) now"
proof -
  have "render_text (source_tree attrs cv) t i k = Inr (text_lines (template_lines k (canonicalize i)))" for t
    using render_source [of attrs "canonicalize i" "cv t" k]
    by (simp add: render_text_def get_template_def source_tree_path)
  then have "render_for (source_tree attrs cv) clock i (Kind k) now = Inr (rendered k i)"
    using template_lines_encodable [of k "canonicalize i"]
    by (simp add: render_for_def to_kind_def Let_def utf8_encode_def rendered_def)
  then show ?thesis by (simp add: render_for_tree)
qed

end
