(* ===== verification/Provisioning.thy ===== *)
theory Provisioning
  imports Fixture_Props Service_Props Netplan_Document
begin

text \<open>
  The whole way of a host: from the YAML fixture the operator commits, through the Netbox the
  fixture loader fills, the load, the rendering and the HTTP answer, to the Netplan
  configuration a YAML reader finds in the bytes the machine receives.
\<close>

text \<open>C6: what an operator describes is what the machine is told: after a successful run of the
  fixture loader on a Netbox that did not know the host, a request for the host's network
  configuration is answered with 200, and a YAML reader finds in its body the Netplan document
  of the host the fixture describes, whatever else Netbox holds and in whatever order it lists
  it.\<close>

theorem fixture_reaches_machine:
  assumes "serves_netbox api stored" and "keeps_inventory api stored client"
    and "wf_fixtures fixtures" and "fx \<in> set fixtures" and "stored s Devices (device_query fx) = None"
    and "populate api fixtures s = (Inr rep, t)"
    and "load_host_intent (fixture_client fx) (fx_asset_tag fx) = Inr i"
    and "inj_on vlan_id (set (vlans i))" and "list_all plain_scalar (printed_names i)"
    and "faithful_relay relay"
  shows "\<exists>r body. fst (serve_render p relay minted template_tree clock (client t) NETWORK_CONFIG
        (fx_asset_tag fx) req m) = Inr r \<and> resp_status r = 200 \<and> resp_content r = Bytes body
    \<and> read_yaml (ascii_lines body) = Some (netplan_document (canonicalize i))"
proof -
  obtain j where j: "load_host_intent (client t) (fx_asset_tag fx) = Inr j" "same_up_to_order i j"
    using populated_loads [OF assms(1-7)] by blast
  have wf: "wf_intent i" using assms(7) by (rule load_wf_intent)
  then have same: "canonicalize i = canonicalize j"
    using j(2) assms(8) by (intro canonicalize_order_free) (simp_all add: wf_intent_def)
  have "render_result template_tree clock NETWORK_CONFIG (fx_asset_tag fx) (client t) = Inr (rendered NETWORK_CONFIG i)"
    using j(1) same by (simp add: render_result_def render_for_tree rendered_def)
  then show ?thesis
    using render_request_answer_lemma [OF assms(10), where env = template_tree and clock = clock
        and kind = NETWORK_CONFIG and tag = "fx_asset_tag fx" and client = "client t" and p = p
        and minted = minted and req = req and m = m]
      read_rendered(1) [OF wf assms(9)] by auto
qed

theorem fixture_reaches_machine_witness:
  "\<exists>rep t r body. populate rows_api [cpu_fixture] [] = (Inr rep, t)
     \<and> fst (serve_render sample_process (\<lambda>r. r) 0 template_tree () (rows_client t) NETWORK_CONFIG
         (fx_asset_tag cpu_fixture) sample_request no_metrics) = Inr r
     \<and> resp_content r = Bytes body
     \<and> read_yaml (ascii_lines body) = Some (netplan_document (canonicalize cpu_intent))"
proof -
  obtain rep t where run: "populate rows_api [cpu_fixture] [] = (Inr rep, t)" using cpu_fixture_run by blast
  have "rows_stored [] Devices (device_query cpu_fixture) = None" by (simp add: rows_stored_def row_of_def)
  moreover have "inj_on vlan_id (set (vlans cpu_intent))" by (simp add: cpu_intent_def cpu_vlans_def)
  ultimately have "\<exists>r body. fst (serve_render sample_process (\<lambda>r. r) 0 template_tree () (rows_client t) NETWORK_CONFIG
        (fx_asset_tag cpu_fixture) sample_request no_metrics) = Inr r \<and> resp_status r = 200 \<and> resp_content r = Bytes body
      \<and> read_yaml (ascii_lines body) = Some (netplan_document (canonicalize cpu_intent))"
    by (intro fixture_reaches_machine [OF rows_serve, OF rows_inventory, OF cpu_fixture_wf, OF _ _ run cpu_fixture_load _ cpu_names faithful_id]) simp_all
  then show ?thesis using run by blast
qed

end
