(* ===== verification/Request_Log.thy ===== *)
theory Request_Log
  imports Service_Props
begin

text \<open>
  The log of a render request (src/host_config/service/middleware.py, routes.py and
  netbox/loader.py): the context variables of structlog that the middleware and the handler bind,
  the lines they write at each level, and what a line carries once the context is merged into it;
  and between them the lines of the loader, which writes with the standard library's \<open>logging\<close>,
  whose format is \<open>%(message)s\<close>. \<open>threshold\<close> is the numeric level of
  \<open>make_filtering_bound_logger\<close> with the level of the root logger (both are set by
  logging_config.py), \<open>elapsed\<close> the value printed for a duration. The
  framework may run the inner application in a task of its own, with a copy of the context:
  \<open>relay_context outer inner\<close> is the context the middleware goes on with.
\<close>

section \<open>Context variables and lines\<close>

datatype log_level = LogDebug | LogInfo | LogWarning | LogError

definition level_no :: "log_level \<Rightarrow> nat" where
  "level_no l = (case l of LogDebug \<Rightarrow> 10 | LogInfo \<Rightarrow> 20 | LogWarning \<Rightarrow> 30 | LogError \<Rightarrow> 40)"

datatype log_line =
    Structured (line_level: log_level) (line_event: string) (line_fields: pydict)
  | Plain (line_level: log_level) (line_message: string)
  where "line_event (Plain _ _) = ''''" | "line_fields (Plain _ _) = []"

record log_scope =
  bound :: pydict
  written :: "log_line list"

definition bind_contextvars :: "pydict \<Rightarrow> (log_scope, exn, unit) act" where
  "bind_contextvars kvs = amodify (\<lambda>s. s\<lparr>bound := filter (\<lambda>(k, _). k \<notin> fst ` set kvs) (bound s) @ kvs\<rparr>)"

definition clear_contextvars :: "log_scope \<Rightarrow> log_scope" where
  "clear_contextvars s = s\<lparr>bound := []\<rparr>"

text \<open>The \<open>merge_contextvars\<close> processor: what the call passes wins over the context.\<close>

definition merge_contextvars :: "pydict \<Rightarrow> pydict \<Rightarrow> pydict" where
  "merge_contextvars ctx kvs = kvs @ filter (\<lambda>(k, _). k \<notin> fst ` set kvs) ctx"

type_synonym log_levels = "nat \<times> nat"

definition enabled :: "log_levels \<Rightarrow> log_line \<Rightarrow> bool" where
  "enabled threshold l \<longleftrightarrow> (if is_Structured l then fst threshold else snd threshold) \<le> level_no (line_level l)"

definition line :: "pydict \<Rightarrow> log_level \<Rightarrow> string \<Rightarrow> pydict \<Rightarrow> log_line" where
  "line ctx level event kvs =
     Structured level event (merge_contextvars ctx kvs)"

definition log_call :: "log_levels \<Rightarrow> log_level \<Rightarrow> string \<Rightarrow> pydict \<Rightarrow> (log_scope, exn, unit) act" where
  "log_call threshold level event kvs = amodify (\<lambda>s. s\<lparr>written := written s
     @ filter (enabled threshold) [line (bound s) level event kvs]\<rparr>)"


section \<open>The loader (netbox/loader.py)\<close>

definition std_log :: "log_levels \<Rightarrow> log_level \<Rightarrow> string \<Rightarrow> (log_scope, exn, unit) act" where
  "std_log threshold level message = amodify (\<lambda>s. s\<lparr>written := written s
     @ filter (enabled threshold) [Plain level message]\<rparr>)"

definition started_message :: "string \<Rightarrow> string" where
  "started_message tag = ''load_host_intent.start asset_tag='' @ tag"

definition device_message :: "nb_device \<Rightarrow> string" where
  "device_message device = ''device fetched id='' @ str_int (nbd_id device) @ '' name='' @ str_opt (nbd_name device)"

definition interfaces_message :: "nb_iface list \<Rightarrow> string" where
  "interfaces_message ifaces = ''interfaces fetched count='' @ str_nat (length ifaces)"

definition done_message :: "host_intent \<Rightarrow> string" where
  "done_message i = ''load_host_intent.done asset_tag='' @ asset_tag i @ '' role='' @ role_value (host_role i)
     @ '' ns_nics='' @ str_nat (length (ns_nics i)) @ '' vlans='' @ str_nat (length (vlans i))
     @ '' roce='' @ str_nat (length (roce_underlays i)) @ '' ib='' @ str_nat (length (ib_underlays i))"

text \<open>\<open>load_host_intent\<close> with its log calls.\<close>

definition loader_log :: "log_levels \<Rightarrow> nb_client \<Rightarrow> string \<Rightarrow> (log_scope, exn, host_intent) act" where
  "loader_log threshold client tag =
     abind (std_log threshold LogInfo (started_message tag)) (\<lambda>_.
     abind (alift (fetch_device client tag)) (\<lambda>device.
     abind (std_log threshold LogDebug (device_message device)) (\<lambda>_.
     abind (alift (fetch_interfaces client device tag)) (\<lambda>ifaces.
     abind (std_log threshold LogDebug (interfaces_message ifaces)) (\<lambda>_.
     abind (alift (parse_role device tag)) (\<lambda>r.
     abind (alift (build_ns_nics ifaces tag)) (\<lambda>nics.
     abind (alift (build_bond ifaces nics tag)) (\<lambda>b.
     abind (alift (build_vlans client ifaces tag)) (\<lambda>vs.
     abind (alift (build_roce_underlays client ifaces tag)) (\<lambda>roce.
     abind (alift (build_ib_underlays client ifaces tag)) (\<lambda>ib.
     abind (alift (mk_host_intent tag (str_opt (nbd_name device)) r nics b vs roce ib)) (\<lambda>intent.
     abind (std_log threshold LogInfo (done_message intent)) (\<lambda>_.
     aret intent)))))))))))))"


section \<open>The handler (routes.py)\<close>

definition EXC_INFO :: "string \<times> pyval" where
  "EXC_INFO = (''exc_info'', PyBool True)"

definition load_log :: "log_levels \<Rightarrow> pyval \<Rightarrow> nb_client \<Rightarrow> string \<Rightarrow> (log_scope, exn, host_intent) act" where
  "load_log threshold elapsed client tag =
     abind (log_call threshold LogDebug ''netbox.query.started'' [(''operation'', PyStr ''load_host_intent'')]) (\<lambda>_ s.
     case loader_log threshold client tag s of
       (Inl e, t) \<Rightarrow>
         abind (if is_a e ''HostNotFoundError'' \<or> is_a e ''NetboxQueryError''
                then log_call threshold LogWarning ''netbox.query.failed'' []
                else if is_a e ''InvariantError'' then log_call threshold LogWarning ''intent.invalid'' []
                else aret ()) (\<lambda>_. athrow e) t
     | (Inr intent, t) \<Rightarrow>
         abind (log_call threshold LogDebug ''netbox.query.completed''
           [(''duration_ms'', elapsed), (''role'', PyStr (role_value (host_role intent))),
            (''ns_nic_count'', PyInt (int (length (ns_nics intent)))),
            (''vlan_count'', PyInt (int (length (vlans intent)))),
            (''roce_count'', PyInt (int (length (roce_underlays intent))))]) (\<lambda>_.
         abind (log_call threshold LogDebug ''intent.validated'' [(''hostname'', PyStr (hostname intent))]) (\<lambda>_.
         aret intent)) t)"

definition render_log :: "log_levels \<Rightarrow> pyval \<Rightarrow> 't environment \<Rightarrow> 't \<Rightarrow> file_kind \<Rightarrow> host_intent
   \<Rightarrow> (log_scope, exn, response) act" where
  "render_log threshold elapsed env clock kind intent =
     abind (log_call threshold LogDebug ''template.selected''
       [(''role'', PyStr (role_value (host_role intent))), (''file_kind'', PyStr (kind_value kind))]) (\<lambda>_.
     abind (log_call threshold LogDebug ''render.started'' []) (\<lambda>_.
     case render_for env clock intent (Kind kind) None of
       Inl e \<Rightarrow> abind (log_call threshold LogError ''render.failed'' [EXC_INFO]) (\<lambda>_. athrow e)
     | Inr body \<Rightarrow>
         abind (log_call threshold LogInfo ''render.completed''
           [(''bytes'', PyInt (int (length body))), (''duration_ms'', elapsed)]) (\<lambda>_.
         aret (plain_response body))))"

text \<open>\<open>render_id\<close> is the \<open>uuid4\<close> the handler mints.\<close>

definition handler_log :: "log_levels \<Rightarrow> pyval \<Rightarrow> string \<Rightarrow> 't environment \<Rightarrow> 't \<Rightarrow> file_kind \<Rightarrow> string \<Rightarrow> nb_client
   \<Rightarrow> (log_scope, exn, response) act" where
  "handler_log threshold elapsed render_id env clock kind tag client =
     abind (bind_contextvars [(''asset_tag'', PyStr tag), (''file_kind'', PyStr (kind_value kind)),
        (''render_id'', PyStr render_id)]) (\<lambda>_.
     abind (log_call threshold LogInfo ''render.requested'' []) (\<lambda>_.
     abind (load_log threshold elapsed client tag) (\<lambda>intent.
     render_log threshold elapsed env clock kind intent)))"


section \<open>The middleware\<close>

definition dispatch_log :: "process \<Rightarrow> log_levels \<Rightarrow> pyval \<Rightarrow> (pydict \<Rightarrow> pydict \<Rightarrow> pydict) \<Rightarrow> nat
   \<Rightarrow> (log_scope, exn, response) act \<Rightarrow> request \<Rightarrow> (log_scope, exn, response) act" where
  "dispatch_log p threshold elapsed relay_context minted call_next req =
     (let request_id = coerce_request_id minted (req_id_header req) in
      abind (bind_contextvars [(''request_id'', PyStr request_id), (''method'', PyStr (req_method req)),
         (''path'', PyStr (req_path req))]) (\<lambda>_.
      abind (log_call threshold LogInfo ''request.received'' []) (\<lambda>_ s.
      let (r, t) = call_next s; u = t\<lparr>bound := relay_context (bound s) (bound t)\<rparr>
      in case r of
           Inl e \<Rightarrow> (Inl e, clear_contextvars
             (snd (log_call threshold LogError ''request.failed'' [(''elapsed_ms'', elapsed), EXC_INFO] u)))
         | Inr resp \<Rightarrow> (Inr (inject_cache_headers p req (set_header REQUEST_ID_HEADER request_id resp)), clear_contextvars
             (snd (log_call threshold LogInfo ''request.completed''
               [(''status_code'', PyInt (resp_status resp)), (''elapsed_ms'', elapsed)] u))))))"

definition serve_log :: "process \<Rightarrow> log_levels \<Rightarrow> pyval \<Rightarrow> (pydict \<Rightarrow> pydict \<Rightarrow> pydict) \<Rightarrow> (response \<Rightarrow> response) \<Rightarrow> nat \<Rightarrow> string
   \<Rightarrow> 't environment \<Rightarrow> 't \<Rightarrow> nb_client \<Rightarrow> file_kind \<Rightarrow> string \<Rightarrow> request \<Rightarrow> (log_scope, exn, response) act" where
  "serve_log p threshold elapsed relay_context relay minted render_id env clock client kind tag req =
     dispatch_log p threshold elapsed relay_context minted
       (abind (handle_errors (handler_log threshold elapsed render_id env clock kind tag client))
         (\<lambda>r. aret (relay r))) req"


section \<open>The lines of a request\<close>

lemma log_call_run: "log_call threshold level event kvs s =
    (Inr (), s\<lparr>written := written s @ filter (enabled threshold) [line (bound s) level event kvs]\<rparr>)"
  by (simp add: log_call_def amodify_def)

lemma bind_run: "bind_contextvars kvs s =
    (Inr (), s\<lparr>bound := filter (\<lambda>(k, _). k \<notin> fst ` set kvs) (bound s) @ kvs\<rparr>)"
  by (simp add: bind_contextvars_def amodify_def)

definition loader_lines :: "nb_client \<Rightarrow> string \<Rightarrow> log_line list" where
  "loader_lines client tag = Plain LogInfo (started_message tag) #
     (case fetch_device client tag of
        Inl _ \<Rightarrow> []
      | Inr device \<Rightarrow> Plain LogDebug (device_message device) #
          (case fetch_interfaces client device tag of
             Inl _ \<Rightarrow> []
           | Inr ifaces \<Rightarrow> Plain LogDebug (interfaces_message ifaces) #
               (case load_host_intent client tag of Inl _ \<Rightarrow> [] | Inr i \<Rightarrow> [Plain LogInfo (done_message i)])))"

definition load_lines :: "pydict \<Rightarrow> pyval \<Rightarrow> nb_client \<Rightarrow> string \<Rightarrow> log_line list" where
  "load_lines ctx elapsed client tag =
     line ctx LogDebug ''netbox.query.started'' [(''operation'', PyStr ''load_host_intent'')] #
     loader_lines client tag @
     (case load_host_intent client tag of
        Inl e \<Rightarrow>
          (if is_a e ''HostNotFoundError'' \<or> is_a e ''NetboxQueryError''
           then [line ctx LogWarning ''netbox.query.failed'' []]
           else if is_a e ''InvariantError'' then [line ctx LogWarning ''intent.invalid'' []] else [])
      | Inr intent \<Rightarrow>
          [line ctx LogDebug ''netbox.query.completed''
             [(''duration_ms'', elapsed), (''role'', PyStr (role_value (host_role intent))),
              (''ns_nic_count'', PyInt (int (length (ns_nics intent)))),
              (''vlan_count'', PyInt (int (length (vlans intent)))),
              (''roce_count'', PyInt (int (length (roce_underlays intent))))],
           line ctx LogDebug ''intent.validated'' [(''hostname'', PyStr (hostname intent))]])"

definition render_lines :: "pydict \<Rightarrow> pyval \<Rightarrow> 't environment \<Rightarrow> 't \<Rightarrow> file_kind \<Rightarrow> host_intent \<Rightarrow> log_line list" where
  "render_lines ctx elapsed env clock kind intent =
     [line ctx LogDebug ''template.selected''
        [(''role'', PyStr (role_value (host_role intent))), (''file_kind'', PyStr (kind_value kind))],
      line ctx LogDebug ''render.started'' [],
      case render_for env clock intent (Kind kind) None of
        Inl e \<Rightarrow> line ctx LogError ''render.failed'' [EXC_INFO]
      | Inr body \<Rightarrow> line ctx LogInfo ''render.completed''
          [(''bytes'', PyInt (int (length body))), (''duration_ms'', elapsed)]]"

definition handler_lines ::
  "pydict \<Rightarrow> pyval \<Rightarrow> 't environment \<Rightarrow> 't \<Rightarrow> file_kind \<Rightarrow> string \<Rightarrow> nb_client \<Rightarrow> log_line list" where
  "handler_lines ctx elapsed env clock kind tag client =
     line ctx LogInfo ''render.requested'' [] # load_lines ctx elapsed client tag @
     (case load_host_intent client tag of
        Inl e \<Rightarrow> []
      | Inr intent \<Rightarrow> render_lines ctx elapsed env clock kind intent)"

definition handler_context :: "string \<Rightarrow> file_kind \<Rightarrow> string \<Rightarrow> pydict \<Rightarrow> pydict" where
  "handler_context render_id kind tag ctx =
     (let kvs = [(''asset_tag'', PyStr tag), (''file_kind'', PyStr (kind_value kind)), (''render_id'', PyStr render_id)]
      in filter (\<lambda>(k, _). k \<notin> fst ` set kvs) ctx @ kvs)"

lemma std_log_run: "std_log threshold level message s =
    (Inr (), s\<lparr>written := written s @ filter (enabled threshold) [Plain level message]\<rparr>)"
  by (simp add: std_log_def amodify_def)

lemma abind_alift: "abind (alift r) f s = (case r of Inl e \<Rightarrow> (Inl e, s) | Inr x \<Rightarrow> f x s)"
  by (simp add: abind_def alift_def split: sum.splits)

lemma alift_rbind: "abind (alift r) (\<lambda>x. abind (alift (f x)) g) = abind (alift (rbind r f)) g"
  by (simp add: fun_eq_iff abind_alift rbind_def split: sum.splits)

definition built_intent :: "nb_client \<Rightarrow> string \<Rightarrow> nb_device \<Rightarrow> nb_iface list \<Rightarrow> exn + host_intent" where
  "built_intent client tag device ifaces =
     rbind (parse_role device tag) (\<lambda>r.
     rbind (build_ns_nics ifaces tag) (\<lambda>nics.
     rbind (build_bond ifaces nics tag) (\<lambda>b.
     rbind (build_vlans client ifaces tag) (\<lambda>vs.
     rbind (build_roce_underlays client ifaces tag) (\<lambda>roce.
     rbind (build_ib_underlays client ifaces tag) (\<lambda>ib.
     mk_host_intent tag (str_opt (nbd_name device)) r nics b vs roce ib))))))"

lemma loader_log_run: "loader_log threshold client tag s = (load_host_intent client tag,
    s\<lparr>written := written s @ filter (enabled threshold) (loader_lines client tag)\<rparr>)"
proof -
  have step: "abind (std_log threshold level message) f s
      = f () (s\<lparr>written := written s @ filter (enabled threshold) [Plain level message]\<rparr>)" for level message f and s :: log_scope
    by (simp add: abind_def std_log_run)
  have cons: "filter P (x # y # ys) = filter P [x] @ filter P (y # ys)" for P and x y :: log_line and ys by simp
  have parts: "loader_log threshold client tag =
     abind (std_log threshold LogInfo (started_message tag)) (\<lambda>_.
     abind (alift (fetch_device client tag)) (\<lambda>device.
     abind (std_log threshold LogDebug (device_message device)) (\<lambda>_.
     abind (alift (fetch_interfaces client device tag)) (\<lambda>ifaces.
     abind (std_log threshold LogDebug (interfaces_message ifaces)) (\<lambda>_.
     abind (alift (built_intent client tag device ifaces)) (\<lambda>intent.
     abind (std_log threshold LogInfo (done_message intent)) (\<lambda>_. aret intent)))))))"
    unfolding loader_log_def built_intent_def alift_rbind by (rule refl)
  have load: "load_host_intent client tag = rbind (fetch_device client tag) (\<lambda>device.
     rbind (fetch_interfaces client device tag) (\<lambda>ifaces. built_intent client tag device ifaces))"
    unfolding load_host_intent_def built_intent_def by (rule refl)
  show ?thesis
  proof (cases "fetch_device client tag")
    case (Inr device)
    note device = this
    show ?thesis
    proof (cases "fetch_interfaces client device tag")
      case (Inr ifaces)
      then show ?thesis
        by (cases "built_intent client tag device ifaces")
           (simp_all add: parts step abind_alift loader_lines_def load device cons del: filter.simps)
    qed (simp add: parts step abind_alift loader_lines_def load device cons del: filter.simps)
  qed (simp add: parts step abind_alift loader_lines_def load cons del: filter.simps)
qed

lemma load_log_run: "load_log threshold elapsed client tag s = (load_host_intent client tag,
    s\<lparr>written := written s @ filter (enabled threshold) (load_lines (bound s) elapsed client tag)\<rparr>)"
  by (simp add: load_log_def load_lines_def abind_def athrow_def log_call_run loader_log_run split: sum.splits)

lemma render_log_run: "render_log threshold elapsed env clock kind intent s =
   ((case render_for env clock intent (Kind kind) None of Inl e \<Rightarrow> Inl e | Inr body \<Rightarrow> Inr (plain_response body)),
    s\<lparr>written := written s @ filter (enabled threshold) (render_lines (bound s) elapsed env clock kind intent)\<rparr>)"
  by (simp add: render_log_def render_lines_def abind_def athrow_def log_call_run split: sum.splits)

lemma handler_log_run: "handler_log threshold elapsed render_id env clock kind tag client s =
   (let ctx = handler_context render_id kind tag (bound s) in
    (case render_result env clock kind tag client of Inl e \<Rightarrow> Inl e | Inr body \<Rightarrow> Inr (plain_response body),
     \<lparr>bound = ctx, written = written s @ filter (enabled threshold) (handler_lines ctx elapsed env clock kind tag client)\<rparr>))"
  by (simp add: handler_log_def handler_context_def handler_lines_def render_result_def Let_def abind_def
      bind_run log_call_run load_log_run render_log_run split: sum.splits)


text \<open>What a line carries under a key.\<close>

lemma map_of_filtered: "map_of (filter (\<lambda>(k, _). P k) d) k = (if P k then map_of d k else None)"
  by (induction d) auto

lemma map_of_merge: "map_of (merge_contextvars ctx kvs) k = (case map_of kvs k of Some v \<Rightarrow> Some v | None \<Rightarrow> map_of ctx k)"
  using map_of_eq_None_iff [of kvs k]
  by (auto simp: merge_contextvars_def map_add_def map_of_filtered split: option.splits)

lemma line_simps [simp]:
  "line_level (line ctx level event kvs) = level" "line_event (line ctx level event kvs) = event"
  "line_fields (line ctx level event kvs) = merge_contextvars ctx kvs" "is_Structured (line ctx level event kvs)"
  by (simp_all add: line_def)

lemma loader_lines_plain: "l \<in> set (loader_lines client tag) \<Longrightarrow> \<not> is_Structured l \<and> line_event l = ''''"
  by (auto simp: loader_lines_def split: sum.splits)

definition SCOPE_KEYS :: "string list" where
  "SCOPE_KEYS = [''request_id'', ''method'', ''path'', ''asset_tag'', ''render_id'']"

lemma handler_lines_scope:
  assumes "l \<in> set (handler_lines ctx elapsed env clock kind tag client)" and "k \<in> set SCOPE_KEYS" and "is_Structured l"
  shows "map_of (line_fields l) k = map_of ctx k"
  using assms unfolding handler_lines_def load_lines_def render_lines_def SCOPE_KEYS_def
  by (auto simp: map_of_merge EXC_INFO_def dest: loader_lines_plain split: sum.splits if_splits)

lemma render_completed_line:
  "(\<exists>l \<in> set (handler_lines ctx elapsed env clock kind tag client). line_event l = ''render.completed'')
    \<longleftrightarrow> (\<exists>body. render_result env clock kind tag client = Inr body)"
  by (auto simp: handler_lines_def load_lines_def render_lines_def render_result_def bex_Un dest: loader_lines_plain split: sum.splits if_splits)

definition request_context :: "string \<Rightarrow> request \<Rightarrow> pydict \<Rightarrow> pydict" where
  "request_context rid req ctx =
     (let kvs = [(''request_id'', PyStr rid), (''method'', PyStr (req_method req)), (''path'', PyStr (req_path req))]
      in filter (\<lambda>(k, _). k \<notin> fst ` set kvs) ctx @ kvs)"

lemma context_keys:
  "map_of (request_context rid req ctx) ''request_id'' = Some (PyStr rid)"
  "map_of (request_context rid req ctx) ''method'' = Some (PyStr (req_method req))"
  "map_of (request_context rid req ctx) ''path'' = Some (PyStr (req_path req))"
  "map_of (handler_context render_id kind tag ctx) ''asset_tag'' = Some (PyStr tag)"
  "map_of (handler_context render_id kind tag ctx) ''render_id'' = Some (PyStr render_id)"
  "k \<in> {''request_id'', ''method'', ''path''} \<Longrightarrow> map_of (handler_context render_id kind tag ctx) k = map_of ctx k"
proof -
  assume "k \<in> {''request_id'', ''method'', ''path''}"
  then show "map_of (handler_context render_id kind tag ctx) k = map_of ctx k"
    by (elim insertE) (simp_all add: handler_context_def map_add_def map_of_filtered split: option.splits)
qed (simp_all add: request_context_def handler_context_def map_add_def map_of_filtered)

definition last_line :: "pydict \<Rightarrow> pyval \<Rightarrow> exn + response \<Rightarrow> log_line" where
  "last_line ctx elapsed answer = (case answer of
      Inl e \<Rightarrow> line ctx LogError ''request.failed'' [(''elapsed_ms'', elapsed), EXC_INFO]
    | Inr r \<Rightarrow> line ctx LogInfo ''request.completed'' [(''status_code'', PyInt (resp_status r)), (''elapsed_ms'', elapsed)])"

lemma dispatch_log_run:
  assumes "call_next \<lparr>bound = request_context rid req (bound s),
      written = written s @ filter (enabled threshold) [line (request_context rid req (bound s)) LogInfo ''request.received'' []]\<rparr>
    = (r, \<lparr>bound = inner, written = out\<rparr>)"
    and "rid = coerce_request_id minted (req_id_header req)"
  shows "dispatch_log p threshold elapsed relay_context minted call_next req s =
    (case r of Inl e \<Rightarrow> Inl e | Inr resp \<Rightarrow> Inr (inject_cache_headers p req (set_header REQUEST_ID_HEADER rid resp)),
     \<lparr>bound = [], written = out @ filter (enabled threshold)
        [last_line (relay_context (request_context rid req (bound s)) inner) elapsed r]\<rparr>)"
proof -
  obtain b w where s: "s = \<lparr>bound = b, written = w\<rparr>" by (cases s)
  have bind: "bind_contextvars [(''request_id'', PyStr rid), (''method'', PyStr (req_method req)),
      (''path'', PyStr (req_path req))] \<lparr>bound = b, written = w\<rparr> = (Inr (), \<lparr>bound = request_context rid req b, written = w\<rparr>)"
    by (simp add: bind_run request_context_def)
  show ?thesis
    using assms(1) unfolding dispatch_log_def Let_def assms(2) [symmetric] s abind_def bind log_call_run
    by (cases r) (simp_all add: clear_contextvars_def last_line_def del: filter.simps)
qed



section \<open>Every line can be traced to its request\<close>

text \<open>The middleware goes on with its own context or with the one the inner application left.\<close>

definition relays_context :: "(pydict \<Rightarrow> pydict \<Rightarrow> pydict) \<Rightarrow> bool" where
  "relays_context relay_context \<longleftrightarrow> (\<forall>outer inner. relay_context outer inner \<in> {outer, inner})"

definition carries :: "string \<Rightarrow> string \<Rightarrow> log_line \<Rightarrow> bool" where
  "carries k v l \<longleftrightarrow> map_of (line_fields l) k = Some (PyStr v)"

definition request_lines :: "pyval \<Rightarrow> (pydict \<Rightarrow> pydict \<Rightarrow> pydict) \<Rightarrow> string \<Rightarrow> string \<Rightarrow> 't environment \<Rightarrow> 't
   \<Rightarrow> nb_client \<Rightarrow> file_kind \<Rightarrow> string \<Rightarrow> request \<Rightarrow> exn + response \<Rightarrow> pydict \<Rightarrow> log_line list" where
  "request_lines elapsed relay_context rid render_id env clock client kind tag req answer ctx =
     (let outer = request_context rid req ctx; inner = handler_context render_id kind tag outer
      in line outer LogInfo ''request.received'' [] #
         handler_lines inner elapsed env clock kind tag client @ [last_line (relay_context outer inner) elapsed answer])"

lemma serve_log_run:
  assumes "serve_log p threshold elapsed relay_context relay minted render_id env clock client kind tag req s = (answer, t)"
    and "rid = coerce_request_id minted (req_id_header req)"
  shows "answer = fst (serve_render p relay minted env clock client kind tag req m)
    \<and> t = \<lparr>bound = [], written = written s @ filter (enabled threshold)
        (request_lines elapsed relay_context rid render_id env clock client kind tag req answer (bound s))\<rparr>"
proof -
  let ?outer = "request_context rid req (bound s)" and ?r = "render_result env clock kind tag client"
  let ?inner = "handler_context render_id kind tag ?outer"
  let ?mid = "written s @ filter (enabled threshold) [line ?outer LogInfo ''request.received'' []]"
  define answered where "answered = (case ?r of Inr body \<Rightarrow> Inr (relay (plain_response body))
    | Inl e \<Rightarrow> (case lookup_handler (exn_mro e) of Some h \<Rightarrow> Inr (relay (h e)) | None \<Rightarrow> Inl e))"
  let ?next = "abind (handle_errors (handler_log threshold elapsed render_id env clock kind tag client)) (\<lambda>r. aret (relay r))"
  have "?next \<lparr>bound = ?outer, written = ?mid\<rparr>
    = (answered, \<lparr>bound = ?inner, written = ?mid @ filter (enabled threshold) (handler_lines ?inner elapsed env clock kind tag client)\<rparr>)"
    by (simp add: abind_def handle_errors_def handler_log_run Let_def answered_def del: filter.simps split: sum.splits option.splits)
  from dispatch_log_run [where call_next = ?next, OF this, OF assms(2)]
  have "serve_log p threshold elapsed relay_context relay minted render_id env clock client kind tag req s
    = (case answered of Inl e \<Rightarrow> Inl e | Inr resp \<Rightarrow> Inr (inject_cache_headers p req (set_header REQUEST_ID_HEADER rid resp)),
       \<lparr>bound = [], written = written s @ filter (enabled threshold) (line ?outer LogInfo ''request.received'' []
          # handler_lines ?inner elapsed env clock kind tag client @ [last_line (relay_context ?outer ?inner) elapsed answered])\<rparr>)"
    unfolding serve_log_def by simp
  moreover have "last_line c elapsed (case answered of Inl e \<Rightarrow> Inl e
      | Inr resp \<Rightarrow> Inr (inject_cache_headers p req (set_header REQUEST_ID_HEADER rid resp))) = last_line c elapsed answered" for c
    by (simp add: last_line_def split: sum.splits)
  ultimately show ?thesis
    using assms by (auto simp: serve_render_result answered_def request_lines_def Let_def del: filter.simps
        split: sum.splits option.splits)
qed


lemma carries_line: "map_of kvs k = None \<Longrightarrow> carries k v (line c level event kvs) \<longleftrightarrow> map_of c k = Some (PyStr v)"
  by (simp add: carries_def map_of_merge)

lemma carries_last_line: "k \<in> {''request_id'', ''method'', ''path''} \<Longrightarrow>
    carries k v (last_line c elapsed answer) \<longleftrightarrow> map_of c k = Some (PyStr v)"
  by (auto simp: last_line_def carries_line EXC_INFO_def split: sum.splits)

lemma request_lines_scope:
  assumes "relays_context relay_context" and "is_Structured l"
    and "l \<in> set (request_lines elapsed relay_context rid render_id env clock client kind tag req answer ctx)"
    and k: "k \<in> {''request_id'', ''method'', ''path''}" and v: "map_of (request_context rid req ctx) k = Some (PyStr v)"
  shows "carries k v l"
proof -
  let ?outer = "request_context rid req ctx"
  let ?inner = "handler_context render_id kind tag ?outer"
  have inner: "map_of ?inner k = Some (PyStr v)" using context_keys(6) [OF k] v by simp
  have "relay_context ?outer ?inner \<in> {?outer, ?inner}" using assms(1) unfolding relays_context_def by blast
  then have last: "map_of (relay_context ?outer ?inner) k = Some (PyStr v)" using v inner by auto
  consider (first) "l = line ?outer LogInfo ''request.received'' []"
    | (handler) "l \<in> set (handler_lines ?inner elapsed env clock kind tag client)"
    | (final) "l = last_line (relay_context ?outer ?inner) elapsed answer"
    using assms(3) unfolding request_lines_def Let_def by auto
  then show ?thesis
  proof cases
    case handler
    moreover have "k \<in> set SCOPE_KEYS" using k by (auto simp: SCOPE_KEYS_def)
    ultimately show ?thesis using handler_lines_scope inner assms(2) unfolding carries_def by metis
  qed (use v k last in \<open>simp_all add: carries_line carries_last_line\<close>)
qed

lemma render_completed_level:
  "l \<in> set (handler_lines ctx elapsed env clock kind tag client) \<Longrightarrow> line_event l = ''render.completed''
    \<Longrightarrow> line_level l = LogInfo"
  by (auto simp: handler_lines_def load_lines_def render_lines_def dest: loader_lines_plain split: sum.splits if_splits)

lemma render_completed_structured: "line_event l = ''render.completed'' \<Longrightarrow> is_Structured l"
  by (cases l) simp_all

lemma answered_200:
  assumes "faithful_relay relay"
  shows "(\<exists>r. fst (serve_render p relay minted env clock client kind tag req m) = Inr r \<and> resp_status r = 200)
    \<longleftrightarrow> (\<exists>body. render_result env clock kind tag client = Inr body)"
proof (cases "render_result env clock kind tag client")
  case (Inl e)
  then show ?thesis using lookup_handler_mro [of e]
    by (auto simp: serve_render_result Let_def faithful_simps [OF assms] split: option.splits)
qed (simp add: serve_render_result Let_def faithful_simps [OF assms] plain_response_def)

lemma answered_id:
  "fst (serve_render p relay minted env clock client kind tag req m) = Inr r
    \<Longrightarrow> header r REQUEST_ID_HEADER = Some (coerce_request_id minted (req_id_header req))"
  by (auto simp: serve_render_result Let_def inject_header header_set_header REQUEST_ID_HEADER_def
      split: sum.splits option.splits)

lemma handler_lines_carry:
  "l \<in> set (handler_lines (handler_context render_id kind tag ctx) elapsed env clock kind tag client)
    \<Longrightarrow> is_Structured l \<Longrightarrow> carries ''asset_tag'' tag l \<and> carries ''render_id'' render_id l"
  using handler_lines_scope [of l "handler_context render_id kind tag ctx" elapsed env clock kind tag client]
  by (simp add: carries_def SCOPE_KEYS_def context_keys(4,5))

text \<open>The lines at level INFO and below: first, handler's, last.\<close>

definition full_log :: "string \<Rightarrow> string \<Rightarrow> string \<Rightarrow> exn + response \<Rightarrow> log_line list \<Rightarrow> bool" where
  "full_log rid render_id tag answer lines \<longleftrightarrow> (\<exists>first mid final. lines = first # mid @ [final]
     \<and> line_event first = ''request.received''
     \<and> (\<forall>l \<in> set mid. is_Structured l \<longrightarrow> carries ''asset_tag'' tag l \<and> carries ''render_id'' render_id l)
     \<and> ((\<exists>l \<in> set mid. line_event l = ''render.completed'') \<longleftrightarrow> (\<exists>r. answer = Inr r \<and> resp_status r = 200))
     \<and> (case answer of
          Inl e \<Rightarrow> line_event final = ''request.failed''
        | Inr r \<Rightarrow> line_event final = ''request.completed''
            \<and> map_of (line_fields final) ''status_code'' = Some (PyInt (resp_status r))
            \<and> header r REQUEST_ID_HEADER = Some rid))"

lemma full_request_log:
  assumes "faithful_relay relay" and "answer = fst (serve_render p relay minted env clock client kind tag req m)"
    and rid: "rid = coerce_request_id minted (req_id_header req)" and low: "fst threshold \<le> 20"
  shows "full_log rid render_id tag answer (filter (enabled threshold)
    (request_lines elapsed relay_context rid render_id env clock client kind tag req answer ctx))"
proof -
  let ?all = "request_lines elapsed relay_context rid render_id env clock client kind tag req answer ctx"
  let ?outer = "request_context rid req ctx"
  let ?inner = "handler_context render_id kind tag ?outer"
  let ?handler = "handler_lines ?inner elapsed env clock kind tag client"
  let ?first = "line ?outer LogInfo ''request.received'' []"
  let ?final = "last_line (relay_context ?outer ?inner) elapsed answer"
  have "enabled threshold ?first" "enabled threshold ?final"
    using low by (auto simp: enabled_def level_no_def last_line_def split: sum.splits)
  then have parts: "filter (enabled threshold) ?all = ?first # filter (enabled threshold) ?handler @ [?final]"
    by (simp add: request_lines_def Let_def)
  have "(\<exists>l \<in> set (filter (enabled threshold) ?handler). line_event l = ''render.completed'')
      \<longleftrightarrow> (\<exists>l \<in> set ?handler. line_event l = ''render.completed'')"
    using render_completed_level render_completed_structured low by (fastforce simp: enabled_def level_no_def)
  then have completed: "(\<exists>l \<in> set (filter (enabled threshold) ?handler). line_event l = ''render.completed'')
      \<longleftrightarrow> (\<exists>r. answer = Inr r \<and> resp_status r = 200)"
    unfolding render_completed_line assms(2) answered_200 [OF assms(1)] .
  have final: "case answer of Inl e \<Rightarrow> line_event ?final = ''request.failed''
    | Inr r \<Rightarrow> line_event ?final = ''request.completed''
        \<and> map_of (line_fields ?final) ''status_code'' = Some (PyInt (resp_status r))
        \<and> header r REQUEST_ID_HEADER = Some rid"
    using answered_id assms(2) rid by (auto simp: last_line_def map_of_merge split: sum.splits)
  have carry: "\<forall>l \<in> set (filter (enabled threshold) ?handler). is_Structured l \<longrightarrow> carries ''asset_tag'' tag l \<and> carries ''render_id'' render_id l"
    by (auto dest: handler_lines_carry)
  show ?thesis unfolding full_log_def
  proof (intro exI conjI)
    show "line_event ?first = ''request.received''" by simp
  qed (rule parts carry completed final)+
qed

lemma request_lines_plain:
  "filter (\<lambda>l. \<not> is_Structured l) (request_lines elapsed relay_context rid render_id env clock client kind tag req answer ctx)
    = loader_lines client tag"
proof -
  have plain: "filter (\<lambda>l. \<not> is_Structured l) (loader_lines client tag) = loader_lines client tag"
    using loader_lines_plain by (auto simp: filter_id_conv)
  have last: "is_Structured (last_line c elapsed answer)" for c by (simp add: last_line_def split: sum.splits)
  show ?thesis
    by (simp add: request_lines_def Let_def handler_lines_def load_lines_def render_lines_def plain last
        split: sum.splits if_splits)
qed

text \<open>C27: which lines of a render request can be traced to it. Every line that structlog writes carries
  the id the answer returns in \<open>X-Request-Id\<close>, the method and the path; the handler's also carry
  the asset tag and one render id; nothing stays bound for the next request, whatever was bound
  before. The other lines are exactly the loader's, which name the asset tag or the device but no
  request: it logs with the standard library, outside structlog's context. At level INFO the first
  line is \<open>request.received\<close>, the last one \<open>request.completed\<close> with the status that is answered, or
  \<open>request.failed\<close> when an exception leaves the application, and \<open>render.completed\<close> is written
  exactly for an answer of 200. Logging does not change the answer.\<close>

theorem request_log_traceable:
  assumes "relays_context relay_context" and "faithful_relay relay"
    and "serve_log p threshold elapsed relay_context relay minted render_id env clock client kind tag req s = (answer, t)"
  shows "answer = fst (serve_render p relay minted env clock client kind tag req m) \<and> bound t = []
    \<and> (\<exists>lines. written t = written s @ lines
      \<and> (\<forall>l \<in> set lines. is_Structured l \<longrightarrow> carries ''request_id'' (coerce_request_id minted (req_id_header req)) l
          \<and> carries ''method'' (req_method req) l \<and> carries ''path'' (req_path req) l)
      \<and> filter (\<lambda>l. \<not> is_Structured l) lines = filter (enabled threshold) (loader_lines client tag)
      \<and> (fst threshold \<le> 20 \<longrightarrow> full_log (coerce_request_id minted (req_id_header req)) render_id tag answer lines))"
proof -
  let ?rid = "coerce_request_id minted (req_id_header req)"
  let ?all = "request_lines elapsed relay_context ?rid render_id env clock client kind tag req answer (bound s)"
  let ?lines = "filter (enabled threshold) ?all"
  have run: "answer = fst (serve_render p relay minted env clock client kind tag req m)"
    "t = \<lparr>bound = [], written = written s @ ?lines\<rparr>"
    using serve_log_run [OF assms(3) refl, of m] by blast+
  have scope: "carries ''request_id'' ?rid l \<and> carries ''method'' (req_method req) l \<and> carries ''path'' (req_path req) l"
    if "l \<in> set ?lines" "is_Structured l" for l
    using that by (auto intro: request_lines_scope [OF assms(1)] context_keys(1-3))
  have plain: "filter (\<lambda>l. \<not> is_Structured l) ?lines = filter (enabled threshold) (loader_lines client tag)"
    unfolding request_lines_plain [symmetric, of client tag elapsed relay_context ?rid render_id env clock kind req answer "bound s"]
    by (simp add: conj_commute)
  have "fst threshold \<le> 20 \<longrightarrow> full_log ?rid render_id tag answer ?lines"
    using full_request_log [OF assms(2) run(1) refl] by blast
  then show ?thesis using run scope plain by (intro conjI exI [of _ ?lines]) simp_all
qed

theorem request_log_traceable_witness:
  "\<exists>r t. serve_log sample_process (20, 20) (PyInt 1) (\<lambda>outer inner. outer) (\<lambda>r. r) 0 ''r1'' template_tree ()
       cpu_client NETWORK_CONFIG ''SN-CPU-001'' sample_request \<lparr>bound = [(''stale'', PyNone)], written = []\<rparr> = (Inr r, t)
     \<and> resp_status r = 200 \<and> bound t = [] \<and> full_log (uuid_str 0) ''r1'' ''SN-CPU-001'' (Inr r) (written t)"
proof -
  obtain a t where run: "serve_log sample_process (20, 20) (PyInt 1) (\<lambda>outer inner. outer) (\<lambda>r. r) 0 ''r1'' template_tree ()
       cpu_client NETWORK_CONFIG ''SN-CPU-001'' sample_request \<lparr>bound = [(''stale'', PyNone)], written = []\<rparr> = (a, t)"
    by fastforce
  have "relays_context (\<lambda>outer inner. outer)" by (simp add: relays_context_def)
  note ok = request_log_traceable [OF this, OF faithful_id, OF run, where m = no_metrics]
  have id: "coerce_request_id 0 (req_id_header sample_request) = uuid_str 0"
    by (simp add: sample_request_def coerce_request_id_def)
  obtain r where r: "a = Inr r" "resp_status r = 200"
    using ok answered_200 [OF faithful_id, where m = no_metrics] cpu_render_result [of "()" NETWORK_CONFIG] by metis
  show ?thesis using run ok r unfolding id by (intro exI [of _ r] exI [of _ t]) auto
qed

end
