(* ===== verification/Assignments.thy ===== *)
theory Assignments
  imports Rules
begin

text \<open>
  Changing a model after its construction (\<open>_StrictModel\<close> of src/host_config/models/interface.py and
  the configuration of \<open>VlanChild\<close> and \<open>HostIntent\<close>): with \<open>validate_assignment\<close> writing an attribute
  first checks the constraint of that field, and raises without writing if it is violated. For an
  intent the cross-field rules then run again. They are a validator of mode \<open>after\<close>, called on the
  object that has been written: when a rule raises, the attribute has its new value. So an
  assignment to an intent is an action on the object, and to the other models, which have no such
  validator, a function to the changed model or the error. Values have the field's type; the MAC
  keeps its validator.
\<close>

section \<open>Assignments to the interface and VLAN models\<close>

datatype phys_change = Set_name string | Set_mac pyval | Set_mtu int

definition assign_phys :: "phys_change \<Rightarrow> 'a phys_iface_scheme \<Rightarrow> exn + 'a phys_iface_scheme" where
  "assign_phys c p = (case c of
      Set_name name \<Rightarrow> rbind (validate_fields [(''name'', len_in 1 15 name)]) (\<lambda>_. Inr (p\<lparr>nic_name := name\<rparr>))
    | Set_mac mac \<Rightarrow> rbind (validate_fields [(''mac'', is_ok (validate_mac mac))]) (\<lambda>_.
        rbind (validate_mac mac) (\<lambda>m. Inr (p\<lparr>nic_mac := m\<rparr>)))
    | Set_mtu mtu \<Rightarrow> rbind (validate_fields [(''mtu'', int_in MIN_MTU MAX_MTU mtu)]) (\<lambda>_. Inr (p\<lparr>nic_mtu := mtu\<rparr>)))"

definition assign_sriov_vfs :: "int \<Rightarrow> 'a sriov_parent_scheme \<Rightarrow> exn + 'a sriov_parent_scheme" where
  "assign_sriov_vfs vfs p =
     rbind (validate_fields [(''sriov_vfs'', int_in 0 128 vfs)]) (\<lambda>_. Inr (p\<lparr>nic_sriov_vfs := vfs\<rparr>))"

datatype bond_change = Set_bond_name string | Set_members "string list" | Set_mode bond_mode
  | Set_lacp_rate lacp_rate | Set_hash_policy transmit_hash_policy | Set_bond_mtu int

text \<open>The uniqueness check of \<open>Bond.__init__\<close> is not a validator, so it does not run here.\<close>

definition assign_bond :: "bond_change \<Rightarrow> bond \<Rightarrow> exn + bond" where
  "assign_bond c b = (case c of
      Set_bond_name name \<Rightarrow> rbind (validate_fields [(''name'', len_in 1 15 name)]) (\<lambda>_. Inr (b\<lparr>bond_name := name\<rparr>))
    | Set_members ms \<Rightarrow> rbind (validate_fields [(''members'', len_in 2 8 ms)]) (\<lambda>_. Inr (b\<lparr>bond_members := ms\<rparr>))
    | Set_mode m \<Rightarrow> Inr (b\<lparr>bond_mode := m\<rparr>)
    | Set_lacp_rate r \<Rightarrow> Inr (b\<lparr>bond_lacp_rate := r\<rparr>)
    | Set_hash_policy p \<Rightarrow> Inr (b\<lparr>bond_hash_policy := p\<rparr>)
    | Set_bond_mtu mtu \<Rightarrow> rbind (validate_fields [(''mtu'', int_in MIN_MTU MAX_MTU mtu)]) (\<lambda>_. Inr (b\<lparr>bond_mtu := mtu\<rparr>)))"

datatype vlan_change = Set_vlan_name string | Set_parent string | Set_vlan_id int | Set_vlan_role vlan_role
  | Set_vlan_mtu int | Set_address ipv4_interface | Set_gateway "32 word option" | Set_dns "32 word list"
  | Set_search_domain "string option"

definition assign_vlan :: "vlan_change \<Rightarrow> vlan_child \<Rightarrow> exn + vlan_child" where
  "assign_vlan c v = (case c of
      Set_vlan_name name \<Rightarrow> rbind (validate_fields [(''name'', len_in 1 15 name)]) (\<lambda>_. Inr (v\<lparr>vlan_name := name\<rparr>))
    | Set_parent parent \<Rightarrow> rbind (validate_fields [(''parent'', len_in 1 15 parent)]) (\<lambda>_. Inr (v\<lparr>vlan_parent := parent\<rparr>))
    | Set_vlan_id vid \<Rightarrow> rbind (validate_fields [(''vlan_id'', int_in MIN_VLAN_ID MAX_VLAN_ID vid)]) (\<lambda>_. Inr (v\<lparr>vlan_id := vid\<rparr>))
    | Set_vlan_role r \<Rightarrow> Inr (v\<lparr>vlan_role := r\<rparr>)
    | Set_vlan_mtu mtu \<Rightarrow> rbind (validate_fields [(''mtu'', int_in MIN_MTU MAX_MTU mtu)]) (\<lambda>_. Inr (v\<lparr>vlan_mtu := mtu\<rparr>))
    | Set_address a \<Rightarrow> Inr (v\<lparr>vlan_address := a\<rparr>)
    | Set_gateway g \<Rightarrow> Inr (v\<lparr>vlan_gateway := g\<rparr>)
    | Set_dns ns \<Rightarrow> Inr (v\<lparr>vlan_dns := ns\<rparr>)
    | Set_search_domain d \<Rightarrow> Inr (v\<lparr>vlan_search_domain := d\<rparr>))"


section \<open>Assignments to an intent\<close>

datatype intent_change = Set_asset_tag string | Set_hostname string | Set_role role
  | Set_ns_nics "bond_member list" | Set_bond bond | Set_vlans "vlan_child list"
  | Set_roce_underlays "roce_underlay list" | Set_ib_underlays "infiniband_underlay list"

definition apply_change :: "intent_change \<Rightarrow> host_intent \<Rightarrow> host_intent" where
  "apply_change c i = (case c of
      Set_asset_tag t \<Rightarrow> i\<lparr>asset_tag := t\<rparr> | Set_hostname h \<Rightarrow> i\<lparr>hostname := h\<rparr>
    | Set_role r \<Rightarrow> i\<lparr>host_role := r\<rparr> | Set_ns_nics ns \<Rightarrow> i\<lparr>ns_nics := ns\<rparr> | Set_bond b \<Rightarrow> i\<lparr>host_bond := b\<rparr>
    | Set_vlans vs \<Rightarrow> i\<lparr>vlans := vs\<rparr> | Set_roce_underlays rs \<Rightarrow> i\<lparr>roce_underlays := rs\<rparr>
    | Set_ib_underlays us \<Rightarrow> i\<lparr>ib_underlays := us\<rparr>)"

definition change_fields :: "intent_change \<Rightarrow> (string \<times> bool) list" where
  "change_fields c = (case c of
      Set_asset_tag t \<Rightarrow> [(''asset_tag'', len_in 1 64 t)]
    | Set_hostname h \<Rightarrow> [(''hostname'', len_in 1 253 h)]
    | _ \<Rightarrow> [])"

definition assign_intent :: "intent_change \<Rightarrow> (host_intent, exn, unit) act" where
  "assign_intent c i = (case validate_fields (change_fields c) of
      Inl e \<Rightarrow> (Inl e, i)
    | Inr _ \<Rightarrow> let j = apply_change c i in (check_invariants j, j))"

text \<open>
  A caller that assigns several attributes one after the other: one that goes on after an error,
  with the outcome of each assignment, and (\<open>aiter assign_intent\<close>) one that lets it escape.
\<close>

primrec assign_each :: "intent_change list \<Rightarrow> host_intent \<Rightarrow> (exn + unit) list \<times> host_intent" where
  "assign_each [] i = ([], i)"
| "assign_each (c # cs) i =
     (case assign_intent c i of (r, j) \<Rightarrow> case assign_each cs j of (rs, k) \<Rightarrow> (r # rs, k))"

text \<open>The assigned models are valid themselves.\<close>

definition change_ok :: "intent_change \<Rightarrow> bool" where
  "change_ok c = (case c of
      Set_ns_nics ns \<Rightarrow> list_all wf_phys ns | Set_bond b \<Rightarrow> wf_bond b | Set_vlans vs \<Rightarrow> list_all wf_vlan vs
    | Set_roce_underlays rs \<Rightarrow> list_all wf_sriov rs | Set_ib_underlays us \<Rightarrow> list_all wf_phys us | _ \<Rightarrow> True)"


section \<open>What assignments keep\<close>

lemma assign_phys_wf: "assign_phys c p = Inr q \<Longrightarrow> wf_phys p \<Longrightarrow> wf_phys q"
  by (auto simp: assign_phys_def rbind_eq_Inr wf_phys_def dest: validate_mac_canonical split: phys_change.splits)

lemma assign_sriov_wf: "assign_sriov_vfs n p = Inr q \<Longrightarrow> wf_sriov p \<Longrightarrow> wf_sriov q"
  by (auto simp: assign_sriov_vfs_def rbind_eq_Inr wf_sriov_def wf_phys_def)

lemma assign_vlan_wf: "assign_vlan c v = Inr w \<Longrightarrow> wf_vlan v \<Longrightarrow> wf_vlan w"
  by (auto simp: assign_vlan_def rbind_eq_Inr wf_vlan_def split: vlan_change.splits)

lemma assign_bond_wf: "assign_bond c b = Inr d \<Longrightarrow> wf_bond b \<Longrightarrow> wf_bond d \<longleftrightarrow> distinct (bond_members d)"
  by (auto simp: assign_bond_def rbind_eq_Inr wf_bond_def split: bond_change.splits)

text \<open>The field bounds of an intent and of the models in it, without the cross-field rules.\<close>

definition wf_fields :: "host_intent \<Rightarrow> bool" where
  "wf_fields i \<longleftrightarrow> len_in 1 64 (asset_tag i) \<and> len_in 1 253 (hostname i)
     \<and> (\<forall>n \<in> set (ns_nics i). wf_phys n) \<and> wf_bond (host_bond i) \<and> (\<forall>v \<in> set (vlans i). wf_vlan v)
     \<and> (\<forall>r \<in> set (roce_underlays i). wf_sriov r) \<and> (\<forall>b \<in> set (ib_underlays i). wf_phys b)"

lemma wf_intent_fields: "wf_intent i \<longleftrightarrow> wf_fields i \<and> renderable i"
  by (auto simp: wf_intent_def wf_fields_def)

text \<open>Whether the assignment gets as far as writing.\<close>

definition writes :: "intent_change \<Rightarrow> bool" where
  "writes c \<longleftrightarrow> list_all snd (change_fields c)"

text \<open>
  What an assignment answers: the field whose bound the value violates, else the first rule the
  changed intent violates, else nothing.
\<close>

definition answers :: "intent_change \<Rightarrow> host_intent \<Rightarrow> exn + unit \<Rightarrow> bool" where
  "answers c i r \<longleftrightarrow>
     (if writes c
      then (case first_failure (invariant_table (apply_change c i)) of
          None \<Rightarrow> r = Inr () | Some code \<Rightarrow> \<exists>detail. r = Inl (InvariantError code detail))
      else r = Inl (ValidationError (map fst (change_fields c))))"

lemma assign_intent_run:
  "snd (assign_intent c i) = (if writes c then apply_change c i else i)"
  "answers c i (fst (assign_intent c i))"
proof -
  have "validate_fields (change_fields c) = (if writes c then Inr () else Inl (ValidationError (map fst (change_fields c))))"
    by (cases c) (auto simp: writes_def change_fields_def validate_fields_def)
  then show "snd (assign_intent c i) = (if writes c then apply_change c i else i)"
    "answers c i (fst (assign_intent c i))"
    using check_invariants_first_failure [of "apply_change c i"]
    by (auto simp: assign_intent_def answers_def Let_def split: option.splits)
qed

lemma answers_ok: "answers c i r \<Longrightarrow> is_ok r \<longleftrightarrow> writes c \<and> renderable (apply_change c i)"
  by (auto simp: answers_def renderable_first_failure split: if_splits option.splits)

lemma apply_change_fields: "wf_fields i \<Longrightarrow> change_ok c \<Longrightarrow> writes c \<Longrightarrow> wf_fields (apply_change c i)"
  by (cases c) (auto simp: wf_fields_def apply_change_def change_ok_def writes_def change_fields_def list_all_iff)

text \<open>The outcomes of the assignments that wrote.\<close>

definition write_outcomes :: "intent_change list \<Rightarrow> (exn + unit) list \<Rightarrow> (exn + unit) list" where
  "write_outcomes cs rs = map snd (filter (\<lambda>(c, r). writes c) (zip cs rs))"

lemma assign_each_run:
  assumes "assign_each cs i = (rs, j)"
  shows "length rs = length cs" and "j = fold apply_change (filter writes cs) i"
    and "wf_fields i \<Longrightarrow> \<forall>c \<in> set cs. change_ok c \<Longrightarrow> wf_fields j"
    and "renderable j \<longleftrightarrow> (if write_outcomes cs rs = [] then renderable i else is_ok (last (write_outcomes cs rs)))"
  using assms
proof (induction cs arbitrary: i rs)
  case Nil
  { case 1 then show ?case by simp }
  { case 2 then show ?case by simp }
  { case 3 then show ?case by simp }
  { case 4 then show ?case by (simp add: write_outcomes_def) }
next
  case (Cons c cs)
  have split: "\<exists>r k rs'. assign_intent c i = (r, k) \<and> assign_each cs k = (rs', j) \<and> rs = r # rs'
      \<and> k = (if writes c then apply_change c i else i) \<and> answers c i r"
    if "assign_each (c # cs) i = (rs, j)" for i rs
    using that assign_intent_run [where c = c and i = i] by (auto split: prod.splits)
  { case 1
    then obtain r k rs' where "assign_each cs k = (rs', j)" "rs = r # rs'" using split by blast
    then show ?case using Cons.IH(1) by simp }
  { case 2
    then obtain k rs' where "assign_each cs k = (rs', j)" "k = (if writes c then apply_change c i else i)"
      using split by blast
    then show ?case using Cons.IH(2) [of k rs'] by (simp split: if_splits) }
  { case 3
    then obtain k rs' where k: "assign_each cs k = (rs', j)" "k = (if writes c then apply_change c i else i)"
      using split by blast
    then have "wf_fields k" using 3 apply_change_fields by simp
    then show ?case using Cons.IH(3) [OF _ _ k(1)] 3 by simp }
  { case 4
    then obtain r k rs' where k: "assign_each cs k = (rs', j)" "rs = r # rs'"
        "k = (if writes c then apply_change c i else i)" "answers c i r"
      using split by blast
    have "renderable k \<longleftrightarrow> is_ok r" if "writes c" using answers_ok [OF k(4)] that k(3) by simp
    then show ?case using Cons.IH(4) [OF k(1)] k(2,3) by (simp add: write_outcomes_def) }
qed

lemma aiter_assign_each:
  "aiter assign_intent cs i = (Inr (), j) \<Longrightarrow> \<exists>rs. assign_each cs i = (rs, j) \<and> list_all is_ok rs"
proof (induction cs arbitrary: i)
  case (Cons c cs)
  then obtain k where k: "assign_intent c i = (Inr (), k)" "aiter assign_intent cs k = (Inr (), j)"
    by (auto simp: abind_def split: prod.splits sum.splits)
  then show ?case using Cons.IH [OF k(2)] by auto
qed (simp add: aret_def)

lemma last_outcome_ok: "list_all is_ok rs \<Longrightarrow> write_outcomes cs rs \<noteq> [] \<Longrightarrow> is_ok (last (write_outcomes cs rs))"
  using last_in_set [of "write_outcomes cs rs"]
  by (auto simp: write_outcomes_def list_all_iff dest!: set_zip_rightD)

text \<open>C10: what an intent is worth after any sequence of assignments to its fields. Its field bounds hold
  throughout. Each assignment answers with the field whose bound the value violates, and has then
  written nothing, or else with the first cross-field rule the changed intent violates, and has
  then written all the same. So a caller that goes on after errors holds the result of all
  assignments within bounds, and it satisfies the rules exactly if the last of these returned; a
  caller that lets the first error escape holds a well-formed intent whenever it gets to the end.\<close>

theorem intent_after_assignments:
  assumes "wf_intent i" and "\<forall>c \<in> set cs. change_ok c" and "assign_each cs i = (rs, j)"
  shows "j = fold apply_change (filter writes cs) i \<and> wf_fields j
    \<and> (wf_intent j \<longleftrightarrow> write_outcomes cs rs = [] \<or> is_ok (last (write_outcomes cs rs)))
    \<and> (\<forall>before c after. cs = before @ c # after \<longrightarrow> answers c (snd (assign_each before i)) (rs ! length before))
    \<and> (\<forall>k. aiter assign_intent cs i = (Inr (), k) \<longrightarrow> wf_intent k)"
proof -
  have wf: "wf_fields i" "renderable i" using assms(1) by (simp_all add: wf_intent_fields)
  note run = assign_each_run(2) [OF assms(3)] assign_each_run(3) [OF assms(3) wf(1) assms(2)]
    assign_each_run(4) [OF assms(3)]
  have good: "wf_intent j \<longleftrightarrow> write_outcomes cs rs = [] \<or> is_ok (last (write_outcomes cs rs))"
    using run(2,3) wf(2) by (simp add: wf_intent_fields)
  have "answers c (snd (assign_each before i)) (rs ! length before)" if "cs = before @ c # after" for before c after
    using assms(3) unfolding that
  proof (induction before arbitrary: i rs)
    case Nil
    then show ?case using assign_intent_run(2) [of c i] by (auto split: prod.splits)
  next
    case (Cons b before)
    obtain r k where k: "assign_intent b i = (r, k)" by fastforce
    then obtain rs' where rs: "assign_each (before @ c # after) k = (rs', j)" "rs = r # rs'"
      using Cons.prems by (auto split: prod.splits)
    show ?case using Cons.IH [OF rs(1)] k rs(2) by (auto split: prod.splits)
  qed
  moreover have "wf_intent k" if "aiter assign_intent cs i = (Inr (), k)" for k
    using aiter_assign_each [OF that] assms(3) good last_outcome_ok by auto
  ultimately show ?thesis using run(1,2) good by blast
qed

theorem intent_after_assignments_witness:
  "\<exists>rs j. assign_each [Set_ns_nics [], Set_hostname '''', Set_ns_nics (rev cpu_members)] cpu_intent = (rs, j)
     \<and> j = cpu_intent\<lparr>ns_nics := rev cpu_members\<rparr> \<and> answers (Set_ns_nics []) cpu_intent (rs ! 0)"
proof -
  let ?cs = "[Set_ns_nics [], Set_hostname '''', Set_ns_nics (rev cpu_members)]"
  obtain rs j where run: "assign_each ?cs cpu_intent = (rs, j)" by fastforce
  have "\<forall>c \<in> set ?cs. change_ok c" by code_simp
  note after = intent_after_assignments [OF cpu_wf, OF this, OF run]
  then have "j = fold apply_change (filter writes ?cs) cpu_intent" by blast
  then have "j = cpu_intent\<lparr>ns_nics := rev cpu_members\<rparr>"
    by (simp add: writes_def change_fields_def apply_change_def len_in_def)
  moreover have "answers (Set_ns_nics []) cpu_intent (rs ! 0)"
    using after by (metis append_Nil assign_each.simps(1) list.size(3) snd_conv)
  ultimately show ?thesis using run by blast
qed


section \<open>What escapes the checks\<close>

text \<open>
  The checks hang on the attribute that is written, not on the value behind it. A bond takes
  repeated members by assignment, which its constructor refuses; a bond that is changed
  through the intent it belongs to is not checked against the intent, which would refuse it; and
  an assignment the intent refuses has been made when its error is caught.
\<close>

theorem nested_assignment_escapes:
  "assign_bond (Set_members [''nsa'', ''nsa'']) cpu_bond = Inr (cpu_bond\<lparr>bond_members := [''nsa'', ''nsa'']\<rparr>)
   \<and> mk_bond ''bond0'' [''nsa'', ''nsa''] Mode_802_3ad LacpFast Layer3_4 9000 = Inl (ValueError ''Bond.members must be unique'')
   \<and> assign_bond (Set_bond_mtu 1500) (host_bond cpu_intent) = Inr ((host_bond cpu_intent)\<lparr>bond_mtu := 1500\<rparr>)
   \<and> \<not> renderable (cpu_intent\<lparr>host_bond := (host_bond cpu_intent)\<lparr>bond_mtu := 1500\<rparr>\<rparr>)
   \<and> \<not> is_ok (fst (assign_intent (Set_bond ((host_bond cpu_intent)\<lparr>bond_mtu := 1500\<rparr>)) cpu_intent))
   \<and> snd (assign_intent (Set_bond ((host_bond cpu_intent)\<lparr>bond_mtu := 1500\<rparr>)) cpu_intent)
       = cpu_intent\<lparr>host_bond := (host_bond cpu_intent)\<lparr>bond_mtu := 1500\<rparr>\<rparr>"
proof -
  have "assign_bond (Set_bond_mtu 1500) b = Inr (b\<lparr>bond_mtu := 1500\<rparr>)" for b
    by (simp add: assign_bond_def rbind_eq_Inr int_in_def MIN_MTU_def MAX_MTU_def)
  moreover have "assign_bond (Set_members [''nsa'', ''nsa'']) b = Inr (b\<lparr>bond_members := [''nsa'', ''nsa'']\<rparr>)" for b
    by (simp add: assign_bond_def rbind_eq_Inr len_in_def)
  moreover have "\<not> renderable (cpu_intent\<lparr>host_bond := (host_bond cpu_intent)\<lparr>bond_mtu := 1500\<rparr>\<rparr>)"
    by (simp add: renderable_unfold cpu_intent_def cpu_vlans_def)
  moreover from this have "\<not> is_ok (fst (assign_intent (Set_bond ((host_bond cpu_intent)\<lparr>bond_mtu := 1500\<rparr>)) cpu_intent))"
    using answers_ok [OF assign_intent_run(2)] by (auto simp: apply_change_def)
  moreover have "snd (assign_intent (Set_bond b) i) = i\<lparr>host_bond := b\<rparr>" for b i
    by (simp add: assign_intent_run writes_def change_fields_def apply_change_def)
  ultimately show ?thesis by (simp add: mk_bond_def)
qed

text \<open>
  An address without a prefix length is taken as a network of one host, whose first host is the
  address itself: the host would be its own default gateway, and no rule objects.
\<close>

theorem bare_address_own_gateway:
  assumes "parse_interface (ipv4_str w) = Inr a"
  shows "if_plen a = 32 \<and> derive_gateway a = Inr w"
proof -
  have a: "a = \<lparr>if_ip = w, if_plen = 32\<rparr>" using assms by (simp add: parse_interface_no_prefix)
  have "unat (network_address a) = unat w" using unat_network [of a] by (simp add: a block_size_def)
  then show ?thesis using derive_gateway_total [of a] by (simp add: a hosts_range_def Let_def)
qed

definition without_prefix :: "vlan_child \<Rightarrow> vlan_child" where
  "without_prefix v = (if vlan_gateway v = None then v
     else v\<lparr>vlan_address := (vlan_address v)\<lparr>if_plen := 32\<rparr>, vlan_gateway := Some (if_ip (vlan_address v))\<rparr>)"

theorem own_gateway_accepted:
  assumes "wf_intent i"
  shows "wf_intent (i\<lparr>vlans := map without_prefix (vlans i)\<rparr>)"
proof -
  have same: "vlan_name (without_prefix v) = vlan_name v" "vlan_role (without_prefix v) = vlan_role v"
    "vlan_parent (without_prefix v) = vlan_parent v" "vlan_mtu (without_prefix v) = vlan_mtu v"
    "vlan_id (without_prefix v) = vlan_id v" "if_ip (vlan_address (without_prefix v)) = if_ip (vlan_address v)"
    "vlan_gateway (without_prefix v) = None \<longleftrightarrow> vlan_gateway v = None" for v
    by (simp_all add: without_prefix_def)
  show ?thesis
    using assms unfolding wf_intent_def renderable_unfold all_names_def all_ips_def
    by (simp del: not_None_eq add: same o_def filter_map wf_vlan_def) (metis (no_types))
qed

theorem own_gateway_accepted_witness:
  "\<exists>v \<in> set (vlans (cpu_intent\<lparr>vlans := map without_prefix (vlans cpu_intent)\<rparr>)).
     derive_gateway (vlan_address v) = Inr (if_ip (vlan_address v)) \<and> vlan_gateway v = Some (if_ip (vlan_address v))"
proof -
  have "wf_intent (cpu_intent\<lparr>vlans := map without_prefix (vlans cpu_intent)\<rparr>)"
    by (rule own_gateway_accepted [OF cpu_wf])
  moreover have "derive_gateway \<lparr>if_ip = 170527243, if_plen = 32\<rparr> = Inr 170527243"
    using bare_address_own_gateway [OF parse_interface_no_prefix [of 170527243]] by simp
  ultimately show ?thesis by (simp add: cpu_intent_def cpu_vlans_def without_prefix_def)
qed

end
