(* ===== verification/Command_Line.thy ===== *)
theory Command_Line
  imports Validate_Props Populate Prepare_Image Paths "HOL-Library.AList"
begin

text \<open>
  The command lines of the three programs (scripts/validate_h200_host.py,
  fixtures/netbox/populate.py, fixtures/vms/prepare_image.py): \<open>argparse\<close> as they use it, without
  positional arguments, with optional ones that store a text, an integer or a choice, or set a
  flag, the abbreviations it accepts and the \<open>-h\<close> option it adds, as of Python 3.12; then the
  parsers as tables and the programs from their arguments to their exit status. What is printed
  for \<open>--help\<close> and for a usage error is left out. A path is its text (Paths).
\<close>

section \<open>Option tables\<close>

datatype conversion = As_text | As_path | As_int | One_of "string list"

datatype opt_action = Store conversion | Store_true

record option_spec =
  opt_flag :: string
  opt_dest :: string
  opt_action :: opt_action
  opt_default :: pyval

datatype flag = Help | Option option_spec

definition flags :: "option_spec list \<Rightarrow> (string \<times> flag) list" where
  "flags specs = [(''-h'', Help), (''--help'', Help)] @ map (\<lambda>d. (opt_flag d, Option d)) specs"

definition convert :: "conversion \<Rightarrow> string \<Rightarrow> pyval option" where
  "convert c s = (case c of
      As_text \<Rightarrow> Some (PyStr s)
    | As_path \<Rightarrow> Some (PyStr (path_text s))
    | As_int \<Rightarrow> if MAX_STR_DIGITS < digit_count s then None else map_option PyInt (int_of_str s)
    | One_of choices \<Rightarrow> if s \<in> set choices then Some (PyStr s) else None)"


section \<open>What an argument is taken for\<close>

text \<open>\<open>Flag f explicit\<close>: an option, with the text after its \<open>=\<close> if there is one; \<open>Joined rest\<close>: \<open>-h\<close>
  with characters directly behind it.\<close>

datatype arg_class = Word | Flag flag "string option" | Joined string | Unknown | Ambiguous

definition split_eq :: "string \<Rightarrow> string \<times> string option" where
  "split_eq s = (takeWhile (\<lambda>c. c \<noteq> CHR ''='') s,
     case dropWhile (\<lambda>c. c \<noteq> CHR ''='') s of [] \<Rightarrow> None | _ # e \<Rightarrow> Some e)"

text \<open>\<open>^-\d+$|^-\d*\.\d+$\<close>\<close>

definition negative_number :: "string \<Rightarrow> bool" where
  "negative_number s = (case s of [] \<Rightarrow> False | c # r0 \<Rightarrow>
     let r = (if r0 \<noteq> [] \<and> last r0 = CHR 0x0A then butlast r0 else r0) in
     c = CHR ''-'' \<and> (py_isdigit r \<or> (case split_char CHR ''.'' r of
        [a, b] \<Rightarrow> (a = [] \<or> py_isdigit a) \<and> py_isdigit b | _ \<Rightarrow> False)))"

definition candidates :: "option_spec list \<Rightarrow> string \<Rightarrow> arg_class list" where
  "candidates specs s =
     (if starts_with ''--'' s
      then (case split_eq s of (prefix, explicit) \<Rightarrow>
        map (\<lambda>(_, f). Flag f explicit) (filter (\<lambda>(name, _). starts_with prefix name) (flags specs)))
      else if starts_with ''-h'' s then [Joined (drop 2 s)] else [])"

definition classify :: "option_spec list \<Rightarrow> string \<Rightarrow> arg_class" where
  "classify specs s =
     (if s = [] \<or> hd s \<noteq> CHR ''-'' then Word
      else case map_of (flags specs) s of
        Some f \<Rightarrow> Flag f None
      | None \<Rightarrow>
          if length s = 1 then Word
          else case split_eq s of (name, explicit) \<Rightarrow>
            (case if explicit = None then None else map_of (flags specs) name of
               Some f \<Rightarrow> Flag f explicit
             | None \<Rightarrow> (case candidates specs s of
                   [c] \<Rightarrow> c
                 | [] \<Rightarrow> if negative_number s \<or> CHR '' '' \<in> set s then Word else Unknown
                 | _ \<Rightarrow> Ambiguous)))"


section \<open>Parsing\<close>

datatype parsed = Namespace pydict | System_exit int

definition set_dest :: "string \<Rightarrow> pyval \<Rightarrow> pydict \<Rightarrow> pydict" where
  "set_dest k v ns = AList.update k v ns"

text \<open>\<open>-h\<close> with characters behind it: more single-letter flags, of which there is only \<open>h\<close>.\<close>

fun joined_exit :: "string \<Rightarrow> int" where
  "joined_exit [] = 0"
| "joined_exit (c # r) =
     (if c = CHR ''-'' then 2
      else if c = CHR ''h'' then (if r \<noteq> [] \<and> hd r = CHR ''='' then 2 else joined_exit r)
      else 0)"

text \<open>
  The arguments from left to right; \<open>extras\<close> says whether one was not recognised, which is
  reported at the end. Everything behind \<open>--\<close> is a word, and no option is left to take it.
\<close>

fun consume :: "option_spec list \<Rightarrow> pydict \<Rightarrow> bool \<Rightarrow> string list \<Rightarrow> parsed" where
  "consume specs ns extras [] = (if extras then System_exit 2 else Namespace ns)"
| "consume specs ns extras (a # as) =
     (if a = ''--'' then System_exit 2
      else case classify specs a of
        Word \<Rightarrow> consume specs ns True as
      | Unknown \<Rightarrow> consume specs ns True as
      | Ambiguous \<Rightarrow> System_exit 2
      | Joined r \<Rightarrow> System_exit (joined_exit r)
      | Flag Help None \<Rightarrow> System_exit 0
      | Flag Help (Some _) \<Rightarrow> System_exit 2
      | Flag (Option d) explicit \<Rightarrow> (case opt_action d of
            Store_true \<Rightarrow>
              if explicit = None then consume specs (set_dest (opt_dest d) (PyBool True) ns) extras as
              else System_exit 2
          | Store c \<Rightarrow> (case explicit of
                Some v \<Rightarrow> (case convert c v of
                    None \<Rightarrow> System_exit 2
                  | Some x \<Rightarrow> consume specs (set_dest (opt_dest d) x ns) extras as)
              | None \<Rightarrow> (case as of
                    [] \<Rightarrow> System_exit 2
                  | v # rest \<Rightarrow>
                      if v = ''--'' \<or> classify specs v \<noteq> Word then System_exit 2
                      else (case convert c v of
                          None \<Rightarrow> System_exit 2
                        | Some x \<Rightarrow> consume specs (set_dest (opt_dest d) x ns) extras rest)))))"

definition defaults :: "option_spec list \<Rightarrow> pydict" where
  "defaults specs = map (\<lambda>d. (opt_dest d, opt_default d)) specs"

definition parse_args :: "option_spec list \<Rightarrow> string list \<Rightarrow> parsed" where
  "parse_args specs argv =
     (if list_ex (\<lambda>a. classify specs a = Ambiguous) (takeWhile (\<lambda>a. a \<noteq> ''--'') argv) then System_exit 2
      else consume specs (defaults specs) False argv)"


section \<open>The programs\<close>

definition opt :: "string \<Rightarrow> string \<Rightarrow> opt_action \<Rightarrow> pyval \<Rightarrow> option_spec" where
  "opt name dest action v =
     \<lparr>opt_flag = name, opt_dest = dest, opt_action = action, opt_default = v\<rparr>"

definition validate_options :: "option_spec list" where
  "validate_options =
     [opt ''--rails'' ''rails'' (Store As_int) (PyInt 8),
      opt ''--ipoib-mtu'' ''ipoib_mtu'' (Store As_int) (PyInt 2044),
      opt ''--vlan-count'' ''vlan_count'' (Store As_int) (PyInt 3),
      opt ''--json'' ''json'' Store_true (PyBool False)]"

definition int_arg :: "pydict \<Rightarrow> string \<Rightarrow> int" where
  "int_arg ns k = (case dict_get ns k of PyInt n \<Rightarrow> n | _ \<Rightarrow> 0)"

definition text_arg :: "pydict \<Rightarrow> string \<Rightarrow> string option" where
  "text_arg ns k = (case dict_get ns k of PyStr s \<Rightarrow> Some s | _ \<Rightarrow> None)"

definition flag_arg :: "pydict \<Rightarrow> string \<Rightarrow> bool" where
  "flag_arg ns k \<longleftrightarrow> dict_get ns k = PyBool True"

definition validate_cli :: "probe \<Rightarrow> string list \<Rightarrow> exn + report option \<times> int" where
  "validate_cli probe argv = (case parse_args validate_options argv of
      System_exit n \<Rightarrow> Inr (None, n)
    | Namespace ns \<Rightarrow>
        rbind (validate_main probe (int_arg ns ''rails'') (int_arg ns ''ipoib_mtu'') (int_arg ns ''vlan_count'')
          (flag_arg ns ''json'')) (\<lambda>(rep, code). Inr (Some rep, code)))"

text \<open>\<open>data_dir\<close> is the directory beside populate.py.\<close>

definition populate_options :: "string \<Rightarrow> option_spec list" where
  "populate_options data_dir =
     [opt ''--url'' ''url'' (Store As_text) (PyStr ''http://127.0.0.1:8000''),
      opt ''--token'' ''token'' (Store As_text) PyNone,
      opt ''--token-file'' ''token_file'' (Store As_path) PyNone,
      opt ''--data-dir'' ''data_dir'' (Store As_path) (PyStr data_dir),
      opt ''--log-level'' ''log_level'' (Store (One_of [''DEBUG'', ''INFO'', ''WARNING'', ''ERROR''])) (PyStr ''INFO'')]"

text \<open>\<open>read_file\<close> answers a path that exists with its text or the error of reading it; \<open>yaml_files\<close>
  lists the \<open>*.yaml\<close> of a directory.\<close>

definition populate_cli ::
  "(string \<Rightarrow> string \<Rightarrow> 's netbox_api) \<Rightarrow> (string \<Rightarrow> exn + host_fixture) \<Rightarrow> (string \<Rightarrow> (exn + string) option)
   \<Rightarrow> (string \<Rightarrow> string list) \<Rightarrow> string \<Rightarrow> string \<Rightarrow> string list \<Rightarrow> ('s, exn, int \<times> string option) act" where
  "populate_cli connect load read_file yaml_files home data_dir argv s =
     (case parse_args (populate_options data_dir) argv of
        System_exit n \<Rightarrow> (Inr (n, None), s)
      | Namespace ns \<Rightarrow>
          let token_path = (case text_arg ns ''token_file'' of
                Some p \<Rightarrow> p | None \<Rightarrow> path_join home ''.host-config/netbox-token'')
          in populate_main connect load (the (text_arg ns ''url'')) (text_arg ns ''token'') (read_file token_path)
               (yaml_files (the (text_arg ns ''data_dir''))) s)"

definition prepare_options :: "option_spec list" where
  "prepare_options =
     [opt ''--prepare'' ''prepare'' Store_true (PyBool False),
      opt ''--out'' ''out'' (Store As_path) PyNone,
      opt ''--force'' ''force'' Store_true (PyBool False)]"

text \<open>\<open>image_dir\<close> is the directory \<open>images\<close> beside prepare_image.py.\<close>

definition DEFAULT_IMAGE_NAME :: string where
  "DEFAULT_IMAGE_NAME = ''ubuntu-noble-base.img''"

definition prepare_command :: "prep_env \<Rightarrow> string \<Rightarrow> string list \<Rightarrow> (files, prep_error, int) act" where
  "prepare_command env image_dir argv s = (case parse_args prepare_options argv of
      System_exit n \<Rightarrow> (Inr n, s)
    | Namespace ns \<Rightarrow>
        prepare_cli env (case text_arg ns ''out'' of Some p \<Rightarrow> p | None \<Rightarrow> path_join image_dir DEFAULT_IMAGE_NAME)
          (flag_arg ns ''prepare'') (flag_arg ns ''force'') s)"


section \<open>From arguments to programs\<close>

lemma joined_exit_status: "joined_exit r \<in> {0, 2}"
  by (induction r) auto

lemma consume_exit: "consume specs ns extras argv = System_exit n \<Longrightarrow> n \<in> {0, 2}"
  using joined_exit_status
  by (induction specs ns extras argv rule: consume.induct)
     (auto split: if_splits arg_class.splits flag.splits option.splits opt_action.splits list.splits)

lemma parse_args_exit: "parse_args specs argv = System_exit n \<Longrightarrow> n \<in> {0, 2}"
  by (auto simp: parse_args_def dest: consume_exit split: if_splits)

lemma opt_simps [simp]:
  "opt_flag (opt name dest action v) = name" "opt_dest (opt name dest action v) = dest"
  "opt_action (opt name dest action v) = action" "opt_default (opt name dest action v) = v"
  by (simp_all add: opt_def)

lemmas table_defs = flags_def opt_def validate_options_def populate_options_def prepare_options_def


text \<open>An integer is never taken for an option.\<close>

lemma classify_int: "classify validate_options (str_int n) = Word" "str_int n \<noteq> ''--''"
proof -
  obtain c r where s: "str_nat (nat \<bar>n\<bar>) = c # r" "is_digit c" "list_all is_digit r" by (rule str_nat_parts)
  note c = digit_plain [OF s(2)]
  have "classify validate_options (str_int n) = Word \<and> str_int n \<noteq> ''--''"
  proof (cases "n < 0")
    case True
    then have i: "str_int n = CHR ''-'' # c # r" using s(1) by (simp add: str_int_def abs_if)
    have "last (c # r) \<noteq> CHR 0x0A" using s(2,3) digit_plain by (metis last_in_set list.distinct(1) list.pred_set set_ConsD)
    then have "negative_number (str_int n)"
      using s(2,3) by (simp add: negative_number_def i Let_def py_isdigit_def)
    moreover have "\<forall>x \<in> set r. x \<noteq> CHR ''=''" using s(3) digit_plain by (auto simp: list_all_iff)
    then have "dropWhile (\<lambda>x. x \<noteq> CHR ''='') r = []" by simp
    ultimately show ?thesis
      using c by (simp add: classify_def i table_defs split_eq_def candidates_def starts_with_def)
  next
    case False
    then have "str_int n = c # r" using s(1) by (simp add: str_int_def)
    then show ?thesis using c by (simp add: classify_def)
  qed
  then show "classify validate_options (str_int n) = Word" "str_int n \<noteq> ''--''" by simp_all
qed

text \<open>The integers whose decimal text is not too long to be read.\<close>

definition int_readable :: "int \<Rightarrow> bool" where
  "int_readable n \<longleftrightarrow> nat \<bar>n\<bar> < 10 ^ MAX_STR_DIGITS"

lemma str_nat_length_le: "length (str_nat n) \<le> Suc k \<longleftrightarrow> n < 10 ^ Suc k"
proof (induction k arbitrary: n)
  case 0
  have "n \<ge> 10 \<Longrightarrow> str_nat (n div 10) \<noteq> []" by simp
  then show ?case by (subst str_nat.simps) (auto simp: not_less)
next
  case (Suc k)
  have "n < 10 ^ Suc (Suc k) \<longleftrightarrow> n div 10 < 10 ^ Suc k"
    by (simp add: div_less_iff_less_mult)
  moreover have "(1::nat) \<le> 10 ^ k" by simp
  ultimately show ?case using Suc [of "n div 10"]
    by (subst str_nat.simps) (cases "n < 10", simp_all add: less_le_trans)
qed

lemma int_readable_count: "MAX_STR_DIGITS < digit_count (str_int n) \<longleftrightarrow> \<not> int_readable n"
proof -
  have "filter is_digit (str_nat m) = str_nat m" for m
    using str_nat_digits [of m] by (simp add: filter_id_conv list_all_iff)
  moreover have "\<not> is_digit CHR ''-''" by (simp add: is_digit_def)
  ultimately have "digit_count (str_int n) = length (str_nat (nat \<bar>n\<bar>))"
    by (simp add: digit_count_def str_int_def abs_if)
  moreover have "MAX_STR_DIGITS = Suc 4299" by (simp add: MAX_STR_DIGITS_def)
  ultimately show ?thesis
    using str_nat_length_le [of "nat \<bar>n\<bar>" 4299] unfolding int_readable_def by (metis not_le)
qed

lemma convert_int: "convert As_int (str_int n) = (if int_readable n then Some (PyInt n) else None)"
  by (simp add: convert_def int_readable_count int_of_str_int)

lemma validate_args:
  "parse_args validate_options ([''--rails='' @ str_int r, ''--ipoib-mtu='' @ str_int m, ''--vlan-count='' @ str_int k]
      @ (if j then [''--json''] else []))
   = (if list_all int_readable [r, m, k]
      then Namespace [(''rails'', PyInt r), (''ipoib_mtu'', PyInt m), (''vlan_count'', PyInt k), (''json'', PyBool j)]
      else System_exit 2)"
  by (simp add: parse_args_def classify_def split_eq_def table_defs convert_int set_dest_def defaults_def)


lemma validate_words:
  "parse_args validate_options ([''--rails'', str_int r, ''--ipoib-mtu'', str_int m, ''--vlan-count'', str_int k]
      @ (if j then [''--json''] else []))
   = (if list_all int_readable [r, m, k]
      then Namespace [(''rails'', PyInt r), (''ipoib_mtu'', PyInt m), (''vlan_count'', PyInt k), (''json'', PyBool j)]
      else System_exit 2)"
proof -
  have flag: "classify validate_options ''--rails'' = Flag (Option (opt ''--rails'' ''rails'' (Store As_int) (PyInt 8))) None"
    "classify validate_options ''--ipoib-mtu'' = Flag (Option (opt ''--ipoib-mtu'' ''ipoib_mtu'' (Store As_int) (PyInt 2044))) None"
    "classify validate_options ''--vlan-count'' = Flag (Option (opt ''--vlan-count'' ''vlan_count'' (Store As_int) (PyInt 3))) None"
    "classify validate_options ''--json'' = Flag (Option (opt ''--json'' ''json'' Store_true (PyBool False))) None"
    by (simp_all add: classify_def table_defs)
  show ?thesis
    by (simp add: parse_args_def flag classify_int convert_int set_dest_def defaults_def)
       (simp add: table_defs)
qed


lemma populate_args:
  "parse_args (populate_options dir) [''--url='' @ u, ''--token='' @ t, ''--data-dir='' @ d]
   = Namespace [(''url'', PyStr u), (''token'', PyStr t), (''token_file'', PyNone),
       (''data_dir'', PyStr (path_text d)), (''log_level'', PyStr ''INFO'')]"
  by (simp add: parse_args_def classify_def split_eq_def table_defs convert_def set_dest_def defaults_def)

lemma prepare_args:
  "parse_args prepare_options ((if c then [''--prepare''] else []) @ [''--out='' @ out_path] @ (if f then [''--force''] else []))
   = Namespace [(''prepare'', PyBool c), (''out'', PyStr (path_text out_path)), (''force'', PyBool f)]"
  by (simp add: parse_args_def classify_def split_eq_def table_defs convert_def set_dest_def defaults_def)

lemma prepare_no_args:
  "parse_args prepare_options [] = Namespace [(''prepare'', PyBool False), (''out'', PyNone), (''force'', PyBool False)]"
  by (simp add: parse_args_def table_defs defaults_def)

lemma no_args:
  "parse_args validate_options [] = Namespace [(''rails'', PyInt 8), (''ipoib_mtu'', PyInt 2044), (''vlan_count'', PyInt 3),
     (''json'', PyBool False)]"
  by (simp add: parse_args_def table_defs defaults_def)

lemma validate_main_status: "validate_main probe r m k j = Inr (rep, n) \<Longrightarrow> n \<in> {0, 1}"
  by (auto simp: validate_main_def Let_def rbind_eq_Inr split: if_splits)

lemma populate_main_status:
  "populate_main connect load url token token_file paths s = (Inr (n, out), t) \<Longrightarrow> n \<in> {0, 1}"
  by (auto simp: populate_main_def split: if_splits sum.splits prod.splits)

text \<open>
  Exit status 2 is a usage error, which together with \<open>--help\<close> changes nothing; every other run
  that returns exits with 0 or 1.
\<close>

theorem populate_exit_status:
  "populate_cli connect load read_file yaml_files home dir argv s = (Inr (n, out), t)
    \<Longrightarrow> n \<in> {0, 1, 2} \<and> (parse_args (populate_options dir) argv \<in> range System_exit \<longrightarrow> t = s)"
proof (cases "parse_args (populate_options dir) argv")
  case (Namespace ns)
  assume "populate_cli connect load read_file yaml_files home dir argv s = (Inr (n, out), t)"
  then show ?thesis
    using Namespace by (auto simp: populate_cli_def Let_def dest!: populate_main_status)
next
  case (System_exit k)
  assume "populate_cli connect load read_file yaml_files home dir argv s = (Inr (n, out), t)"
  then show ?thesis using System_exit parse_args_exit [OF System_exit] by (auto simp: populate_cli_def)
qed

text \<open>C40: what is written on a command line is what the program runs with. The validator takes any
  integers of at most 4300 digits, negative ones included, joined by \<open>=\<close> or as words of their own,
  and exits with 2 for longer ones; without arguments it expects eight rails, MTU 2044 and three
  VLANs. The fixture loader takes any text for its URL and token, and it and the image preparation
  take any text for a path and go on with the path it denotes, without arguments with the
  image beside the program. Whatever the arguments, when the validator returns its status is 0
  or 1 for a report, and 2 or 0 when it only prints usage.\<close>

theorem command_lines:
  "validate_cli probe ([''--rails='' @ str_int r, ''--ipoib-mtu='' @ str_int m, ''--vlan-count='' @ str_int k]
        @ (if j then [''--json''] else []))
      = (if list_all int_readable [r, m, k]
         then rbind (validate_main probe r m k j) (\<lambda>(rep, code). Inr (Some rep, code)) else Inr (None, 2))
   \<and> validate_cli probe ([''--rails'', str_int r, ''--ipoib-mtu'', str_int m, ''--vlan-count'', str_int k]
        @ (if j then [''--json''] else []))
      = (if list_all int_readable [r, m, k]
         then rbind (validate_main probe r m k j) (\<lambda>(rep, code). Inr (Some rep, code)) else Inr (None, 2))
   \<and> validate_cli probe [] = rbind (validate_main probe 8 2044 3 False) (\<lambda>(rep, code). Inr (Some rep, code))
   \<and> populate_cli connect load read_file yaml_files home dir [''--url='' @ u, ''--token='' @ t, ''--data-dir='' @ d]
        = populate_main connect load u (Some t) (read_file (path_join home ''.host-config/netbox-token''))
            (yaml_files (path_text d))
   \<and> prepare_command env image_dir ((if c then [''--prepare''] else []) @ [''--out='' @ out_path] @ (if f then [''--force''] else []))
        = prepare_cli env (path_text out_path) c f
   \<and> prepare_command env image_dir [] = prepare_cli env (path_join image_dir ''ubuntu-noble-base.img'') False False
   \<and> (case validate_cli probe argv of
        Inr (Some rep, n) \<Rightarrow> n \<in> {0, 1} | Inr (None, n) \<Rightarrow> n \<in> {0, 2} | Inl e \<Rightarrow> True)"
proof (intro conjI)
  show "validate_cli probe ([''--rails='' @ str_int r, ''--ipoib-mtu='' @ str_int m, ''--vlan-count='' @ str_int k]
        @ (if j then [''--json''] else []))
      = (if list_all int_readable [r, m, k]
         then rbind (validate_main probe r m k j) (\<lambda>(rep, code). Inr (Some rep, code)) else Inr (None, 2))"
    unfolding validate_cli_def validate_args by (simp add: int_arg_def flag_arg_def dict_get_def)
  show "validate_cli probe ([''--rails'', str_int r, ''--ipoib-mtu'', str_int m, ''--vlan-count'', str_int k]
        @ (if j then [''--json''] else []))
      = (if list_all int_readable [r, m, k]
         then rbind (validate_main probe r m k j) (\<lambda>(rep, code). Inr (Some rep, code)) else Inr (None, 2))"
    unfolding validate_cli_def validate_words by (simp add: int_arg_def flag_arg_def dict_get_def)
  show "validate_cli probe [] = rbind (validate_main probe 8 2044 3 False) (\<lambda>(rep, code). Inr (Some rep, code))"
    by (simp add: validate_cli_def no_args int_arg_def flag_arg_def dict_get_def)
  show "populate_cli connect load read_file yaml_files home dir [''--url='' @ u, ''--token='' @ t, ''--data-dir='' @ d]
      = populate_main connect load u (Some t) (read_file (path_join home ''.host-config/netbox-token''))
          (yaml_files (path_text d))"
    unfolding fun_eq_iff populate_cli_def populate_args by (simp add: text_arg_def dict_get_def)
  show "prepare_command env image_dir ((if c then [''--prepare''] else []) @ [''--out='' @ out_path] @ (if f then [''--force''] else []))
      = prepare_cli env (path_text out_path) c f"
    unfolding fun_eq_iff prepare_command_def prepare_args by (simp add: text_arg_def flag_arg_def dict_get_def)
  show "prepare_command env image_dir [] = prepare_cli env (path_join image_dir ''ubuntu-noble-base.img'') False False"
    unfolding fun_eq_iff prepare_command_def prepare_no_args
    by (simp add: text_arg_def flag_arg_def dict_get_def DEFAULT_IMAGE_NAME_def)
  show "case validate_cli probe argv of
        Inr (Some rep, n) \<Rightarrow> n \<in> {0, 1} | Inr (None, n) \<Rightarrow> n \<in> {0, 2} | Inl e \<Rightarrow> True"
    using parse_args_exit [of validate_options argv]
    by (auto simp: validate_cli_def rbind_eq_Inr dest!: validate_main_status split: parsed.splits sum.splits option.splits prod.splits)
qed

end
