(* ===== verification/Spec2Isabelle.thy ===== *)
theory Spec2Isabelle
  imports Rules Schema_Props Service_Props Validate_Props Processes Prepare_Image
    Fixture_Props Startup Deployment Template_Source Netplan_Document
    Provisioning Request_Log Assignments Command_Line
begin

text \<open>
  Verification development for host-config, the renderer that turns a bare-metal host's record in
  Netbox into its cloud-init payloads.

  The program. A consumer asks the HTTP service (src/host_config/service) for one of three files of
  an asset. The loader (src/host_config/netbox/loader.py) reads the host's device, interfaces and
  addresses from Netbox and builds a typed intent (src/host_config/models), whose construction runs
  eleven cross-field rules; the renderer (src/host_config/render) brings the intent into canonical
  order and renders the role's Jinja template; the middleware adds the request id, the cache headers
  and the metrics, and exception handlers translate the program's errors. Around this stand the
  custom-field schema that is applied to Netbox (src/host_config/netbox/schema.py), the fixture
  loader that fills a lab Netbox (fixtures/netbox/populate.py), the launcher and image preparation
  of lab machines (fixtures/vms), and the validator that runs on a provisioned H200 host
  (scripts/validate_h200_host.py).

  Theories, and the code each models:

    \<^item> Prelude: results as a sum with \<open>rbind\<close>, \<open>rmap\<close>, \<open>rseq\<close>; stateful actions \<open>act\<close> with
      \<open>abind\<close>, \<open>aiter\<close>, \<open>amap\<close>; Python's text operations and \<open>repr\<close>; JSON values \<open>pyval\<close>.
      Pyval: what the program does with unchecked JSON values. Paths: the text of a
      \<open>pathlib.Path\<close>. Errors: the exception classes of
      errors.py, models/errors.py, netbox/errors.py and fixtures/netbox/errors.py with their bases
      and messages.
    \<^item> Ipv4: \<open>ipaddress.IPv4Interface\<close> over 32-bit words: parsing, printing, network, hosts.
    \<^item> Models: models/types.py, interface.py, vlan.py; one record per model and one constructor
      function per class with its field bounds. Validators: models/validators.py, each rule an
      interpretation of the locale \<open>checker\<close>, which says that a rule returns exactly if its
      condition holds and else raises under its identifier. Intent: models/intent.py. Assignments:
      writing an attribute of a model after its construction (\<open>validate_assignment\<close>); an assignment
      to an intent is an action, since the object is written even when a rule then raises.
    \<^item> Loader: netbox/loader.py against a client given by its answers. The locale \<open>iface_builder\<close> is the
      contract of a per-interface builder; VLANs, RoCE and InfiniBand builders are its instances.
    \<^item> Emitter: render/emitter.py; its locale \<open>canonical_order\<close> says what a sort key gives. Templates,
      User_Data: the twelve templates of render/templates as the lines they produce. Jinja: the
      template language as far as the templates use it (lines of text and variables, \<open>for\<close>,
      \<open>if x is not none\<close>, \<open>if x\<close>, strict undefined values), with an interpreter and a type checker
      of templates. Template_Source: the twelve templates as programs of that language, and the
      dumped intent they are run on. Yaml: a reader of the YAML the templates write (block mappings
      and sequences of plain words). Netplan_Document: the document network-config.j2 describes,
      as a value.
    \<^item> Service: service/middleware.py, routes.py, app.py, dependencies.py and the metric series.
      Startup: logging_config.py, the collectors of observability/metrics.py and
      render/environment.py. Request_Log: the context variables and the log lines of a render
      request, in middleware.py, routes.py and (through the standard library) loader.py.
    \<^item> Schema: netbox/schema.py. Validate: the validator. Launch, Prepare_Image: fixtures/vms.
      Processes: \<open>subprocess.Popen\<close> as the launcher uses it, over child processes that may ignore
      a signal. Populate: fixtures/netbox/populate.py. Command_Line: the option tables of the three
      programs that have a command line, and \<open>argparse\<close> as of Python 3.12, as they use it.
    \<^item> Samples: concrete inventories on which the properties' witnesses are evaluated.
      Netbox_Server: a Netbox kept as a list of posted objects, on which the two fixture loader
      contracts below are proved to hold.

  What the lemmas show:

    \<^item> Rules, Intent: construction succeeds exactly when bounds and rules hold, the first violated
      rule is the one reported (the ordered checks refine the table \<open>invariant_table\<close>), and what a
      constructed intent therefore guarantees. Assignments: what is left of this after any sequence
      of assignments, with the errors caught or not; a bond changed on its own is not checked
      against its intent.
    \<^item> Pipeline: a loaded intent is well formed, mirrors the inventory and does not depend on the
      order in which Netbox lists interfaces; a failing load raises a typed error; the rendered
      network configuration has one default route, and user-data carries the same document.
    \<^item> Jinja, Template_Source: a template that checks against the types of the context renders for
      every host without meeting an undefined value; the committed templates check, and running
      them gives the reference lines of Templates and User_Data, on which every other property of
      rendered files rests.
    \<^item> Yaml, Netplan_Document: a value written in block style reads back as itself, the rendered
      lines are the document in that style, and so the network configuration is recovered from its
      bytes and determines the interfaces of the host, but for what the templates do not print:
      VLAN roles, and the search domain of a VLAN without name servers. Hypothesis: the names that come from
      Netbox are plain words (\<open>plain_scalar\<close>); the templates do not quote them.
    \<^item> Service_Props: the answer, headers and metrics of a request on every branch; the gauge and the
      request counter as an invariant over every interleaving of requests, by rule induction over
      the step relation \<open>service_step\<close> and the locale \<open>http_route\<close>, which every endpoint
      interprets; totality for inventories within bounds.
    \<^item> Request_Log: logging does not change an answer, every structured line carries the id the
      answer returns, the other lines are the loader's, and no context is left for the next request.
    \<^item> Schema_Props, Populate_Again, Populate_Props: convergence and idempotence of the two programs
      that write to Netbox, and that their reports account for every object. Fixture_Load follows
      what the fixture loader leaves on a server that did not know a host, through the passes of
      the code; Fixture_Props composes it with the host loader: the host loaded from a populated
      Netbox is the host its fixture describes. Provisioning carries this through the service: the
      bytes served for the host read back as the Netplan document of its fixture.
    \<^item> Validate_Props: what exit status 0 means, what happens without the \<open>ip\<close> tool. Deployment: the
      files of the user-data rendered for an H200 host, the Netplan document read back from one of
      them, and that a machine on which they are carried out passes the validator, so the two
      programs agree on paths, names and counts.
    \<^item> Launch_Props, Processes, Prepare_Image: the devices of a launched machine; how long stopping
      one takes and which signals it sends; that only a verified image reaches its final path.
    \<^item> Startup: reloading the metrics module and reconfiguring the logging. Command_Line: the
      programs run with what their arguments say, and their exit statuses.

  Code outside the repository, beside the standard library, is a parameter: the Netbox client and server, the template engine
  (of the renderer; Template_Source instantiates it), SHA-256, the relay between the framework's inner response and a
  middleware, the JSON decoder and the commands and files behind the validator's probe, the process
  interface, downloads and \<open>virt-customize\<close>, the Prometheus registry and exposition, file reading
  and YAML parsing. What a property assumes of one is a named predicate: \<open>serves\<close>,
  \<open>serves_netbox\<close>, \<open>keeps_inventory\<close>, \<open>registers\<close>, \<open>faithful_relay\<close>,
  \<open>relays_context\<close> (a middleware goes on with its own logging context or with the inner one),
  \<open>carries_out\<close> (cloud-init, \<open>modules-load.d\<close>, Netplan and the bonding driver, given the lines of a
  user-data file).

  No definition needs fuel: every loop of the program runs over a list, so the definitions are
  total functions by structural recursion. Python integers are \<open>int\<close>, counts \<open>nat\<close>, addresses
  32-bit words; text is a list of characters below 256, rendered text a list of code points.

  Not modelled: the log calls outside the request path and how a record is formatted, the text
  \<open>argparse\<close> prints, Pydantic's coercions of values of another type than the declared one, the
  package files that only re-export names, the durations the histograms observe, and in the
  fixture loader interface fields of other types than declared. The tests, the Ansible roles and the documentation are not part of the program.
\<close>

end
